(* ===== verification/Prelude.thy ===== *)
theory Prelude
  imports Complex_Main "HOL-Library.AList" "HOL-Library.Multiset" "HOL-Library.Sublist"
    "HOL-Library.Char_ord" "HOL-Library.List_Lexorder" "HOL-Library.Product_Lexorder"
begin

text \<open>
  The Python vocabulary the components share, and the generic lemmas about it.

  \<^item> A Python \<open>dict\<close> is an association list in insertion order (\<open>dict\<close>): a store to a
    present key keeps its place, a store to a new key appends, which is
    \<^const>\<open>AList.update\<close>. \<open>dict_get\<close> is \<open>d.get(k, default)\<close>.
  \<^item> A \<open>defaultdict(list)\<close> that is only appended to is \<open>dict_append\<close>, and the loop
    \<open>for x in xs: groups[key(x)].append(x)\<close> is \<open>group_by\<close>.
  \<^item> \<open>xs.sort(key=f, reverse=True)\<close> is \<open>sort_desc\<close>; the ascending stable sort is the
    library's \<^const>\<open>sort_key\<close>.
  \<^item> \<open>xs[:n]\<close> with an integer \<open>n\<close> is \<open>py_take\<close>; \<open>round(x, n)\<close> is \<open>py_round\<close>
    (half to even).
  \<^item> Python floats are modelled by exact real numbers; Python integers by \<^typ>\<open>int\<close>.

  Strings are compared by code point (\<open>List_Lexorder\<close>, \<open>Char_ord\<close>) and tuples
  lexicographically (\<open>Product_Lexorder\<close>), as Python does.

  Two interfaces are stated as locales here: \<open>accumulator\<close> (a state that only ever grows
  by a per-item contribution, the shape of every aggregation loop of the program) and
  \<open>max_register\<close> (an integer register per key that is only ever raised, the shape of both
  vector-clock loops).
\<close>

named_theorems conserve \<comment> \<open>what an operation keeps of the multiset of stored things\<close>
named_theorems dict_simps \<comment> \<open>reading a dictionary after a write\<close>

type_synonym py_float = real
type_synonym ('k, 'v) dict = "('k \<times> 'v) list"

section \<open>Dictionaries\<close>

definition dict_get :: "('k, 'v) dict \<Rightarrow> 'k \<Rightarrow> 'v \<Rightarrow> 'v" where
  "dict_get d k v0 = (case map_of d k of None \<Rightarrow> v0 | Some v \<Rightarrow> v)"

definition dict_append :: "'k \<Rightarrow> 'v \<Rightarrow> ('k, 'v list) dict \<Rightarrow> ('k, 'v list) dict" where
  "dict_append k x d = AList.update k (dict_get d k [] @ [x]) d"

definition dict_incr :: "'k \<Rightarrow> int \<Rightarrow> ('k, int) dict \<Rightarrow> ('k, int) dict" where
  "dict_incr k n d = AList.update k (dict_get d k 0 + n) d"

definition group_by :: "('a \<Rightarrow> 'k) \<Rightarrow> 'a list \<Rightarrow> ('k, 'a list) dict" where
  "group_by key xs = fold (\<lambda>x. dict_append (key x) x) xs []"

lemma map_of_update_eq [simp]:
  "map_of (AList.update k v d) k' = (if k' = k then Some v else map_of d k')"
  by (simp add: update_conv')

lemma dict_get_Nil [simp]: "dict_get [] k v0 = v0"
  by (simp add: dict_get_def)

lemma dict_get_update [simp, dict_simps]:
  "dict_get (AList.update k v d) k' v0 = (if k' = k then v else dict_get d k' v0)"
  by (simp add: dict_get_def)

lemma dict_get_append [simp, dict_simps]:
  "dict_get (dict_append k x d) k' [] = dict_get d k' [] @ (if k' = k then [x] else [])"
  by (simp add: dict_append_def)

lemma dict_get_incr [simp, dict_simps]:
  "dict_get (dict_incr k n d) k' 0 = dict_get d k' 0 + (if k' = k then n else 0)"
  by (simp add: dict_incr_def)

lemma keys_update [simp]:
  "fst ` set (AList.update k v d) = insert k (fst ` set d)"
  by (simp add: dom_update)

lemma keys_dict_append [simp]: "fst ` set (dict_append k x d) = insert k (fst ` set d)"
  by (simp add: dict_append_def)

lemma keys_dict_incr [simp]: "fst ` set (dict_incr k n d) = insert k (fst ` set d)"
  by (simp add: dict_incr_def)

lemma distinct_keys_append [intro, simp]:
  "distinct (map fst d) \<Longrightarrow> distinct (map fst (dict_append k x d))"
  by (simp add: dict_append_def distinct_update)

lemma distinct_keys_incr [intro, simp]:
  "distinct (map fst d) \<Longrightarrow> distinct (map fst (dict_incr k n d))"
  by (simp add: dict_incr_def distinct_update)

lemma dict_get_eq_of_mem:
  "distinct (map fst d) \<Longrightarrow> (k, v) \<in> set d \<Longrightarrow> dict_get d k v0 = v"
  by (simp add: dict_get_def)

lemma dict_get_absent: "k \<notin> fst ` set d \<Longrightarrow> dict_get d k v0 = v0"
proof -
  assume "k \<notin> fst ` set d"
  then have "map_of d k = None" by (simp add: map_of_eq_None_iff)
  then show ?thesis by (simp add: dict_get_def)
qed

section \<open>Accumulating loops\<close>

text \<open>
  A loop that folds items into a state of which one observes, per key, a value in a monoid:
  each item adds its contribution on the right. What the loop computes is then the product
  of the contributions, in order.
\<close>

locale accumulator = monoid comb neutral
  for comb :: "'m \<Rightarrow> 'm \<Rightarrow> 'm" and neutral :: 'm +
  fixes step :: "'a \<Rightarrow> 's \<Rightarrow> 's"
    and obs :: "'s \<Rightarrow> 'k \<Rightarrow> 'm"
    and contrib :: "'a \<Rightarrow> 'k \<Rightarrow> 'm"
  assumes obs_step: "obs (step a s) k = comb (obs s k) (contrib a k)"
begin

lemma obs_fold:
  "obs (fold step as s) k = comb (obs s k) (foldr comb (map (\<lambda>a. contrib a k) as) neutral)"
proof (induction as arbitrary: s)
  case Nil
  show ?case by simp
next
  case (Cons a as)
  show ?case by (simp add: Cons obs_step assoc)
qed

lemma obs_fold_silent:
  "(\<And>a. a \<in> set as \<Longrightarrow> contrib a k = neutral) \<Longrightarrow> obs (fold step as s) k = obs s k"
  by (induction as arbitrary: s) (simp_all add: obs_step)

end

interpretation dict_list: accumulator "(@)" "[]" "\<lambda>(k, x). dict_append k x"
  "\<lambda>d k. dict_get d k []" "\<lambda>(k', x) k. if k = k' then [x] else []"
  by unfold_locales (auto split: prod.splits)

interpretation dict_count: accumulator "(+)" "0 :: int" "\<lambda>(k, n). dict_incr k n"
  "\<lambda>d k. dict_get d k 0" "\<lambda>(k', n) k. if k = k' then n else 0"
  by unfold_locales (auto split: prod.splits)

lemma group_by_as_pairs:
  "group_by key xs = fold (\<lambda>(k, x). dict_append k x) (map (\<lambda>x. (key x, x)) xs) []"
  by (simp add: group_by_def fold_map comp_def)

lemma concat_if_singleton:
  "concat (map (\<lambda>x. if P x then [f x] else []) xs) = map f (filter P xs)"
  by (induction xs) auto

lemma group_by_get: "dict_get (group_by key xs) k [] = filter (\<lambda>x. key x = k) xs"
proof -
  have "foldr (@) (map (\<lambda>x. if k = key x then [x] else []) xs) []
    = concat (map (\<lambda>x. if key x = k then [x] else []) xs)"
    by (simp add: concat_conv_foldr eq_commute)
  also have "\<dots> = filter (\<lambda>x. key x = k) xs"
    by (simp only: concat_if_singleton [where f = "\<lambda>x. x"] map_ident)
  finally show ?thesis
    by (simp add: group_by_as_pairs dict_list.obs_fold comp_def)
qed

lemma distinct_keys_fold_append:
  "distinct (map fst d) \<Longrightarrow> distinct (map fst (fold (\<lambda>x. dict_append (key x) x) xs d))"
  by (induction xs arbitrary: d) auto

lemma group_by_distinct [simp, intro]: "distinct (map fst (group_by key xs))"
  by (simp add: group_by_def distinct_keys_fold_append)

lemma keys_fold_append:
  "fst ` set (fold (\<lambda>x. dict_append (key x) x) xs d) = fst ` set d \<union> key ` set xs"
  by (induction xs arbitrary: d) auto

lemma group_by_keys: "fst ` set (group_by key xs) = key ` set xs"
  by (simp add: group_by_def keys_fold_append)

lemma group_by_mem:
  "(k, es) \<in> set (group_by key xs) \<longleftrightarrow> k \<in> key ` set xs \<and> es = filter (\<lambda>x. key x = k) xs"
proof
  assume mem: "(k, es) \<in> set (group_by key xs)"
  then have "k \<in> key ` set xs"
    using group_by_keys [of key xs] by (force simp: image_iff)
  moreover have "es = filter (\<lambda>x. key x = k) xs"
    using dict_get_eq_of_mem [OF group_by_distinct mem, of "[]"] by (simp add: group_by_get)
  ultimately show "k \<in> key ` set xs \<and> es = filter (\<lambda>x. key x = k) xs" ..
next
  assume r: "k \<in> key ` set xs \<and> es = filter (\<lambda>x. key x = k) xs"
  then obtain es' where es': "(k, es') \<in> set (group_by key xs)"
    using group_by_keys [of key xs] by force
  then have "es' = filter (\<lambda>x. key x = k) xs"
    using dict_get_eq_of_mem [OF group_by_distinct es', of "[]"] by (simp add: group_by_get)
  with es' r show "(k, es) \<in> set (group_by key xs)" by simp
qed

lemma group_by_nonempty: "(k, es) \<in> set (group_by key xs) \<Longrightarrow> es \<noteq> []"
  by (auto simp: group_by_mem filter_empty_conv)

section \<open>Registers that are only raised\<close>

definition raise_all ::
    "('s \<Rightarrow> 'k \<Rightarrow> int) \<Rightarrow> ('s \<Rightarrow> 'k \<Rightarrow> int \<Rightarrow> 's) \<Rightarrow> ('k \<times> int) list \<Rightarrow> 's \<Rightarrow> 's" where
  "raise_all rd wr kvs s =
     fold (\<lambda>(k, v) s. if v > rd s k then wr s k v else s) kvs s"

locale max_register =
  fixes rd :: "'s \<Rightarrow> 'k \<Rightarrow> int" and wr :: "'s \<Rightarrow> 'k \<Rightarrow> int \<Rightarrow> 's"
  assumes rd_wr: "rd (wr s k v) k' = (if k' = k then v else rd s k')"
begin

lemma raise_step: "rd (if v > rd s k then wr s k v else s) k' =
    (if k' = k then max (rd s k) v else rd s k')"
  by (simp add: rd_wr max_def)

lemma raise_all_Cons:
  "raise_all rd wr ((k, v) # kvs) s = raise_all rd wr kvs (if v > rd s k then wr s k v else s)"
  by (simp add: raise_all_def)

lemma raise_all_mono: "rd s k \<le> rd (raise_all rd wr kvs s) k"
proof (induction kvs arbitrary: s)
  case Nil
  show ?case by (simp add: raise_all_def)
next
  case (Cons p kvs)
  obtain n v where p: "p = (n, v)" by (cases p)
  let ?s = "if v > rd s n then wr s n v else s"
  have "rd s k \<le> rd ?s k" by (simp add: raise_step)
  also have "\<dots> \<le> rd (raise_all rd wr kvs ?s) k" by (rule Cons.IH)
  finally show ?case by (simp add: p raise_all_Cons)
qed

lemma raise_all_absent: "k \<notin> fst ` set kvs \<Longrightarrow> rd (raise_all rd wr kvs s) k = rd s k"
proof (induction kvs arbitrary: s)
  case Nil
  show ?case by (simp add: raise_all_def)
next
  case (Cons p kvs)
  then show ?case by (cases p) (simp add: raise_all_Cons raise_step)
qed

lemma raise_all_get:
  "distinct (map fst kvs) \<Longrightarrow>
   rd (raise_all rd wr kvs s) k = max (rd s k) (dict_get kvs k (rd s k))"
proof (induction kvs arbitrary: s)
  case Nil
  show ?case by (simp add: raise_all_def)
next
  case (Cons p kvs)
  obtain n v where p: "p = (n, v)" by (cases p)
  let ?s = "if v > rd s n then wr s n v else s"
  have IH: "rd (raise_all rd wr kvs ?s) k = max (rd ?s k) (dict_get kvs k (rd ?s k))"
    using Cons by simp
  show ?case
  proof (cases "k = n")
    case True
    then have "map_of kvs k = None"
      using Cons.prems p by (simp add: map_of_eq_None_iff)
    with True show ?thesis
      using IH by (simp add: p raise_all_Cons raise_step dict_get_def)
  next
    case False
    then show ?thesis
      using IH by (simp add: p raise_all_Cons raise_step dict_get_def)
  qed
qed

end

interpretation fun_register: max_register "\<lambda>f k. f k" "\<lambda>f k v. f(k := v)"
  by unfold_locales simp

interpretation dict_register: max_register "\<lambda>d k. dict_get d k 0" "\<lambda>d k v. AList.update k v d"
  by unfold_locales simp

section \<open>Sorting, slicing, rounding\<close>

definition sort_desc :: "('a \<Rightarrow> 'k::linorder) \<Rightarrow> 'a list \<Rightarrow> 'a list" where
  "sort_desc f xs = rev (sort_key f (rev xs))"

lemma set_sort_desc [simp]: "set (sort_desc f xs) = set xs"
  by (simp add: sort_desc_def)

lemma length_sort_desc [simp]: "length (sort_desc f xs) = length xs"
  by (simp add: sort_desc_def)

lemma mset_sort_desc [simp, conserve]: "mset (sort_desc f xs) = mset xs"
  by (simp add: sort_desc_def)

lemma sorted_sort_desc: "sorted_wrt (\<lambda>a b. f b \<le> f a) (sort_desc f xs)"
proof -
  have "sorted (map f (sort_key f (rev xs)))" by simp
  then have "sorted_wrt (\<lambda>a b. f a \<le> f b) (sort_key f (rev xs))"
    by (simp add: sorted_map)
  then show ?thesis by (simp add: sort_desc_def sorted_wrt_rev)
qed

lemma sorted_wrt_sort_key: "sorted_wrt (\<lambda>a b. f a \<le> f b) (sort_key f xs)"
  using sorted_sort_key [of f xs] by (simp only: sorted_map)

definition py_take :: "int \<Rightarrow> 'a list \<Rightarrow> 'a list" where
  "py_take n xs = (if 0 \<le> n then take (nat n) xs else take (nat (int (length xs) + n)) xs)"

lemma set_py_take: "set (py_take n xs) \<subseteq> set xs"
  by (auto simp: py_take_def dest: in_set_takeD)

lemma in_set_py_takeD: "x \<in> set (py_take n xs) \<Longrightarrow> x \<in> set xs"
  by (rule subsetD [OF set_py_take])

lemma length_py_take: "0 \<le> n \<Longrightarrow> int (length (py_take n xs)) \<le> n"
  by (simp add: py_take_def)

lemma sorted_wrt_py_take: "sorted_wrt P xs \<Longrightarrow> sorted_wrt P (py_take n xs)"
  by (simp add: py_take_def sorted_wrt_take)

definition half_even :: "real \<Rightarrow> int" where
  "half_even y = (let f = \<lfloor>y\<rfloor>; d = y - of_int f in
     if d < 1/2 then f else if 1/2 < d then f + 1 else if even f then f else f + 1)"

definition py_round :: "py_float \<Rightarrow> nat \<Rightarrow> py_float" where
  "py_round x n = of_int (half_even (x * 10 ^ n)) / 10 ^ n"

lemma half_even_of_int [simp]: "half_even (of_int z) = z"
  by (simp add: half_even_def)

lemma half_even_mono_int_le: "of_int z \<le> y \<Longrightarrow> z \<le> half_even y"
proof -
  assume "of_int z \<le> y"
  then have "z \<le> \<lfloor>y\<rfloor>" by (simp add: le_floor_iff)
  then show ?thesis by (auto simp: half_even_def Let_def)
qed

lemma half_even_mono_int_ge: "y \<le> of_int z \<Longrightarrow> half_even y \<le> z"
proof -
  assume y: "y \<le> of_int z"
  then have f: "\<lfloor>y\<rfloor> \<le> z" by (simp add: floor_le_iff)
  show ?thesis
  proof (cases "\<lfloor>y\<rfloor> = z")
    case True
    then have "y - of_int \<lfloor>y\<rfloor> \<le> 0" using y by simp
    with True show ?thesis by (simp add: half_even_def Let_def)
  next
    case False
    with f show ?thesis by (simp add: half_even_def Let_def)
  qed
qed

lemma half_even_dist: "\<bar>of_int (half_even y) - y\<bar> \<le> 1/2"
proof -
  have "of_int \<lfloor>y\<rfloor> \<le> y" "y < of_int \<lfloor>y\<rfloor> + 1" by linarith+
  then show ?thesis by (simp add: half_even_def Let_def abs_le_iff)
qed

lemma py_round_bounds:
  assumes "of_int a \<le> x" "x \<le> of_int b"
  shows "of_int a \<le> py_round x n" and "py_round x n \<le> of_int b"
proof -
  have "of_int (a * 10 ^ n) \<le> x * 10 ^ n" using assms(1) by simp
  from half_even_mono_int_le [OF this]
  have "of_int (a * 10 ^ n) \<le> (of_int (half_even (x * 10 ^ n)) :: real)" by (simp only: of_int_le_iff)
  then show "of_int a \<le> py_round x n" by (simp add: py_round_def field_simps)
  have "x * 10 ^ n \<le> of_int (b * 10 ^ n)" using assms(2) by simp
  from half_even_mono_int_ge [OF this]
  have "(of_int (half_even (x * 10 ^ n)) :: real) \<le> of_int (b * 10 ^ n)" by (simp only: of_int_le_iff)
  then show "py_round x n \<le> of_int b" by (simp add: py_round_def field_simps)
qed

lemma py_round_err: "\<bar>py_round x n - x\<bar> \<le> 1 / (2 * 10 ^ n)"
proof -
  have "py_round x n - x = (of_int (half_even (x * 10 ^ n)) - x * 10 ^ n) / 10 ^ n"
    by (simp add: py_round_def field_simps)
  then have "\<bar>py_round x n - x\<bar> = \<bar>of_int (half_even (x * 10 ^ n)) - x * 10 ^ n\<bar> / 10 ^ n"
    by simp
  also have "\<dots> \<le> (1/2) / 10 ^ n"
    by (rule divide_right_mono [OF half_even_dist]) simp
  finally show ?thesis by simp
qed

lemma half_even_mono: "x \<le> y \<Longrightarrow> half_even x \<le> half_even y"
proof (cases "\<lfloor>x\<rfloor> = \<lfloor>y\<rfloor>")
  case True
  moreover assume "x \<le> y"
  ultimately show ?thesis by (auto simp: half_even_def Let_def)
next
  case False
  moreover assume "x \<le> y"
  ultimately have "\<lfloor>x\<rfloor> + 1 \<le> \<lfloor>y\<rfloor>" using floor_mono [of x y] by linarith
  then show ?thesis by (auto simp: half_even_def Let_def)
qed

lemma py_round_mono: "x \<le> y \<Longrightarrow> py_round x n \<le> py_round y n"
  by (simp add: py_round_def divide_right_mono half_even_mono)

lemma sum_list_bounds:
  fixes xs :: "int list"
  assumes "\<forall>x\<in>set xs. a \<le> x \<and> x \<le> b"
  shows "a * int (length xs) \<le> sum_list xs" and "sum_list xs \<le> b * int (length xs)"
  using assms by (induction xs) (auto simp: algebra_simps)

lemma mean_bounds:
  fixes xs :: "int list"
  assumes "xs \<noteq> []" "\<forall>x\<in>set xs. a \<le> x \<and> x \<le> b"
  shows "(of_int a :: real) \<le> of_int (sum_list xs) / of_nat (length xs)"
    and "of_int (sum_list xs) / of_nat (length xs) \<le> (of_int b :: real)"
proof -
  have n: "(0::real) < of_nat (length xs)" using assms(1) by simp
  have "of_int (a * int (length xs)) \<le> (of_int (sum_list xs) :: real)"
    using sum_list_bounds(1) [OF assms(2)] by (simp only: of_int_le_iff)
  with n show "(of_int a :: real) \<le> of_int (sum_list xs) / of_nat (length xs)"
    by (simp add: pos_le_divide_eq)
  have "(of_int (sum_list xs) :: real) \<le> of_int (b * int (length xs))"
    using sum_list_bounds(2) [OF assms(2)] by (simp only: of_int_le_iff)
  with n show "of_int (sum_list xs) / of_nat (length xs) \<le> (of_int b :: real)"
    by (simp add: pos_divide_le_eq)
qed

section \<open>First maximum\<close>

text \<open>\<open>max(xs, key=f)\<close> of a non-empty list: the first element with the greatest key.\<close>

fun py_max :: "('a \<Rightarrow> 'k::linorder) \<Rightarrow> 'a \<Rightarrow> 'a list \<Rightarrow> 'a" where
  "py_max f b [] = b"
| "py_max f b (x # xs) = py_max f (if f b < f x then x else b) xs"

lemma py_max_in: "py_max f b xs \<in> insert b (set xs)"
  by (induction f b xs rule: py_max.induct) (auto split: if_splits)

lemma py_max_ge: "x \<in> insert b (set xs) \<Longrightarrow> f x \<le> f (py_max f b xs)"
proof (induction f b xs arbitrary: x rule: py_max.induct)
  case (1 f b)
  then show ?case by simp
next
  case (2 f b y ys)
  let ?b = "if f b < f y then y else b"
  have "f b \<le> f ?b" "f y \<le> f ?b" by auto
  moreover have "f ?b \<le> f (py_max f ?b ys)" using 2 by blast
  ultimately show ?case using 2 by (auto intro: order_trans)
qed

end
