(* ===== verification/Proto.thy ===== *)
theory Proto
  imports Prelude
begin

text \<open>
  The messages of \<open>proto/tft.proto\<close> as the Python services see them, and the topic names of
  \<open>common/proto.py\<close>. A protobuf \<open>repeated\<close> field is a list, a \<open>map\<close> field a dictionary
  with distinct keys, a \<open>double\<close> a \<^typ>\<open>py_float\<close>, and \<open>int32\<close>/\<open>int64\<close> fields are read
  by Python as integers. Fields that two messages share carry a prefix for their message.
\<close>

record pb_unit =
  character_id :: string
  unit_tier :: int
  items :: "string list"

record player_result =
  puuid :: string
  placement :: int
  units :: "pb_unit list"
  augments :: "string list"
  rounds_played :: int

type_synonym vector_clock = "(string, int) dict"

record match_event =
  match_id :: string
  region :: string
  patch :: string
  tier :: string
  players :: "player_result list"
  clocks :: vector_clock
  timestamp :: int

record stat_entry =
  se_entity_id :: string
  se_entity_type :: string
  se_patch :: string
  se_region :: string
  se_tier :: string
  se_win_rate :: py_float
  se_avg_placement :: py_float
  se_play_rate :: py_float
  se_sample_size :: int
  se_clock :: vector_clock

definition TOPIC_RAW_MATCHES :: string where
  "TOPIC_RAW_MATCHES = ''raw_matches''"

definition TOPIC_PROCESSED_STATS :: string where
  "TOPIC_PROCESSED_STATS = ''processed_stats''"

definition TOPIC_PATCH_EVENTS :: string where
  "TOPIC_PATCH_EVENTS = ''patch_events''"

definition TOPIC_ANOMALY_ALERTS :: string where
  "TOPIC_ANOMALY_ALERTS = ''anomaly_alerts''"

definition wf_clock :: "vector_clock \<Rightarrow> bool" where
  "wf_clock c \<longleftrightarrow> distinct (map fst c)"

end
