(* ===== verification/Heapq.thy ===== *)
theory Heapq
  imports Prelude
begin

text \<open>
  The operations of Python's \<open>heapq\<close> module that \<open>processor/reorder.py\<close> and the priority queue of
  \<open>ingestion/main.py\<close> use, \<open>heappush\<close>, \<open>heapify\<close> and \<open>heappop\<close>, on an array heap: a list in which the parent of position
  \<open>i\<close> is \<open>(i - 1) // 2\<close>. The order of the array is observable (the reorder buffer
  iterates over it), so the sifting loops are modelled as the library performs them: the
  item being placed is held aside while a hole travels towards the root (\<open>_siftdown\<close>) or
  towards a leaf (\<open>_siftup\<close>). Items are compared through a \<open>key\<close> in a linear order.

  The lemmas show that the operations permute the items they are given, that they establish or
  keep the heap order, and that \<open>heappop\<close> takes a least item.
\<close>

section \<open>Operations\<close>

definition parent :: "nat \<Rightarrow> nat" where
  "parent i = (i - 1) div 2"

lemma parent_less: "0 < i \<Longrightarrow> parent i < i"
  by (auto simp: parent_def)

lemma parent_le: "parent i \<le> i"
  by (auto simp: parent_def)

lemma parent_children [simp]: "parent (2 * p + 1) = p" "parent (2 * p + 2) = p"
  by (simp_all add: parent_def)

lemma child_cases: "0 < i \<Longrightarrow> i = 2 * parent i + 1 \<or> i = 2 * parent i + 2"
  by (auto simp: parent_def)

function siftdown :: "('a \<Rightarrow> 'b::linorder) \<Rightarrow> 'a \<Rightarrow> nat \<Rightarrow> 'a list \<Rightarrow> nat \<Rightarrow> 'a list" where
  "siftdown key new start h pos =
     (if start < pos \<and> key new < key (h ! parent pos)
      then siftdown key new start (h[pos := h ! parent pos]) (parent pos)
      else h[pos := new])"
  by pat_completeness auto
termination
  by (relation "measure (\<lambda>(key, new, start, h, pos). pos)") (auto simp: parent_less)

definition heappush :: "('a \<Rightarrow> 'b::linorder) \<Rightarrow> 'a \<Rightarrow> 'a list \<Rightarrow> 'a list" where
  "heappush key x h = siftdown key x 0 (h @ [x]) (length h)"

definition small_child :: "('a \<Rightarrow> 'b::linorder) \<Rightarrow> 'a list \<Rightarrow> nat \<Rightarrow> nat" where
  "small_child key h pos =
     (let l = 2 * pos + 1; r = l + 1
      in if r < length h \<and> \<not> key (h ! l) < key (h ! r) then r else l)"

lemma small_child_gt: "pos < small_child key h pos"
  by (simp add: small_child_def Let_def)

lemma small_child_less: "2 * pos + 1 < length h \<Longrightarrow> small_child key h pos < length h"
  by (simp add: small_child_def Let_def)

function sink :: "('a \<Rightarrow> 'b::linorder) \<Rightarrow> 'a list \<Rightarrow> nat \<Rightarrow> 'a list \<times> nat" where
  "sink key h pos =
     (if 2 * pos + 1 < length h
      then sink key (h[pos := h ! small_child key h pos]) (small_child key h pos)
      else (h, pos))"
  by pat_completeness auto
termination
  by (relation "measure (\<lambda>(key, h, pos). length h - pos)")
     (auto intro!: diff_less_mono2 small_child_gt)

definition siftup :: "('a \<Rightarrow> 'b::linorder) \<Rightarrow> nat \<Rightarrow> 'a list \<Rightarrow> 'a list" where
  "siftup key pos h = (case sink key h pos of (h', leaf) \<Rightarrow> siftdown key (h ! pos) pos h' leaf)"

definition heapify :: "('a \<Rightarrow> 'b::linorder) \<Rightarrow> 'a list \<Rightarrow> 'a list" where
  "heapify key h = fold (siftup key) (rev [0..<length h div 2]) h"

declare siftdown.simps [simp del] sink.simps [simp del]

section \<open>The items are permuted\<close>

lemma mset_move_hole:
  assumes "i < length h" "j < length h" "i \<noteq> j"
  shows "mset (h[i := h ! j, j := x]) = mset (h[i := x])"
proof -
  have "h[i := h ! j, j := x] = (h[i := x])[i := h[i := x] ! j, j := h[i := x] ! i]"
    using assms by simp
  also have "mset \<dots> = mset (h[i := x])"
    by (rule mset_swap) (use assms in simp_all)
  finally show ?thesis .
qed

lemma length_siftdown [simp]: "length (siftdown key new start h pos) = length h"
proof (induction key new start h pos rule: siftdown.induct)
  case (1 key new start h pos)
  then show ?case by (subst siftdown.simps) simp
qed

lemma mset_siftdown [conserve]:
  "pos < length h \<Longrightarrow> mset (siftdown key new start h pos) = mset (h[pos := new])"
proof (induction key new start h pos rule: siftdown.induct)
  case (1 key new start h pos)
  show ?case
  proof (cases "start < pos \<and> key new < key (h ! parent pos)")
    case True
    then have pp: "parent pos < pos" by (auto intro: parent_less)
    have "mset (siftdown key new start h pos)
        = mset (h[pos := h ! parent pos, parent pos := new])"
      using 1 True pp by (simp add: siftdown.simps [of key new start h pos])
    also have "\<dots> = mset (h[pos := new])"
      by (rule mset_move_hole) (use 1 pp in auto)
    finally show ?thesis .
  next
    case False
    then show ?thesis by (simp only: siftdown.simps [of key new start h pos] if_False)
  qed
qed

lemma mset_heappush [simp, conserve]: "mset (heappush key x h) = add_mset x (mset h)"
  by (simp add: heappush_def mset_siftdown)

lemma length_heappush [simp]: "length (heappush key x h) = Suc (length h)"
  by (simp add: heappush_def)

lemma set_heappush [simp]: "set (heappush key x h) = insert x (set h)"
  using mset_heappush [of key x h] by (metis set_mset_add_mset_insert set_mset_mset)

lemma sink_spec:
  assumes "pos < length h" "sink key h pos = (h', leaf)"
  shows "length h' = length h \<and> leaf < length h \<and> mset (h'[leaf := x]) = mset (h[pos := x])"
  using assms
proof (induction key h pos arbitrary: h' leaf rule: sink.induct)
  case (1 key h pos)
  show ?case
  proof (cases "2 * pos + 1 < length h")
    case True
    let ?c = "small_child key h pos"
    have c: "pos < ?c" "?c < length h"
      using True by (auto intro: small_child_gt small_child_less)
    have rec: "sink key (h[pos := h ! ?c]) ?c = (h', leaf)"
      using "1.prems" True by (simp add: sink.simps [of key h pos])
    have "length h' = length h \<and> leaf < length h \<and>
        mset (h'[leaf := x]) = mset (h[pos := h ! ?c, ?c := x])"
      using "1.IH" [OF True _ rec] c by simp
    with mset_move_hole [of pos h ?c x] c "1.prems" show ?thesis by simp
  next
    case False
    with "1.prems" show ?thesis by (simp add: sink.simps [of key h pos])
  qed
qed

lemma mset_siftup [conserve]: "pos < length h \<Longrightarrow> mset (siftup key pos h) = mset h"
proof -
  assume pos: "pos < length h"
  obtain h' leaf where s: "sink key h pos = (h', leaf)" by (cases "sink key h pos")
  from sink_spec [OF pos s, of "h ! pos"] show ?thesis
    by (simp add: siftup_def s mset_siftdown)
qed

lemma length_siftup [simp]: "pos < length h \<Longrightarrow> length (siftup key pos h) = length h"
  using mset_siftup [of pos h key] by (metis size_mset)

lemma heapify_fold:
  "\<forall>i\<in>set is. i < length h \<Longrightarrow> mset (fold (siftup key) is h) = mset h"
proof (induction "is" arbitrary: h)
  case Nil
  show ?case by simp
next
  case (Cons i "is")
  then have "\<forall>j\<in>set is. j < length (siftup key i h)" by simp
  from Cons.IH [OF this] Cons.prems show ?case by (simp add: mset_siftup)
qed

lemma mset_heapify [simp, conserve]: "mset (heapify key h) = mset h"
  unfolding heapify_def by (rule heapify_fold) auto

lemma set_heapify [simp]: "set (heapify key h) = set h"
  using mset_heapify [of key h] by (metis set_mset_mset)

lemma length_heapify [simp]: "length (heapify key h) = length h"
  using mset_heapify [of key h] by (metis size_mset)

section \<open>The heap order\<close>

text \<open>
  \<open>heap_from key s h\<close>: every item whose parent stands at \<open>s\<close> or later is no smaller than
  that parent. At \<open>s = 0\<close> this is the heap order of the whole array.
\<close>

definition heap_from :: "('a \<Rightarrow> 'b::linorder) \<Rightarrow> nat \<Rightarrow> 'a list \<Rightarrow> bool" where
  "heap_from key s h \<longleftrightarrow>
     (\<forall>i<length h. 0 < i \<longrightarrow> s \<le> parent i \<longrightarrow> key (h ! parent i) \<le> key (h ! i))"

abbreviation is_heap :: "('a \<Rightarrow> 'b::linorder) \<Rightarrow> 'a list \<Rightarrow> bool" where
  "is_heap key h \<equiv> heap_from key 0 h"

text \<open>
  The invariant of both loops, with a hole at \<open>pos\<close>: pairs that do not touch the hole are
  in order, and the hole's parent is no greater than the hole's children.
\<close>

definition hole_inv :: "('a \<Rightarrow> 'b::linorder) \<Rightarrow> nat \<Rightarrow> 'a list \<Rightarrow> nat \<Rightarrow> bool" where
  "hole_inv key s h pos \<longleftrightarrow>
     (\<forall>i<length h. 0 < i \<longrightarrow> s \<le> parent i \<longrightarrow> i \<noteq> pos \<longrightarrow> parent i \<noteq> pos \<longrightarrow>
        key (h ! parent i) \<le> key (h ! i)) \<and>
     (s < pos \<longrightarrow> (\<forall>i<length h. 0 < i \<longrightarrow> parent i = pos \<longrightarrow>
        key (h ! parent pos) \<le> key (h ! i)))"

inductive descends :: "nat \<Rightarrow> nat \<Rightarrow> bool" for s where
  here: "descends s s"
| below: "descends s (parent i) \<Longrightarrow> 0 < i \<Longrightarrow> descends s i"

lemma descends_ge: "descends s i \<Longrightarrow> s \<le> i"
proof (induction rule: descends.induct)
  case here
  show ?case by simp
next
  case (below i)
  then show ?case using parent_le [of i] by linarith
qed

lemma descends_parent: "descends s i \<Longrightarrow> s < i \<Longrightarrow> descends s (parent i)"
  by (auto elim: descends.cases)

lemma descends_zero: "descends 0 i"
proof (induction i rule: less_induct)
  case (less i)
  show ?case
  proof (cases "i = 0")
    case True
    then show ?thesis by (simp add: descends.here)
  next
    case False
    then have "descends 0 (parent i)" by (intro less parent_less) simp
    then show ?thesis by (rule descends.below) (use False in simp)
  qed
qed

lemma siftdown_heap:
  assumes "hole_inv key s h pos" "descends s pos" "pos < length h"
    and "\<forall>i<length h. 0 < i \<longrightarrow> parent i = pos \<longrightarrow> key new \<le> key (h ! i)"
  shows "heap_from key s (siftdown key new s h pos)"
  using assms
proof (induction key new s h pos rule: siftdown.induct)
  case (1 key new s h pos)
  note inv = "1.prems"(1)[unfolded hole_inv_def]
  show ?case
  proof (cases "s < pos \<and> key new < key (h ! parent pos)")
    case True
    let ?p = "parent pos"
    let ?h = "h[pos := h ! ?p]"
    have p: "?p < pos" "descends s ?p" "s \<le> ?p"
      using True "1.prems"(2) descends_parent descends_ge by (auto intro: parent_less)
    have sib: "key (h ! ?p) \<le> key (h ! i)"
      if "i < length h" "0 < i" "parent i = ?p" "i \<noteq> pos" for i
      using inv that p by (metis less_irrefl_nat)
    have up: "key (h ! parent ?p) \<le> key (h ! ?p)" if "s < ?p"
    proof -
      have sp: "s \<le> parent ?p" using descends_ge [OF descends_parent [OF p(2) that]] .
      have "parent ?p \<noteq> pos" using p parent_le [of ?p] by linarith
      with inv sp p that "1.prems"(3) show ?thesis by simp
    qed
    have "hole_inv key s ?h ?p"
      unfolding hole_inv_def
    proof (intro conjI allI impI)
      fix i
      assume i: "i < length ?h" "0 < i" "s \<le> parent i" "i \<noteq> ?p" "parent i \<noteq> ?p"
      then have "i \<noteq> pos" by auto
      show "key (?h ! parent i) \<le> key (?h ! i)"
        using inv i \<open>i \<noteq> pos\<close> True "1.prems"(3) by (cases "parent i = pos") auto
    next
      fix i
      assume i: "s < ?p" "i < length ?h" "0 < i" "parent i = ?p"
      have "key (h ! parent ?p) \<le> key (h ! ?p)" using up i by simp
      moreover have "parent ?p \<noteq> pos" using p parent_le [of ?p] by linarith
      ultimately show "key (?h ! parent ?p) \<le> key (?h ! i)"
        using sib i "1.prems"(3) by (cases "i = pos") (auto intro: order_trans)
    qed
    moreover have "\<forall>i<length ?h. 0 < i \<longrightarrow> parent i = ?p \<longrightarrow> key new \<le> key (?h ! i)"
    proof (intro allI impI)
      fix i
      assume i: "i < length ?h" "0 < i" "parent i = ?p"
      show "key new \<le> key (?h ! i)"
      proof (cases "i = pos")
        case True
        with i \<open>s < pos \<and> key new < key (h ! ?p)\<close> show ?thesis
          by (simp add: less_imp_le)
      next
        case False
        have "key new \<le> key (h ! ?p)"
          using \<open>s < pos \<and> key new < key (h ! ?p)\<close> by (simp add: less_imp_le)
        also have "\<dots> \<le> key (h ! i)" using sib i False by simp
        finally show ?thesis using False by simp
      qed
    qed
    ultimately have "heap_from key s (siftdown key new s ?h ?p)"
      using "1.IH" [OF True] p "1.prems"(3) by simp
    then show ?thesis using True by (simp add: siftdown.simps [of key new s h pos])
  next
    case False
    have "heap_from key s (h[pos := new])"
      unfolding heap_from_def
    proof (intro allI impI)
      fix i
      assume i: "i < length (h[pos := new])" "0 < i" "s \<le> parent i"
      have "parent i < i" using i by (simp add: parent_less)
      show "key (h[pos := new] ! parent i) \<le> key (h[pos := new] ! i)"
      proof (cases "i = pos")
        case True
        then have "s < pos" using i \<open>parent i < i\<close> by simp
        with False True i \<open>parent i < i\<close> show ?thesis by auto
      next
        case i_ne: False
        show ?thesis
          using inv i i_ne "1.prems"(3,4) by (cases "parent i = pos") auto
      qed
    qed
    then show ?thesis using False by (simp only: siftdown.simps [of key new s h pos] if_False)
  qed
qed

lemma heappush_heap: "is_heap key h \<Longrightarrow> is_heap key (heappush key x h)"
  unfolding heappush_def
proof (rule siftdown_heap)
  assume h: "is_heap key h"
  have no_child: "parent i \<noteq> length h" if "i < length (h @ [x])" "0 < i" for i
    using that parent_less [of i] by auto
  show "hole_inv key 0 (h @ [x]) (length h)"
    unfolding hole_inv_def
  proof (intro conjI allI impI)
    fix i
    assume i: "i < length (h @ [x])" "0 < i" "i \<noteq> length h"
    then have "i < length h" "parent i < length h" using parent_less [of i] by simp_all
    with h i show "key ((h @ [x]) ! parent i) \<le> key ((h @ [x]) ! i)"
      by (simp add: heap_from_def nth_append)
  qed (use no_child in auto)
  show "\<forall>i<length (h @ [x]). 0 < i \<longrightarrow> parent i = length h \<longrightarrow> key x \<le> key ((h @ [x]) ! i)"
    using no_child by auto
qed (auto simp: descends_zero)

lemma small_child_le:
  assumes "i < length h" "0 < i" "parent i = pos"
  shows "key (h ! small_child key h pos) \<le> key (h ! i)"
proof -
  have "i = 2 * pos + 1 \<or> i = 2 * pos + 2"
    using assms child_cases by blast
  then show ?thesis
    using assms by (auto simp: small_child_def Let_def not_less)
qed

lemma small_child_parent [simp]: "parent (small_child key h pos) = pos"
  by (simp add: small_child_def Let_def parent_def)

lemma sink_heap:
  assumes "hole_inv key s h pos" "descends s pos" "pos < length h" "sink key h pos = (h', leaf)"
  shows "hole_inv key s h' leaf \<and> descends s leaf \<and> leaf < length h' \<and> length h' \<le> 2 * leaf + 1"
  using assms
proof (induction key h pos arbitrary: h' leaf rule: sink.induct)
  case (1 key h pos)
  note inv = "1.prems"(1)[unfolded hole_inv_def]
  show ?case
  proof (cases "2 * pos + 1 < length h")
    case True
    let ?c = "small_child key h pos"
    let ?h = "h[pos := h ! ?c]"
    have c: "pos < ?c" "?c < length h"
      using True by (auto intro: small_child_gt small_child_less)
    have "descends s ?c"
      by (rule descends.below) (use "1.prems"(2) c in simp_all)
    moreover have "hole_inv key s ?h ?c"
      unfolding hole_inv_def
    proof (intro conjI allI impI)
      fix i
      assume i: "i < length ?h" "0 < i" "s \<le> parent i" "i \<noteq> ?c" "parent i \<noteq> ?c"
      consider "i = pos" | "parent i = pos" | "i \<noteq> pos" "parent i \<noteq> pos" by blast
      then show "key (?h ! parent i) \<le> key (?h ! i)"
      proof cases
        case 1
        then have "s < pos" "parent pos \<noteq> pos"
          using i parent_less [of pos] by simp_all
        with 1 inv c i show ?thesis by (auto simp: nth_list_update)
      next
        case 2
        then have "i \<noteq> pos" using i parent_less [of i] by auto
        with 2 i c small_child_le [of i h pos key] show ?thesis by simp
      next
        case 3
        with inv i show ?thesis by auto
      qed
    next
      fix i
      assume i: "i < length ?h" "0 < i" "parent i = ?c"
      then have "i \<noteq> pos" using c parent_le [of i] by auto
      moreover have "s \<le> ?c" using descends_ge [OF \<open>descends s ?c\<close>] .
      ultimately have "key (h ! ?c) \<le> key (h ! i)" using inv i c by auto
      with i \<open>i \<noteq> pos\<close> c show "key (?h ! parent ?c) \<le> key (?h ! i)" by simp
    qed
    ultimately show ?thesis
      using "1.IH" [OF True, of h' leaf] "1.prems"(4) c True
      by (simp add: sink.simps [of key h pos])
  next
    case False
    with "1.prems" show ?thesis by (simp add: sink.simps [of key h pos])
  qed
qed

lemma siftup_heap:
  assumes "heap_from key (Suc pos) h" "pos < length h"
  shows "heap_from key pos (siftup key pos h)"
proof -
  obtain h' leaf where s: "sink key h pos = (h', leaf)" by (cases "sink key h pos")
  have inv: "hole_inv key pos h pos"
    using assms(1) by (auto simp: hole_inv_def heap_from_def)
  have r: "hole_inv key pos h' leaf" "descends pos leaf" "leaf < length h'"
    "length h' \<le> 2 * leaf + 1"
    using sink_heap [OF inv descends.here assms(2) s] by auto
  have "heap_from key pos (siftdown key (h ! pos) pos h' leaf)"
  proof (rule siftdown_heap [OF r(1-3)], intro allI impI)
    fix i
    assume "i < length h'" "0 < i" "parent i = leaf"
    then have False using child_cases [of i] r(4) by auto
    then show "key (h ! pos) \<le> key (h' ! i)" ..
  qed
  then show ?thesis by (simp add: siftup_def s)
qed

lemma heapify_fold_heap:
  "heap_from key n h \<Longrightarrow> n \<le> length h \<Longrightarrow> is_heap key (fold (siftup key) (rev [0..<n]) h)"
proof (induction n arbitrary: h)
  case 0
  then show ?case by simp
next
  case (Suc n)
  then have "heap_from key n (siftup key n h)" by (intro siftup_heap) auto
  with Suc.IH [of "siftup key n h"] Suc.prems show ?case by simp
qed

lemma heapify_heap: "is_heap key (heapify key h)"
  unfolding heapify_def by (rule heapify_fold_heap) (auto simp: heap_from_def parent_def)

section \<open>Taking the least item\<close>

definition heappop :: "('a \<Rightarrow> 'b::linorder) \<Rightarrow> 'a list \<Rightarrow> ('a \<times> 'a list) option" where
  "heappop key h =
     (case h of
        [] \<Rightarrow> None
      | _ \<Rightarrow> (let rest = butlast h
              in if rest = [] then Some (last h, [])
                 else Some (hd rest, siftup key 0 (rest[0 := last h]))))"

lemma heap_root_least:
  assumes "is_heap key h" "i < length h"
  shows "key (h ! 0) \<le> key (h ! i)"
  using assms(2)
proof (induction i rule: less_induct)
  case (less i)
  show ?case
  proof (cases "i = 0")
    case False
    then have "parent i < i" by (simp add: parent_less)
    with less have "key (h ! 0) \<le> key (h ! parent i)" by simp
    also have "\<dots> \<le> key (h ! i)" using assms(1) False less.prems by (simp add: heap_from_def)
    finally show ?thesis .
  qed simp
qed

lemma heappop_spec:
  assumes heap: "is_heap key h" and ne: "h \<noteq> []"
  shows "\<exists>h'. heappop key h = Some (hd h, h') \<and> mset h = add_mset (hd h) (mset h') \<and> is_heap key h'"
proof (cases "butlast h = []")
  case True
  then have "h = [last h]" using ne append_butlast_last_id by fastforce
  then obtain x where "h = [x]" by blast
  then show ?thesis by (simp add: heappop_def heap_from_def)
next
  case False
  let ?rest = "butlast h" and ?h = "(butlast h)[0 := last h]"
  obtain x xs where r: "?rest = x # xs" using False by (cases ?rest) auto
  have h: "h = x # xs @ [last h]" using r append_butlast_last_id [OF ne] by simp
  have "heap_from key (Suc 0) ?h"
    unfolding heap_from_def
  proof (intro allI impI)
    fix i
    assume i: "i < length ?h" "0 < i" "Suc 0 \<le> parent i"
    moreover have "parent i < i" using i(2) by (rule parent_less)
    ultimately show "key (?h ! parent i) \<le> key (?h ! i)"
      using heap by (simp add: heap_from_def nth_butlast)
  qed
  then have "is_heap key (siftup key 0 ?h)" using r by (intro siftup_heap) simp_all
  moreover have "mset (siftup key 0 ?h) = mset (xs @ [last h])" using mset_siftup [of 0 ?h key] r by simp
  moreover have "mset h = add_mset x (mset (xs @ [last h]))" "hd h = x" by (subst h, simp)+
  moreover have "heappop key h = Some (x, siftup key 0 ?h)" using ne False r by (cases h) (simp_all add: heappop_def Let_def)
  ultimately show ?thesis by simp
qed

end
