(* ===== verification/Buffer_Spec.thy ===== *)
theory Buffer_Spec
  imports Prelude
begin

text \<open>
  The contract of an event buffer: a client puts events in, one at a time, and takes lists
  of events out; the buffer may hold events back and may reorder them, but it neither loses
  nor duplicates any. The processor's main loop is written against this contract; the
  reorder buffer provides it.
\<close>

datatype ('t, 'e) buf_op = Put 't 'e | Take 't

fun buf_run ::
    "('t \<Rightarrow> 'e \<Rightarrow> 's \<Rightarrow> 's) \<Rightarrow> ('t \<Rightarrow> 's \<Rightarrow> 'e list \<times> 's) \<Rightarrow>
     ('t, 'e) buf_op list \<Rightarrow> 's \<Rightarrow> 'e list \<times> 's" where
  "buf_run put take_out [] s = ([], s)"
| "buf_run put take_out (Put t e # ops) s = buf_run put take_out ops (put t e s)"
| "buf_run put take_out (Take t # ops) s =
     (case take_out t s of (out, s') \<Rightarrow>
        (case buf_run put take_out ops s' of (outs, s'') \<Rightarrow> (out @ outs, s'')))"

fun put_events :: "('t, 'e) buf_op list \<Rightarrow> 'e multiset" where
  "put_events [] = {#}"
| "put_events (Put t e # ops) = add_mset e (put_events ops)"
| "put_events (Take t # ops) = put_events ops"

locale event_buffer =
  fixes put :: "'t \<Rightarrow> 'e \<Rightarrow> 's \<Rightarrow> 's"
    and take_out :: "'t \<Rightarrow> 's \<Rightarrow> 'e list \<times> 's"
    and pend :: "'s \<Rightarrow> 'e multiset"
    and inv :: "'s \<Rightarrow> bool"
  assumes pend_put: "inv s \<Longrightarrow> pend (put t e s) = add_mset e (pend s)"
    and pend_take: "inv s \<Longrightarrow> take_out t s = (out, s') \<Longrightarrow> mset out + pend s' = pend s"
    and inv_put: "inv s \<Longrightarrow> inv (put t e s)"
    and inv_take: "inv s \<Longrightarrow> take_out t s = (out, s') \<Longrightarrow> inv s'"
begin

lemma run_inv: "inv s \<Longrightarrow> buf_run put take_out ops s = (outs, s') \<Longrightarrow> inv s'"
proof (induction ops arbitrary: s outs rule: put_events.induct)
  case (3 t ops)
  then show ?case by (auto split: prod.splits dest: inv_take)
qed (auto intro: inv_put)

lemma run_conserves:
  "inv s \<Longrightarrow> buf_run put take_out ops s = (outs, s') \<Longrightarrow>
   mset outs + pend s' = pend s + put_events ops"
proof (induction ops arbitrary: s outs rule: put_events.induct)
  case 1
  then show ?case by simp
next
  case (2 t e ops)
  then have "mset outs + pend s' = pend (put t e s) + put_events ops"
    by (simp add: inv_put)
  then show ?case using "2.prems"(1) by (simp add: pend_put)
next
  case (3 t ops)
  obtain out s1 where t: "take_out t s = (out, s1)" by (cases "take_out t s")
  obtain outs2 where r: "buf_run put take_out ops s1 = (outs2, s')" and o: "outs = out @ outs2"
    using "3.prems"(2) t by (auto split: prod.splits)
  have "mset outs2 + pend s' = pend s1 + put_events ops"
    using "3.IH" inv_take [OF "3.prems"(1) t] r by blast
  moreover have "mset out + pend s1 = pend s" using pend_take [OF "3.prems"(1) t] .
  ultimately show ?case by (simp add: o ac_simps)
qed

end

end
