(* ===== verification/Reorder.thy ===== *)
theory Reorder
  imports Proto Heapq Buffer_Spec
begin

text \<open>
  The causal reorder buffer of \<open>processor/reorder.py\<close>. The heap holds tuples
  \<open>(vc_sum, counter, arrival, event)\<close>; Python compares them lexicographically, and since the
  counters in one heap are distinct (\<open>rb_inv\<close> below) the first two components decide, so
  \<open>item_key\<close> is the pair of them. The watermarks \<open>delivered\<close> are a \<open>defaultdict(int)\<close>
  that is only read and written by key: a total function with \<open>0\<close> for a key never written.
  \<open>time.time()\<close> is the argument \<open>now\<close>.
\<close>

section \<open>State and operations\<close>

type_synonym item = "int \<times> nat \<times> py_float \<times> match_event"

abbreviation item_event :: "item \<Rightarrow> match_event" where
  "item_event it \<equiv> snd (snd (snd it))"

abbreviation item_arrival :: "item \<Rightarrow> py_float" where
  "item_arrival it \<equiv> fst (snd (snd it))"

abbreviation item_counter :: "item \<Rightarrow> nat" where
  "item_counter it \<equiv> fst (snd it)"

definition item_key :: "item \<Rightarrow> int \<times> nat" where
  "item_key it = (fst it, item_counter it)"

record reorder_buffer =
  rb_timeout :: py_float
  rb_heap :: "item list"
  rb_counter :: nat
  rb_delivered :: "string \<Rightarrow> int"
  rb_forced :: nat

definition new_reorder_buffer :: "py_float \<Rightarrow> reorder_buffer" where
  "new_reorder_buffer timeout =
     \<lparr>rb_timeout = timeout, rb_heap = [], rb_counter = 0, rb_delivered = (\<lambda>_. 0), rb_forced = 0\<rparr>"

definition vc_sum :: "match_event \<Rightarrow> int" where
  "vc_sum e = sum_list (map snd (clocks e))"

definition push :: "py_float \<Rightarrow> match_event \<Rightarrow> reorder_buffer \<Rightarrow> reorder_buffer" where
  "push now e rb = rb\<lparr>
     rb_heap := heappush item_key (vc_sum e, rb_counter rb, now, e) (rb_heap rb),
     rb_counter := rb_counter rb + 1\<rparr>"

definition is_ready :: "(string \<Rightarrow> int) \<Rightarrow> match_event \<Rightarrow> bool" where
  "is_ready delivered e \<longleftrightarrow> list_all (\<lambda>(node, seq). \<not> seq > delivered node + 1) (clocks e)"

definition deliver :: "match_event \<Rightarrow> (string \<Rightarrow> int) \<Rightarrow> (string \<Rightarrow> int)" where
  "deliver e delivered = raise_all (\<lambda>f k. f k) (\<lambda>f k v. f(k := v)) (clocks e) delivered"

text \<open>
  One \<open>for item in self._heap\<close> pass. Its result is the watermarks, the events it output, the
  items it kept and how many it forced; \<open>progressed\<close> is whether it output any.
\<close>

fun scan_pass ::
    "py_float \<Rightarrow> py_float \<Rightarrow> item list \<Rightarrow> (string \<Rightarrow> int) \<Rightarrow>
     (string \<Rightarrow> int) \<times> match_event list \<times> item list \<times> nat" where
  "scan_pass now timeout [] d = (d, [], [], 0)"
| "scan_pass now timeout (it # its) d =
     (if is_ready d (item_event it) then
        (case scan_pass now timeout its (deliver (item_event it) d) of
           (d', out, keep, forced) \<Rightarrow> (d', item_event it # out, keep, forced))
      else if now - item_arrival it \<ge> timeout then
        (case scan_pass now timeout its (deliver (item_event it) d) of
           (d', out, keep, forced) \<Rightarrow> (d', item_event it # out, keep, forced + 1))
      else
        (case scan_pass now timeout its d of
           (d', out, keep, forced) \<Rightarrow> (d', out, it # keep, forced)))"

lemma scan_pass_length:
  "scan_pass now timeout its d = (d', out, keep, forced) \<Longrightarrow>
   length out + length keep = length its"
  by (induction its arbitrary: d d' out keep forced) (auto split: if_splits prod.splits)

lemma scan_pass_progress:
  "scan_pass now timeout its d = (d', out, keep, forced) \<Longrightarrow> out \<noteq> [] \<Longrightarrow>
   length keep < length its"
  using scan_pass_length [of now timeout its d d' out keep forced] by (cases out) auto

text \<open>The \<open>while progressed and self._heap\<close> loop: repeat the pass until it outputs nothing.\<close>

function scan_loop ::
    "py_float \<Rightarrow> py_float \<Rightarrow> item list \<Rightarrow> (string \<Rightarrow> int) \<Rightarrow>
     (string \<Rightarrow> int) \<times> match_event list \<times> item list \<times> nat" where
  "scan_loop now timeout heap d =
     (if heap = [] then (d, [], [], 0)
      else (case scan_pass now timeout heap d of
        (d', out, keep, forced) \<Rightarrow>
          if out = [] then (d', [], keep, forced)
          else (case scan_loop now timeout keep d' of
            (d'', out', keep', forced') \<Rightarrow> (d'', out @ out', keep', forced + forced'))))"
  by pat_completeness auto
termination
  by (relation "measure (\<lambda>(now, timeout, heap, d). length heap)")
     (auto dest!: scan_pass_progress [OF sym])

declare scan_loop.simps [simp del]

definition pop_ready :: "py_float \<Rightarrow> reorder_buffer \<Rightarrow> match_event list \<times> reorder_buffer" where
  "pop_ready now rb =
     (case scan_loop now (rb_timeout rb) (rb_heap rb) (rb_delivered rb) of
        (d, out, keep, forced) \<Rightarrow>
          (sort_key vc_sum out,
           rb\<lparr>rb_heap := heapify item_key keep, rb_delivered := d,
             rb_forced := rb_forced rb + forced\<rparr>))"

definition rb_len :: "reorder_buffer \<Rightarrow> nat" where
  "rb_len rb = length (rb_heap rb)"

definition pending :: "reorder_buffer \<Rightarrow> match_event multiset" where
  "pending rb = mset (map item_event (rb_heap rb))"

section \<open>Nothing is lost and nothing is duplicated\<close>

lemma scan_pass_conserve [conserve]:
  "scan_pass now timeout its d = (d', out, keep, forced) \<Longrightarrow>
   mset out + mset (map item_event keep) = mset (map item_event its)"
  by (induction its arbitrary: d d' out keep forced) (auto split: if_splits prod.splits)

lemma scan_pass_out_set:
  "scan_pass now timeout its d = (d', out, keep, forced) \<Longrightarrow> set out \<subseteq> item_event ` set its"
  by (drule scan_pass_conserve, drule arg_cong [where f = set_mset]) auto

lemma scan_pass_keep_subseq:
  "scan_pass now timeout its d = (d', out, keep, forced) \<Longrightarrow> subseq keep its"
proof (induction its arbitrary: d d' out keep forced)
  case Nil
  then show ?case by simp
next
  case (Cons it its)
  then show ?case by (auto split: if_splits prod.splits)
qed

lemma subseq_set_mono: "subseq xs ys \<Longrightarrow> set xs \<subseteq> set ys"
  by (induction rule: list_emb.induct) auto

lemma scan_loop_cases:
  assumes "scan_loop now timeout heap d = (d', out, keep, forced)"
  obtains (empty) "heap = []" "d' = d" "out = []" "keep = []" "forced = 0"
  | (still) "heap \<noteq> []" "scan_pass now timeout heap d = (d', [], keep, forced)" "out = []"
  | (again) d1 out1 keep1 forced1 out2 forced2 where
      "scan_pass now timeout heap d = (d1, out1, keep1, forced1)" "out1 \<noteq> []"
      "scan_loop now timeout keep1 d1 = (d', out2, keep, forced2)"
      "out = out1 @ out2" "forced = forced1 + forced2"
proof (cases "heap = []")
  case True
  with assms show ?thesis by (intro empty) (simp_all add: scan_loop.simps)
next
  case False
  obtain d1 out1 keep1 forced1 where
    p: "scan_pass now timeout heap d = (d1, out1, keep1, forced1)" by (metis prod_cases4)
  obtain d2 out2 keep2 forced2 where
    l: "scan_loop now timeout keep1 d1 = (d2, out2, keep2, forced2)" by (metis prod_cases4)
  have eq: "(d', out, keep, forced) =
      (if out1 = [] then (d1, [], keep1, forced1)
       else (d2, out1 @ out2, keep2, forced1 + forced2))"
    using assms False p l by (simp add: scan_loop.simps [of now timeout heap d] split: if_splits)
  show ?thesis
  proof (cases "out1 = []")
    case True
    with eq p False show ?thesis by (intro still) simp_all
  next
    case out1: False
    with eq p l show ?thesis by (intro again [of d1 out1 keep1 forced1 out2 forced2]) simp_all
  qed
qed

lemma scan_loop_induct [consumes 1, case_names empty still again]:
  assumes "scan_loop now timeout heap d = (d', out, keep, forced)"
    and empty: "\<And>d. P [] d d [] [] 0"
    and still: "\<And>heap d d' keep forced.
      scan_pass now timeout heap d = (d', [], keep, forced) \<Longrightarrow> P heap d d' [] keep forced"
    and again: "\<And>heap d d1 out1 keep1 forced1 d' out2 keep forced2.
      scan_pass now timeout heap d = (d1, out1, keep1, forced1) \<Longrightarrow> out1 \<noteq> [] \<Longrightarrow>
      P keep1 d1 d' out2 keep forced2 \<Longrightarrow> P heap d d' (out1 @ out2) keep (forced1 + forced2)"
  shows "P heap d d' out keep forced"
  using assms(1)
proof (induction heap arbitrary: d d' out keep forced rule: length_induct)
  case (1 heap)
  from "1.prems" show ?case
  proof (cases rule: scan_loop_cases)
    case empty
    then show ?thesis using assms(2) by simp
  next
    case still
    then show ?thesis using assms(3) by simp
  next
    case (again d1 out1 keep1 forced1 out2 forced2)
    have "length keep1 < length heap"
      using scan_pass_progress again by blast
    with "1.IH" again have "P keep1 d1 d' out2 keep forced2" by blast
    with again show ?thesis using assms(4) by simp
  qed
qed

lemma scan_loop_conserve [conserve]:
  "scan_loop now timeout heap d = (d', out, keep, forced) \<Longrightarrow>
   mset out + mset (map item_event keep) = mset (map item_event heap)"
  by (induction rule: scan_loop_induct) (auto dest!: scan_pass_conserve simp: ac_simps)

lemma scan_loop_keep_subseq:
  "scan_loop now timeout heap d = (d', out, keep, forced) \<Longrightarrow> subseq keep heap"
  by (induction rule: scan_loop_induct)
     (auto dest!: scan_pass_keep_subseq intro: subseq_order.trans)

definition rb_inv :: "reorder_buffer \<Rightarrow> bool" where
  "rb_inv rb \<longleftrightarrow> is_heap item_key (rb_heap rb) \<and> distinct (map item_counter (rb_heap rb)) \<and>
     (\<forall>it\<in>set (rb_heap rb). item_counter it < rb_counter rb \<and> fst it = vc_sum (item_event it))"

lemma rb_inv_new: "rb_inv (new_reorder_buffer t)"
  by (simp add: rb_inv_def new_reorder_buffer_def heap_from_def)

lemma distinct_map_mset_eq: "mset xs = mset ys \<Longrightarrow> distinct (map f xs) = distinct (map f ys)"
  by (metis mset_eq_imp_distinct_iff mset_map)

lemma rb_inv_push: "rb_inv rb \<Longrightarrow> rb_inv (push now e rb)"
proof -
  assume inv: "rb_inv rb"
  let ?it = "(vc_sum e, rb_counter rb, now, e)"
  have "distinct (map item_counter (?it # rb_heap rb))"
    using inv by (auto simp: rb_inv_def)
  then have "distinct (map item_counter (heappush item_key ?it (rb_heap rb)))"
    by (subst distinct_map_mset_eq [of _ "?it # rb_heap rb"]) simp_all
  then show ?thesis
    using inv by (auto simp: rb_inv_def push_def heappush_heap less_SucI)
qed

lemma rb_inv_pop_ready: "rb_inv rb \<Longrightarrow> rb_inv (snd (pop_ready now rb))"
proof -
  assume inv: "rb_inv rb"
  obtain d out keep forced where
    s: "scan_loop now (rb_timeout rb) (rb_heap rb) (rb_delivered rb) = (d, out, keep, forced)"
    by (metis prod_cases4)
  have sub: "subseq keep (rb_heap rb)" using scan_loop_keep_subseq [OF s] .
  then have "distinct (map item_counter keep)"
    using inv subseqs_distinctD [of "map item_counter keep"] subseq_map [OF sub]
    by (auto simp: rb_inv_def)
  then have "distinct (map item_counter (heapify item_key keep))"
    by (subst distinct_map_mset_eq [of _ keep]) simp_all
  moreover have "set keep \<subseteq> set (rb_heap rb)"
    using sub by (rule subseq_set_mono)
  ultimately show ?thesis
    using inv by (auto simp: rb_inv_def pop_ready_def s heapify_heap)
qed

lemma pending_push [simp, conserve]: "pending (push now e rb) = add_mset e (pending rb)"
  by (simp add: pending_def push_def)

lemma pop_ready_conserve [conserve]:
  "pop_ready now rb = (out, rb') \<Longrightarrow> mset out + pending rb' = pending rb"
  by (auto simp: pop_ready_def pending_def dest!: scan_loop_conserve split: prod.splits)

interpretation reorder: event_buffer push pop_ready pending rb_inv
proof
  fix now rb out rb'
  assume "rb_inv rb" "pop_ready now rb = (out, rb')"
  then show "mset out + pending rb' = pending rb" "rb_inv rb'"
    using pop_ready_conserve rb_inv_pop_ready by (blast, metis snd_conv)
qed (auto intro: rb_inv_push)

section \<open>When \<open>pop_ready\<close> returns, nothing deliverable is left\<close>

lemma deliver_mono: "d k \<le> deliver e d k"
  unfolding deliver_def by (rule fun_register.raise_all_mono)

lemma deliver_single: "clocks e = [(n, s)] \<Longrightarrow> d n < s \<Longrightarrow> deliver e d = d(n := s)"
  by (simp add: deliver_def raise_all_def)

lemma scan_pass_idle:
  "scan_pass now timeout its d = (d', [], keep, forced) \<Longrightarrow>
   d' = d \<and> keep = its \<and> forced = 0 \<and>
   (\<forall>it\<in>set its. \<not> is_ready d (item_event it) \<and> now - item_arrival it < timeout)"
  by (induction its arbitrary: d' keep forced) (auto split: if_splits prod.splits)

lemma scan_loop_settled:
  "scan_loop now timeout heap d = (d', out, keep, forced) \<Longrightarrow>
   \<forall>it\<in>set keep. \<not> is_ready d' (item_event it) \<and> now - item_arrival it < timeout"
  by (induction rule: scan_loop_induct) (auto dest!: scan_pass_idle)

lemma pop_ready_heap:
  assumes "pop_ready now rb = (out, rb')"
  obtains out' keep forced where
    "scan_loop now (rb_timeout rb) (rb_heap rb) (rb_delivered rb)
       = (rb_delivered rb', out', keep, forced)"
    "out = sort_key vc_sum out'" "set (rb_heap rb') = set keep"
    "rb_forced rb' = rb_forced rb + forced" "rb_timeout rb' = rb_timeout rb"
  using assms by (force simp: pop_ready_def split: prod.splits)

section \<open>Streams with one clock entry per event\<close>

text \<open>
  Every producer stamps its events \<open>{node_id: seq}\<close>, one entry per event. On such a stream
  an event is named by its node and its sequence number.
\<close>

definition from_node :: "string \<Rightarrow> match_event \<Rightarrow> bool" where
  "from_node n e \<longleftrightarrow> n \<in> fst ` set (clocks e)"

definition fresh_stream :: "(string \<Rightarrow> int) \<Rightarrow> match_event list \<Rightarrow> bool" where
  "fresh_stream d es \<longleftrightarrow>
     list_all (\<lambda>e. case clocks e of [(n, s)] \<Rightarrow> d n < s | _ \<Rightarrow> False) es \<and>
     distinct (map clocks es)"

lemma fresh_stream_iff:
  "fresh_stream d es \<longleftrightarrow>
     (\<forall>e\<in>set es. \<exists>n s. clocks e = [(n, s)] \<and> d n < s) \<and> distinct (map clocks es)"
proof -
  have "(case c of [(n, s)] \<Rightarrow> d n < s | _ \<Rightarrow> False) \<longleftrightarrow> (\<exists>n s. c = [(n, s)] \<and> d n < s)"
    for c :: vector_clock
    by (cases c rule: remdups_adj.cases) (auto split: prod.splits)
  then show ?thesis by (simp add: fresh_stream_def list_all_iff)
qed

lemma fresh_stream_Cons:
  assumes "fresh_stream d (e # es)"
  obtains n s where "clocks e = [(n, s)]" "d n < s" "fresh_stream d es"
    "\<forall>e'\<in>set es. clocks e' \<noteq> [(n, s)]"
  using assms by (force simp: fresh_stream_iff)

lemma single_ready: "clocks e = [(n, s)] \<Longrightarrow> is_ready d e \<longleftrightarrow> s \<le> d n + 1"
  by (auto simp: is_ready_def)

lemma single_from_node: "clocks e = [(n, s)] \<Longrightarrow> from_node m e \<longleftrightarrow> m = n"
  by (auto simp: from_node_def)

lemma single_vc_sum: "clocks e = [(n, s)] \<Longrightarrow> vc_sum e = s"
  by (simp add: vc_sum_def)

lemmas single_simps = single_ready single_from_node single_vc_sum

lemma fresh_stream_advance:
  assumes "fresh_stream d es" "\<forall>e'\<in>set es. clocks e' \<noteq> [(n, d n + 1)]"
  shows "fresh_stream (d(n := d n + 1)) es"
  unfolding fresh_stream_iff
proof (intro conjI ballI)
  fix e
  assume e: "e \<in> set es"
  then obtain m s where m: "clocks e = [(m, s)]" "d m < s"
    using assms(1) by (auto simp: fresh_stream_iff)
  then have "(d(n := d n + 1)) m < s"
    using assms(2) e by (cases "m = n") force+
  with m show "\<exists>m s. clocks e = [(m, s)] \<and> (d(n := d n + 1)) m < s" by blast
qed (use assms(1) in \<open>simp add: fresh_stream_iff\<close>)

lemma undelivered_above:
  assumes pass: "scan_pass now timeout its d = (d', out, keep, forced)"
    and fresh: "fresh_stream d (map item_event its)"
    and run: "map vc_sum (filter (from_node m) out) = [d m + 1 .. d' m]"
    and s: "d m < s" "\<forall>e\<in>set (map item_event its). clocks e \<noteq> [(m, s)]"
  shows "d' m < s"
proof (rule ccontr)
  assume "\<not> d' m < s"
  then have "s \<in> set [d m + 1 .. d' m]" using s(1) by simp
  then have "s \<in> vc_sum ` set (filter (from_node m) out)"
    using run by (metis set_map)
  then obtain e where e: "e \<in> set out" "from_node m e" "vc_sum e = s" by auto
  then have ei: "e \<in> set (map item_event its)"
    using scan_pass_out_set [OF pass] by auto
  then obtain n' s' where "clocks e = [(n', s')]"
    using fresh by (auto simp: fresh_stream_iff)
  with e have "clocks e = [(m, s)]" by (simp add: single_simps)
  with s(2) ei show False by blast
qed

text \<open>
  One pass over a fresh stream with nothing timed out: per node it outputs the next
  contiguous run of sequence numbers and moves that node's watermark to its end.
\<close>

lemma scan_pass_contiguous:
  assumes "scan_pass now timeout its d = (d', out, keep, forced)"
    and "fresh_stream d (map item_event its)"
    and "\<forall>it\<in>set its. now - item_arrival it < timeout"
  shows "map vc_sum (filter (from_node n) out) = [d n + 1 .. d' n] \<and> d n \<le> d' n
    \<and> fresh_stream d' (map item_event keep) \<and> forced = 0
    \<and> set keep \<subseteq> set its"
  using assms
proof (induction its arbitrary: d d' out keep forced n)
  case Nil
  then show ?case by (simp add: fresh_stream_iff)
next
  case (Cons it its)
  obtain m s where m: "clocks (item_event it) = [(m, s)]" "d m < s"
      "fresh_stream d (map item_event its)"
      "\<forall>e'\<in>set (map item_event its). clocks e' \<noteq> [(m, s)]"
    using Cons.prems(2) by (auto elim: fresh_stream_Cons)
  show ?case
  proof (cases "s \<le> d m + 1")
    case True
    then have s: "s = d m + 1" using m by simp
    let ?d = "d(m := d m + 1)"
    obtain out1 where r: "scan_pass now timeout its ?d = (d', out1, keep, forced)"
      and o: "out = item_event it # out1"
      using Cons.prems(1) m s True by (auto simp: single_ready deliver_single split: prod.splits)
    have IH: "map vc_sum (filter (from_node n) out1) = [?d n + 1 .. d' n]" "?d n \<le> d' n"
      "fresh_stream d' (map item_event keep)" "forced = 0" "set keep \<subseteq> set its"
      using Cons.IH [OF r fresh_stream_advance] m s Cons.prems(3) by auto
    show ?thesis
    proof (cases "n = m")
      case True
      then have "[d n + 1 .. d' n] = (d n + 1) # [?d n + 1 .. d' n]"
        using IH(2) by (simp add: upto_rec1)
      with True IH m s o show ?thesis by (auto simp: single_simps)
    next
      case False
      with IH m s o show ?thesis by (auto simp: single_simps)
    qed
  next
    case False
    obtain keep1 where r: "scan_pass now timeout its d = (d', out, keep1, forced)"
      and k: "keep = it # keep1"
      using Cons.prems(1,3) m False by (auto simp: single_ready split: prod.splits if_splits)
    have IH: "map vc_sum (filter (from_node n) out) = [d n + 1 .. d' n]" "d n \<le> d' n"
      "fresh_stream d' (map item_event keep1)" "forced = 0" "set keep1 \<subseteq> set its" for n
      using Cons.IH [OF r m(3), of n] Cons.prems(3) by auto
    have "d' m < s" using undelivered_above [OF r m(3) IH(1) m(2,4)] .
    moreover have "clocks (item_event it) \<notin> clocks ` set (map item_event keep1)"
    proof -
      have "set (map item_event keep1) \<subseteq> set (map item_event its)"
        using IH(5) by (simp add: image_mono)
      with m(4) have "\<forall>e\<in>set (map item_event keep1). clocks e \<noteq> [(m, s)]" by blast
      then have "[(m, s)] \<notin> clocks ` set (map item_event keep1)" by (auto simp only: image_iff)
      then show ?thesis by (simp only: m(1) not_False_eq_True)
    qed
    ultimately have "fresh_stream d' (map item_event keep)"
      using IH(3) m k by (auto simp: fresh_stream_iff)
    with IH k show ?thesis by auto
  qed
qed

lemma upto_join: "(a::int) \<le> b \<Longrightarrow> b \<le> c \<Longrightarrow> [a + 1 .. c] = [a + 1 .. b] @ [b + 1 .. c]"
  by (cases "a = b") (auto intro: upto_split2)

lemma scan_loop_contiguous:
  assumes "scan_loop now timeout heap d = (d', out, keep, forced)"
    and "fresh_stream d (map item_event heap)"
    and "\<forall>it\<in>set heap. now - item_arrival it < timeout"
  shows "map vc_sum (filter (from_node n) out) = [d n + 1 .. d' n] \<and> d n \<le> d' n
    \<and> fresh_stream d' (map item_event keep) \<and> forced = 0"
  using assms
proof (induction rule: scan_loop_induct)
  case (empty d)
  then show ?case by simp
next
  case (still heap d d' keep forced)
  from scan_pass_contiguous [OF this, of n] show ?case by simp
next
  case (again heap d d1 out1 keep1 forced1 d' out2 keep forced2)
  have one: "map vc_sum (filter (from_node n) out1) = [d n + 1 .. d1 n]" "d n \<le> d1 n"
    "fresh_stream d1 (map item_event keep1)" "forced1 = 0" "set keep1 \<subseteq> set heap"
    using scan_pass_contiguous [OF again(1,4,5), of n] by auto
  then have two: "map vc_sum (filter (from_node n) out2) = [d1 n + 1 .. d' n]" "d1 n \<le> d' n"
    "fresh_stream d' (map item_event keep)" "forced2 = 0"
    using again(3,5) by auto
  have "[d n + 1 .. d' n] = [d n + 1 .. d1 n] @ [d1 n + 1 .. d' n]"
    using one(2) two(2) by (rule upto_join)
  with one two show ?case by simp
qed

section \<open>Clock order and sums\<close>

definition clock_le :: "vector_clock \<Rightarrow> vector_clock \<Rightarrow> bool" where
  "clock_le c c' \<longleftrightarrow> list_all (\<lambda>(n, s). s \<le> dict_get c' n 0) c \<and>
     list_all (\<lambda>(n, s). dict_get c n 0 \<le> s) c'"

definition happens_before :: "match_event \<Rightarrow> match_event \<Rightarrow> bool" where
  "happens_before e e' \<longleftrightarrow> clock_le (clocks e) (clocks e') \<and> \<not> clock_le (clocks e') (clocks e)"

lemma clock_le_get:
  assumes "wf_clock c" "wf_clock c'" "clock_le c c'"
  shows "dict_get c n 0 \<le> dict_get c' n 0"
proof (cases "map_of c n")
  case (Some s)
  then have "(n, s) \<in> set c" by (rule map_of_SomeD)
  with Some assms(3) show ?thesis
    by (auto simp: clock_le_def list_all_iff dict_get_def [of c])
next
  case None
  show ?thesis
  proof (cases "map_of c' n")
    case (Some s)
    then have "(n, s) \<in> set c'" by (rule map_of_SomeD)
    with Some assms(3) show ?thesis
      by (auto simp: clock_le_def list_all_iff dict_get_def [of c'])
  next
    case None': None
    with None show ?thesis by (simp add: dict_get_def)
  qed
qed

lemma clock_sum_over:
  assumes "wf_clock c" "finite K" "fst ` set c \<subseteq> K"
  shows "sum_list (map snd c) = (\<Sum>n\<in>K. dict_get c n 0)"
proof -
  have "sum_list (map snd c) = (\<Sum>p\<in>set c. snd p)"
    using assms(1) by (simp add: wf_clock_def sum_list_distinct_conv_sum_set distinct_map)
  also have "\<dots> = (\<Sum>p\<in>set c. dict_get c (fst p) 0)"
    using assms(1) by (intro sum.cong) (auto simp: wf_clock_def dict_get_eq_of_mem)
  also have "\<dots> = (\<Sum>n\<in>fst ` set c. dict_get c n 0)"
    using assms(1) by (subst sum.reindex) (auto simp: wf_clock_def distinct_map)
  also have "\<dots> = (\<Sum>n\<in>K. dict_get c n 0)"
    by (rule sum.mono_neutral_left) (use assms in \<open>auto intro: dict_get_absent\<close>)
  finally show ?thesis .
qed

lemma happens_before_vc_sum:
  assumes wf: "wf_clock (clocks e)" "wf_clock (clocks e')" and hb: "happens_before e e'"
  shows "vc_sum e < vc_sum e'"
proof -
  let ?K = "fst ` set (clocks e) \<union> fst ` set (clocks e')"
  have le: "dict_get (clocks e) n 0 \<le> dict_get (clocks e') n 0" for n
    using clock_le_get wf hb by (simp add: happens_before_def)
  have "\<exists>n\<in>?K. dict_get (clocks e) n 0 < dict_get (clocks e') n 0"
  proof (rule ccontr)
    assume "\<not> ?thesis"
    then have eq: "dict_get (clocks e) n 0 = dict_get (clocks e') n 0" if "n \<in> ?K" for n
      using le that by (meson order.antisym not_less)
    have "clock_le (clocks e') (clocks e)"
      unfolding clock_le_def list_all_iff
    proof (intro conjI ballI; clarsimp)
      fix n s
      assume "(n, s) \<in> set (clocks e')"
      then show "s \<le> dict_get (clocks e) n 0"
        using eq [of n] wf dict_get_eq_of_mem [of "clocks e'" n s 0]
        by (force simp: wf_clock_def)
    next
      fix n s
      assume "(n, s) \<in> set (clocks e)"
      then show "dict_get (clocks e') n 0 \<le> s"
        using eq [of n] wf dict_get_eq_of_mem [of "clocks e" n s 0]
        by (force simp: wf_clock_def)
    qed
    with hb show False by (simp add: happens_before_def)
  qed
  then have "(\<Sum>n\<in>?K. dict_get (clocks e) n 0) < (\<Sum>n\<in>?K. dict_get (clocks e') n 0)"
    by (intro sum_strict_mono_ex1) (auto simp: le)
  then show ?thesis
    using wf clock_sum_over [of "clocks e" ?K] clock_sum_over [of "clocks e'" ?K]
    by (simp add: vc_sum_def)
qed

section \<open>Properties\<close>

text \<open>The events and the calls the witnesses run: sequence numbers 4, 1, 2 of one node.\<close>

definition sample_event :: "string \<Rightarrow> int \<Rightarrow> match_event" where
  "sample_event node seq = \<lparr>match_id = node, region = ''NA'', patch = ''14.3'', tier = ''GOLD'',
     players = [], clocks = [(node, seq)], timestamp = 0\<rparr>"

definition sample_ops :: "(py_float, match_event) buf_op list" where
  "sample_ops = [Put 0 (sample_event ''n1'' 4), Put 0 (sample_event ''n1'' 1),
     Put 0 (sample_event ''n1'' 2), Take 1]"

definition sample_buffer :: reorder_buffer where
  "sample_buffer = push 0 (sample_event ''n1'' 2) (push 0 (sample_event ''n1'' 1)
     (push 0 (sample_event ''n1'' 4) (new_reorder_buffer 30)))"

text \<open>
  C3. No event is lost and none is duplicated. Run any sequence of \<open>push\<close> and \<open>pop_ready\<close>
  calls on a fresh reorder buffer, at any times: the events returned so far together with the
  events still buffered are, as a multiset, exactly the events pushed.
\<close>

theorem reorder_conserves:
  assumes "buf_run push pop_ready ops (new_reorder_buffer timeout) = (outs, rb)"
  shows "mset outs + pending rb = put_events ops"
  using reorder.run_conserves [OF rb_inv_new assms]
  by (simp add: pending_def new_reorder_buffer_def)

theorem reorder_conserves_witness:
  "mset (fst (buf_run push pop_ready sample_ops (new_reorder_buffer 30)))
     + pending (snd (buf_run push pop_ready sample_ops (new_reorder_buffer 30)))
   = put_events sample_ops
   \<and> map vc_sum (fst (buf_run push pop_ready sample_ops (new_reorder_buffer 30))) = [1, 2]"
proof -
  have "map vc_sum (fst (buf_run push pop_ready sample_ops (new_reorder_buffer 30))) = [1, 2]"
    by code_simp
  with reorder_conserves [OF surjective_pairing, of sample_ops 30] show ?thesis by blast
qed

text \<open>
  The buffer's heap is well formed at every moment: it satisfies the heap order of
  \<open>heapq\<close>, and no two stored tuples share a counter, so comparing two of them is decided by
  the clock sum and the counter and never reaches the event objects (which Python cannot
  order).
\<close>

theorem reorder_heap_wellformed:
  assumes "buf_run push pop_ready ops (new_reorder_buffer timeout) = (outs, rb)"
  shows "is_heap item_key (rb_heap rb) \<and> distinct (map item_counter (rb_heap rb))"
  using reorder.run_inv [OF rb_inv_new assms] by (simp add: rb_inv_def)

theorem reorder_heap_wellformed_witness:
  "is_heap item_key (rb_heap (snd (buf_run push pop_ready sample_ops (new_reorder_buffer 30))))
   \<and> map item_counter (rb_heap (snd (buf_run push pop_ready sample_ops (new_reorder_buffer 30)))) = [0]"
proof -
  have "map item_counter
      (rb_heap (snd (buf_run push pop_ready sample_ops (new_reorder_buffer 30)))) = [0]"
    by code_simp
  with reorder_heap_wellformed [OF surjective_pairing, of sample_ops 30] show ?thesis by blast
qed

text \<open>
  C12. \<open>pop_ready\<close> leaves nothing deliverable behind: every event it keeps still misses a
  predecessor under the new watermarks and has waited less than the timeout. So an event that
  has waited for the timeout is always released.
\<close>

theorem pop_ready_settled:
  assumes "pop_ready now rb = (out, rb')" "it \<in> set (rb_heap rb')"
  shows "\<not> is_ready (rb_delivered rb') (item_event it) \<and> now - item_arrival it < rb_timeout rb"
proof -
  obtain out' keep forced where
    "scan_loop now (rb_timeout rb) (rb_heap rb) (rb_delivered rb)
       = (rb_delivered rb', out', keep, forced)" "set (rb_heap rb') = set keep"
    using pop_ready_heap [OF assms(1)] by metis
  from scan_loop_settled [OF this(1)] this(2) assms(2) show ?thesis by simp
qed

theorem pop_ready_settled_witness:
  "(4, 0, 0, sample_event ''n1'' 4) \<in> set (rb_heap (snd (pop_ready 1 sample_buffer)))
   \<and> \<not> is_ready (rb_delivered (snd (pop_ready 1 sample_buffer))) (sample_event ''n1'' 4)
   \<and> 1 - 0 < rb_timeout sample_buffer"
proof -
  have mem: "(4, 0, 0, sample_event ''n1'' 4) \<in> set (rb_heap (snd (pop_ready 1 sample_buffer)))"
    by code_simp
  from pop_ready_settled [OF surjective_pairing mem] mem show ?thesis by simp
qed

text \<open>
  C4. In-order, gap-free delivery. For events stamped \<open>{node: seq}\<close> that are all new to the
  buffer, with nothing timed out, \<open>pop_ready\<close> returns for every node exactly the next
  contiguous run of its sequence numbers, in increasing order, from just above the old
  watermark up to the new one; what it keeps of that node starts beyond a gap; and nothing is
  force-released.
\<close>

theorem pop_ready_contiguous:
  assumes pop: "pop_ready now rb = (out, rb')"
    and fresh: "fresh_stream (rb_delivered rb) (map item_event (rb_heap rb))"
    and young: "\<forall>it\<in>set (rb_heap rb). now - item_arrival it < rb_timeout rb"
  shows "map vc_sum (filter (from_node n) out) = [rb_delivered rb n + 1 .. rb_delivered rb' n]
    \<and> (\<forall>it\<in>set (rb_heap rb'). from_node n (item_event it) \<longrightarrow>
          vc_sum (item_event it) > rb_delivered rb' n + 1)
    \<and> rb_forced rb' = rb_forced rb"
proof -
  obtain out' keep forced where
    loop: "scan_loop now (rb_timeout rb) (rb_heap rb) (rb_delivered rb)
       = (rb_delivered rb', out', keep, forced)"
    and r: "out = sort_key vc_sum out'" "set (rb_heap rb') = set keep"
      "rb_forced rb' = rb_forced rb + forced"
    using pop_ready_heap [OF pop] by metis
  have c: "map vc_sum (filter (from_node n) out') = [rb_delivered rb n + 1 .. rb_delivered rb' n]"
    "fresh_stream (rb_delivered rb') (map item_event keep)" "forced = 0"
    using scan_loop_contiguous [OF loop fresh young, of n] by auto
  have "filter (from_node n) out = filter (from_node n) out'"
    by (simp add: r(1) filter_sort sort_key_id_if_sorted c(1))
  moreover have "vc_sum (item_event it) > rb_delivered rb' n + 1"
    if it: "it \<in> set (rb_heap rb')" "from_node n (item_event it)" for it
  proof -
    obtain m s where m: "clocks (item_event it) = [(m, s)]"
      using c(2) it(1) r(2) by (auto simp: fresh_stream_iff)
    moreover have "\<not> is_ready (rb_delivered rb') (item_event it)"
      using scan_loop_settled [OF loop] it(1) r(2) by blast
    ultimately show ?thesis using it(2) by (simp add: single_simps)
  qed
  ultimately show ?thesis using c r by auto
qed

theorem pop_ready_contiguous_witness:
  "map vc_sum (filter (from_node ''n1'') (fst (pop_ready 1 sample_buffer)))
     = [0 + 1 .. rb_delivered (snd (pop_ready 1 sample_buffer)) ''n1'']
   \<and> rb_delivered (snd (pop_ready 1 sample_buffer)) ''n1'' = 2"
proof -
  have fresh: "fresh_stream (rb_delivered sample_buffer) (map item_event (rb_heap sample_buffer))"
    by code_simp
  have young: "\<forall>it\<in>set (rb_heap sample_buffer). 1 - item_arrival it < rb_timeout sample_buffer"
    by code_simp
  have z: "rb_delivered sample_buffer ''n1'' = 0"
    "rb_delivered (snd (pop_ready 1 sample_buffer)) ''n1'' = 2"
    by code_simp+
  from pop_ready_contiguous [OF surjective_pairing fresh young, of "''n1''"] z
  show ?thesis by simp
qed

text \<open>
  C13. The list \<open>pop_ready\<close> returns never inverts causality: if one event's vector clock is
  strictly below another's, it comes first. The clocks may have any number of entries.
\<close>

theorem pop_ready_causal:
  assumes "pop_ready now rb = (out, rb')" "i < length out" "j < length out"
    and "wf_clock (clocks (out ! i))" "wf_clock (clocks (out ! j))"
    and "happens_before (out ! i) (out ! j)"
  shows "i < j"
proof (rule ccontr)
  assume "\<not> i < j"
  moreover have "sorted (map vc_sum out)"
    using assms(1) by (auto simp: pop_ready_def split: prod.splits)
  ultimately have "map vc_sum out ! j \<le> map vc_sum out ! i"
    using assms(2,3) by (intro sorted_nth_mono) auto
  with happens_before_vc_sum [OF assms(4-6)] assms(2,3) show False by simp
qed

theorem pop_ready_causal_witness:
  "fst (pop_ready 1 sample_buffer) = [sample_event ''n1'' 1, sample_event ''n1'' 2]
   \<and> happens_before (sample_event ''n1'' 1) (sample_event ''n1'' 2) \<and> (0::nat) < 1"
proof -
  have out: "fst (pop_ready 1 sample_buffer) = [sample_event ''n1'' 1, sample_event ''n1'' 2]"
    by code_simp
  have hb: "happens_before (sample_event ''n1'' 1) (sample_event ''n1'' 2)"
    "wf_clock (clocks (sample_event ''n1'' 1))" "wf_clock (clocks (sample_event ''n1'' 2))"
    by code_simp+
  have "(0::nat) < 1"
    by (rule pop_ready_causal [OF surjective_pairing, of _ 1 sample_buffer]) (simp_all add: out hb)
  with out hb show ?thesis by simp
qed

end
