(* ===== verification/Tft_Data.thy ===== *)
theory Tft_Data
  imports Proto
begin

text \<open>
  The static Set 17 reference tables of \<open>common/tft_data.py\<close> that the services read: the
  champion roster with costs and traits, the item pool, the named compositions, the rank
  ladder, the routing tables, the champion roles and ranges, and the seeds of the synthetic
  generator. A Python list is a list, a dict an insertion-ordered \<open>dict\<close>. The augment
  catalogue is in \<open>Tft_Augments\<close>. The icon URLs and the builder tables are display data and
  are not modelled.
\<close>

section \<open>Tables\<close>

definition CHAMPIONS :: "(string \<times> int \<times> string list) list" where
  "CHAMPIONS = [
    (''TFT17_Aatrox'', 1, [''N.O.V.A.'', ''Bastion'']),
    (''TFT17_Briar'', 1, [''Anima'', ''Primordian'', ''Rogue'']),
    (''TFT17_Caitlyn'', 1, [''N.O.V.A.'', ''Fateweaver'']),
    (''TFT17_Chogath'', 1, [''Dark Star'', ''Brawler'']),
    (''TFT17_Ezreal'', 1, [''Timebreaker'', ''Sniper'']),
    (''TFT17_Leona'', 1, [''Arbiter'', ''Vanguard'']),
    (''TFT17_Lissandra'', 1, [''Dark Star'', ''Shepherd'', ''Replicator'']),
    (''TFT17_Nasus'', 1, [''Space Groove'', ''Vanguard'']),
    (''TFT17_Poppy'', 1, [''Meeple'', ''Bastion'']),
    (''TFT17_RekSai'', 1, [''Primordian'', ''Brawler'']),
    (''TFT17_Talon'', 1, [''Stargazer'', ''Rogue'']),
    (''TFT17_Teemo'', 1, [''Space Groove'', ''Shepherd'']),
    (''TFT17_TwistedFate'', 1, [''Stargazer'', ''Fateweaver'']),
    (''TFT17_Veigar'', 1, [''Meeple'', ''Replicator'']),
    (''TFT17_Akali'', 2, [''N.O.V.A.'', ''Marauder'']),
    (''TFT17_Belveth'', 2, [''Primordian'', ''Challenger'', ''Marauder'']),
    (''TFT17_Gnar'', 2, [''Meeple'', ''Sniper'']),
    (''TFT17_Gragas'', 2, [''Psionic'', ''Brawler'']),
    (''TFT17_Gwen'', 2, [''Space Groove'', ''Rogue'']),
    (''TFT17_Jax'', 2, [''Stargazer'', ''Bastion'']),
    (''TFT17_Jinx'', 2, [''Anima'', ''Challenger'']),
    (''TFT17_IvernMinion'', 2, [''Meeple'', ''Shepherd'', ''Voyager'']),
    (''TFT17_Milio'', 2, [''Timebreaker'', ''Fateweaver'']),
    (''TFT17_Mordekaiser'', 2, [''Dark Star'', ''Conduit'', ''Vanguard'']),
    (''TFT17_Pantheon'', 2, [''Timebreaker'', ''Brawler'', ''Replicator'']),
    (''TFT17_Pyke'', 2, [''Psionic'', ''Voyager'']),
    (''TFT17_Zoe'', 2, [''Arbiter'', ''Conduit'']),
    (''TFT17_Aurora'', 3, [''Anima'', ''Voyager'']),
    (''TFT17_Diana'', 3, [''Arbiter'', ''Challenger'']),
    (''TFT17_Fizz'', 3, [''Meeple'', ''Rogue'']),
    (''TFT17_Illaoi'', 3, [''Anima'', ''Vanguard'', ''Shepherd'']),
    (''TFT17_Kaisa'', 3, [''Dark Star'', ''Rogue'']),
    (''TFT17_Lulu'', 3, [''Stargazer'', ''Replicator'']),
    (''TFT17_Maokai'', 3, [''N.O.V.A.'', ''Brawler'']),
    (''TFT17_MissFortune'', 3, [''Gun Goddess'', ''Choose Trait'']),
    (''TFT17_Ornn'', 3, [''Space Groove'', ''Bastion'']),
    (''TFT17_Rhaast'', 3, [''Redeemer'']),
    (''TFT17_Samira'', 3, [''Space Groove'', ''Sniper'']),
    (''TFT17_Urgot'', 3, [''Mecha'', ''Brawler'', ''Marauder'']),
    (''TFT17_Viktor'', 3, [''Psionic'', ''Conduit'']),
    (''TFT17_AurelionSol'', 4, [''Mecha'', ''Conduit'']),
    (''TFT17_Corki'', 4, [''Meeple'', ''Fateweaver'']),
    (''TFT17_Karma'', 4, [''Dark Star'', ''Voyager'']),
    (''TFT17_Kindred'', 4, [''N.O.V.A.'', ''Challenger'']),
    (''TFT17_Leblanc'', 4, [''Arbiter'', ''Shepherd'']),
    (''TFT17_MasterYi'', 4, [''Psionic'', ''Marauder'']),
    (''TFT17_Morgana'', 4, [''Dark Lady'']),
    (''TFT17_Nami'', 4, [''Space Groove'', ''Replicator'']),
    (''TFT17_Nunu'', 4, [''Stargazer'', ''Vanguard'']),
    (''TFT17_Rammus'', 4, [''Meeple'', ''Bastion'']),
    (''TFT17_Riven'', 4, [''Timebreaker'', ''Rogue'']),
    (''TFT17_TahmKench'', 4, [''Oracle'', ''Brawler'']),
    (''TFT17_Galio'', 4, [''Mecha'', ''Voyager'']),
    (''TFT17_Xayah'', 4, [''Stargazer'', ''Sniper'']),
    (''TFT17_Bard'', 5, [''Meeple'', ''Conduit'']),
    (''TFT17_Blitzcrank'', 5, [''Party Animal'', ''Space Groove'', ''Vanguard'']),
    (''TFT17_Fiora'', 5, [''Divine Duelist'', ''Anima'', ''Marauder'']),
    (''TFT17_Graves'', 5, [''Factory New'']),
    (''TFT17_Jhin'', 5, [''Dark Star'', ''Eradicator'', ''Sniper'']),
    (''TFT17_Shen'', 5, [''Bulwark'', ''Bastion'']),
    (''TFT17_Sona'', 5, [''Commander'', ''Psionic'', ''Shepherd'']),
    (''TFT17_Vex'', 5, [''Doomer'']),
    (''TFT17_Zed'', 5, [''Galaxy Hunter''])]"

definition ITEMS :: "string list" where
  "ITEMS = [
    ''TFT_Item_AdaptiveHelm'', ''TFT_Item_ArchangelsStaff'',
    ''TFT_Item_Bloodthirster'', ''TFT_Item_BlueBuff'',
    ''TFT_Item_BrambleVest'', ''TFT_Item_Crownguard'',
    ''TFT_Item_Deathblade'', ''TFT_Item_CorruptedDeathblade'',
    ''TFT_Item_DragonsClaw'', ''TFT_Item_GuardianAngel'',
    ''TFT_Item_SpectralGauntlet'', ''TFT_Item_GargoyleStoneplate'',
    ''TFT_Item_CorruptedGargoyleStoneplate'', ''TFT_Item_MadredsBloodrazor'',
    ''TFT_Item_GuinsoosRageblade'', ''TFT_Item_CorruptedGuinsoosRageblade'',
    ''TFT_Item_UnstableConcoction'', ''TFT_Item_CorruptedHandOfJustice'',
    ''TFT_Item_HextechGunblade'', ''TFT_Item_InfinityEdge'',
    ''TFT_Item_CorruptedInfinityEdge'', ''TFT_Item_IonicSpark'',
    ''TFT_Item_JeweledGauntlet'', ''TFT_Item_CorruptedJeweledGauntlet'',
    ''TFT_Item_RunaansHurricane'', ''TFT_Item_LastWhisper'',
    ''TFT_Item_Morellonomicon'', ''TFT_Item_Leviathan'',
    ''TFT_Item_FrozenHeart'', ''TFT_Item_Quicksilver'',
    ''TFT_Item_RabadonsDeathcap'', ''TFT_Item_CorruptedRabadonsDeathcap'',
    ''TFT_Item_RapidFireCannon'', ''TFT_Item_SpearOfShojin'',
    ''TFT_Item_CorruptedSpearOfShojin'', ''TFT_Item_Redemption'',
    ''TFT_Item_CorruptedRedemption'', ''TFT_Item_NightHarvester'',
    ''TFT_Item_SteraksGage'', ''TFT_Item_PowerGauntlet'',
    ''TFT_Item_RedBuff'', ''TFT_Item_TacticiansRing'',
    ''TFT_Item_ForceOfNature'', ''TFT_Item_TacticiansScepter'',
    ''TFT_Item_ThiefsGloves'', ''TFT_Item_TitansResolve'',
    ''TFT_Item_StatikkShiv'', ''TFT_Item_WarmogsArmor'',
    ''TFT_Item_CorruptedWarmogsArmor'', ''TFT_Item_CursedBlade'',
    ''TFT_Item_HextechChestguard'']"

definition COMPOSITIONS :: "string list" where
  "COMPOSITIONS = [
    ''SpaceGroove_Vanguard'', ''Bastion_Meeple'', ''Bastion_N.O.V.A.'',
    ''Anima_Primordian'', ''Anima_Rogue'', ''Primordian_Rogue'',
    ''Fateweaver_N.O.V.A.'', ''Brawler_DarkStar'', ''Sniper_Timebreaker'',
    ''Arbiter_Vanguard'', ''DarkStar_Replicator'', ''DarkStar_Shepherd'']"

definition TIERS :: "string list" where
  "TIERS = [
    ''IRON'', ''BRONZE'', ''SILVER'', ''GOLD'', ''PLATINUM'',
    ''DIAMOND'', ''MASTER'', ''GRANDMASTER'', ''CHALLENGER'']"

definition TIER_RANK :: "(string, int) dict" where
  "TIER_RANK = zip (rev TIERS) (map int [0..<length TIERS])"

definition REGIONS :: "string list" where
  "REGIONS = [''NA'', ''EUW'', ''KR'', ''BR'']"

definition REGION_PLATFORM :: "(string, string) dict" where
  "REGION_PLATFORM = [(''NA'', ''na1''), (''EUW'', ''euw1''), (''KR'', ''kr''), (''BR'', ''br1'')]"

definition REGION_CLUSTER :: "(string, string) dict" where
  "REGION_CLUSTER = [(''NA'', ''americas''), (''EUW'', ''europe''), (''KR'', ''asia''), (''BR'', ''americas'')]"

definition CHAMPION_IDS :: "string list" where
  "CHAMPION_IDS = map fst CHAMPIONS"

definition CHAMPION_COST :: "(string, int) dict" where
  "CHAMPION_COST = map (\<lambda>(cid, cost, _). (cid, cost)) CHAMPIONS"

definition CHAMPION_TRAITS :: "(string, string list) dict" where
  "CHAMPION_TRAITS = map (\<lambda>(cid, _, traits). (cid, traits)) CHAMPIONS"

definition TRAITS :: "string list" where
  "TRAITS = sort (remdups (concat (map (\<lambda>(_, _, traits). traits) CHAMPIONS)))"

definition TFT_SET :: string where
  "TFT_SET = ''Set17''"

definition SET_NAME :: string where
  "SET_NAME = ''TFT Set 17''"

definition DEFAULT_PATCH :: string where
  "DEFAULT_PATCH = ''17.3''"

definition TRAP_AUGMENT :: string where
  "TRAP_AUGMENT = ''TFT10_Augment_CrashTestDummies''"

definition PATCHES :: "string list" where
  "PATCHES = [''17.1'', ''17.2'', ''17.3'']"

definition HIGH_ELO_FAVORITES :: "string list" where
  "HIGH_ELO_FAVORITES = [
    ''TFT17_AurelionSol'', ''TFT17_Corki'', ''TFT17_Karma'', ''TFT17_Kindred'',
    ''TFT17_Leblanc'', ''TFT17_MasterYi'', ''TFT17_Morgana'', ''TFT17_Nami'']"

record comp =
  comp_id :: string
  comp_name :: string
  comp_carry :: "string option"
  comp_level :: int
  comp_units :: "string list"

definition COMPS :: "comp list" where
  "COMPS = [
    \<lparr>comp_id = ''TFT17_Bard'', comp_name = ''Bard'', comp_carry = Some ''TFT17_Bard'', comp_level = 9,
      comp_units = [''TFT17_Bard'', ''TFT17_AurelionSol'', ''TFT17_Corki'', ''TFT17_Rammus'',
        ''TFT17_Fizz'', ''TFT17_Viktor'', ''TFT17_Gnar'', ''TFT17_IvernMinion'',
        ''TFT17_Mordekaiser'']\<rparr>,
    \<lparr>comp_id = ''TFT17_Blitzcrank'', comp_name = ''Blitzcrank'', comp_carry = Some ''TFT17_Blitzcrank'', comp_level = 9,
      comp_units = [''TFT17_Blitzcrank'', ''TFT17_Nami'', ''TFT17_Nunu'', ''TFT17_Illaoi'',
        ''TFT17_Ornn'', ''TFT17_Samira'', ''TFT17_Gwen'', ''TFT17_Mordekaiser'',
        ''TFT17_Leona'']\<rparr>,
    \<lparr>comp_id = ''TFT17_Fiora'', comp_name = ''Fiora'', comp_carry = Some ''TFT17_Fiora'', comp_level = 9,
      comp_units = [''TFT17_Fiora'', ''TFT17_MasterYi'', ''TFT17_Aurora'', ''TFT17_Illaoi'',
        ''TFT17_Urgot'', ''TFT17_Akali'', ''TFT17_Belveth'', ''TFT17_Jinx'',
        ''TFT17_Briar'']\<rparr>,
    \<lparr>comp_id = ''TFT17_Graves'', comp_name = ''Graves'', comp_carry = Some ''TFT17_Graves'', comp_level = 9,
      comp_units = [''TFT17_Graves'', ''TFT17_Aatrox'', ''TFT17_Briar'', ''TFT17_Caitlyn'',
        ''TFT17_Chogath'', ''TFT17_Ezreal'', ''TFT17_Leona'', ''TFT17_Lissandra'',
        ''TFT17_Nasus'']\<rparr>,
    \<lparr>comp_id = ''TFT17_Jhin'', comp_name = ''Jhin'', comp_carry = Some ''TFT17_Jhin'', comp_level = 9,
      comp_units = [''TFT17_Jhin'', ''TFT17_Karma'', ''TFT17_Xayah'', ''TFT17_Kaisa'',
        ''TFT17_Samira'', ''TFT17_Gnar'', ''TFT17_Mordekaiser'', ''TFT17_Chogath'',
        ''TFT17_Ezreal'']\<rparr>,
    \<lparr>comp_id = ''TFT17_Shen'', comp_name = ''Shen'', comp_carry = Some ''TFT17_Shen'', comp_level = 9,
      comp_units = [''TFT17_Shen'', ''TFT17_Rammus'', ''TFT17_Ornn'', ''TFT17_Jax'',
        ''TFT17_Aatrox'', ''TFT17_Poppy'', ''TFT17_Briar'', ''TFT17_Caitlyn'',
        ''TFT17_Chogath'']\<rparr>,
    \<lparr>comp_id = ''TFT17_Sona'', comp_name = ''Sona'', comp_carry = Some ''TFT17_Sona'', comp_level = 9,
      comp_units = [''TFT17_Sona'', ''TFT17_Leblanc'', ''TFT17_MasterYi'', ''TFT17_Illaoi'',
        ''TFT17_Viktor'', ''TFT17_Gragas'', ''TFT17_IvernMinion'', ''TFT17_Pyke'',
        ''TFT17_Lissandra'']\<rparr>,
    \<lparr>comp_id = ''TFT17_Vex'', comp_name = ''Vex'', comp_carry = Some ''TFT17_Vex'', comp_level = 9,
      comp_units = [''TFT17_Vex'', ''TFT17_Aatrox'', ''TFT17_Briar'', ''TFT17_Caitlyn'',
        ''TFT17_Chogath'', ''TFT17_Ezreal'', ''TFT17_Leona'', ''TFT17_Lissandra'',
        ''TFT17_Nasus'']\<rparr>,
    \<lparr>comp_id = ''TFT17_Zed'', comp_name = ''Zed'', comp_carry = Some ''TFT17_Zed'', comp_level = 9,
      comp_units = [''TFT17_Zed'', ''TFT17_Aatrox'', ''TFT17_Briar'', ''TFT17_Caitlyn'',
        ''TFT17_Chogath'', ''TFT17_Ezreal'', ''TFT17_Leona'', ''TFT17_Lissandra'',
        ''TFT17_Nasus'']\<rparr>,
    \<lparr>comp_id = ''TFT17_AurelionSol'', comp_name = ''Aurelion Sol'', comp_carry = Some ''TFT17_AurelionSol'', comp_level = 8,
      comp_units = [''TFT17_AurelionSol'', ''TFT17_Bard'', ''TFT17_Galio'', ''TFT17_Urgot'',
        ''TFT17_Viktor'', ''TFT17_Mordekaiser'', ''TFT17_Zoe'', ''TFT17_Aatrox'']\<rparr>,
    \<lparr>comp_id = ''TFT17_Corki'', comp_name = ''Corki'', comp_carry = Some ''TFT17_Corki'', comp_level = 8,
      comp_units = [''TFT17_Corki'', ''TFT17_Bard'', ''TFT17_Rammus'', ''TFT17_Fizz'',
        ''TFT17_Gnar'', ''TFT17_IvernMinion'', ''TFT17_Milio'', ''TFT17_Caitlyn'']\<rparr>,
    \<lparr>comp_id = ''TFT17_Galio'', comp_name = ''Galio'', comp_carry = Some ''TFT17_Galio'', comp_level = 8,
      comp_units = [''TFT17_Galio'', ''TFT17_AurelionSol'', ''TFT17_Karma'', ''TFT17_Aurora'',
        ''TFT17_Urgot'', ''TFT17_IvernMinion'', ''TFT17_Pyke'', ''TFT17_Aatrox'']\<rparr>,
    \<lparr>comp_id = ''TFT17_Karma'', comp_name = ''Karma'', comp_carry = Some ''TFT17_Karma'', comp_level = 8,
      comp_units = [''TFT17_Karma'', ''TFT17_Jhin'', ''TFT17_Galio'', ''TFT17_Aurora'',
        ''TFT17_Kaisa'', ''TFT17_IvernMinion'', ''TFT17_Mordekaiser'', ''TFT17_Pyke'']\<rparr>,
    \<lparr>comp_id = ''TFT17_Kindred'', comp_name = ''Kindred'', comp_carry = Some ''TFT17_Kindred'', comp_level = 8,
      comp_units = [''TFT17_Kindred'', ''TFT17_Diana'', ''TFT17_Maokai'', ''TFT17_Akali'',
        ''TFT17_Belveth'', ''TFT17_Jinx'', ''TFT17_Aatrox'', ''TFT17_Caitlyn'']\<rparr>,
    \<lparr>comp_id = ''TFT17_Leblanc'', comp_name = ''Leblanc'', comp_carry = Some ''TFT17_Leblanc'', comp_level = 8,
      comp_units = [''TFT17_Leblanc'', ''TFT17_Sona'', ''TFT17_Diana'', ''TFT17_Illaoi'',
        ''TFT17_IvernMinion'', ''TFT17_Zoe'', ''TFT17_Leona'', ''TFT17_Lissandra'']\<rparr>,
    \<lparr>comp_id = ''TFT17_MasterYi'', comp_name = ''Master Yi'', comp_carry = Some ''TFT17_MasterYi'', comp_level = 8,
      comp_units = [''TFT17_MasterYi'', ''TFT17_Fiora'', ''TFT17_Sona'', ''TFT17_Urgot'',
        ''TFT17_Viktor'', ''TFT17_Akali'', ''TFT17_Belveth'', ''TFT17_Gragas'']\<rparr>,
    \<lparr>comp_id = ''TFT17_Morgana'', comp_name = ''Morgana'', comp_carry = Some ''TFT17_Morgana'', comp_level = 8,
      comp_units = [''TFT17_Morgana'', ''TFT17_Aatrox'', ''TFT17_Briar'', ''TFT17_Caitlyn'',
        ''TFT17_Chogath'', ''TFT17_Ezreal'', ''TFT17_Leona'', ''TFT17_Lissandra'']\<rparr>,
    \<lparr>comp_id = ''TFT17_Nami'', comp_name = ''Nami'', comp_carry = Some ''TFT17_Nami'', comp_level = 8,
      comp_units = [''TFT17_Nami'', ''TFT17_Blitzcrank'', ''TFT17_Lulu'', ''TFT17_Ornn'',
        ''TFT17_Samira'', ''TFT17_Gwen'', ''TFT17_Pantheon'', ''TFT17_Lissandra'']\<rparr>,
    \<lparr>comp_id = ''TFT17_Nunu'', comp_name = ''Nunu'', comp_carry = Some ''TFT17_Nunu'', comp_level = 8,
      comp_units = [''TFT17_Nunu'', ''TFT17_Blitzcrank'', ''TFT17_Xayah'', ''TFT17_Illaoi'',
        ''TFT17_Lulu'', ''TFT17_Jax'', ''TFT17_Mordekaiser'', ''TFT17_Leona'']\<rparr>,
    \<lparr>comp_id = ''TFT17_Rammus'', comp_name = ''Rammus'', comp_carry = Some ''TFT17_Rammus'', comp_level = 8,
      comp_units = [''TFT17_Rammus'', ''TFT17_Bard'', ''TFT17_Shen'', ''TFT17_Corki'',
        ''TFT17_Fizz'', ''TFT17_Ornn'', ''TFT17_Gnar'', ''TFT17_IvernMinion'']\<rparr>,
    \<lparr>comp_id = ''TFT17_Riven'', comp_name = ''Riven'', comp_carry = Some ''TFT17_Riven'', comp_level = 8,
      comp_units = [''TFT17_Riven'', ''TFT17_Fizz'', ''TFT17_Kaisa'', ''TFT17_Gwen'',
        ''TFT17_Milio'', ''TFT17_Pantheon'', ''TFT17_Briar'', ''TFT17_Ezreal'']\<rparr>,
    \<lparr>comp_id = ''TFT17_TahmKench'', comp_name = ''Tahm Kench'', comp_carry = Some ''TFT17_TahmKench'', comp_level = 8,
      comp_units = [''TFT17_TahmKench'', ''TFT17_Maokai'', ''TFT17_Urgot'', ''TFT17_Gragas'',
        ''TFT17_Pantheon'', ''TFT17_Chogath'', ''TFT17_RekSai'', ''TFT17_Aatrox'']\<rparr>,
    \<lparr>comp_id = ''TFT17_Xayah'', comp_name = ''Xayah'', comp_carry = Some ''TFT17_Xayah'', comp_level = 8,
      comp_units = [''TFT17_Xayah'', ''TFT17_Jhin'', ''TFT17_Nunu'', ''TFT17_Lulu'',
        ''TFT17_Samira'', ''TFT17_Gnar'', ''TFT17_Jax'', ''TFT17_Ezreal'']\<rparr>,
    \<lparr>comp_id = ''Fast9'', comp_name = ''Fast 9'', comp_carry = None, comp_level = 9,
      comp_units = [''TFT17_Bard'', ''TFT17_Blitzcrank'', ''TFT17_Fiora'', ''TFT17_Graves'',
        ''TFT17_Jhin'', ''TFT17_Shen'', ''TFT17_Sona'', ''TFT17_Vex'',
        ''TFT17_Zed'']\<rparr>]"

definition CHAMPION_ROLE :: "(string, string) dict" where
  "CHAMPION_ROLE = [
    (''TFT17_Aatrox'', ''ADTank''), (''TFT17_Briar'', ''ADFighter''),
    (''TFT17_Caitlyn'', ''ADSpecialist''), (''TFT17_Chogath'', ''APTank''),
    (''TFT17_Ezreal'', ''ADCaster''), (''TFT17_Leona'', ''APTank''),
    (''TFT17_Lissandra'', ''APCaster''), (''TFT17_Nasus'', ''APTank''),
    (''TFT17_Poppy'', ''APTank''), (''TFT17_RekSai'', ''APTank''),
    (''TFT17_Talon'', ''ADReaper''), (''TFT17_Teemo'', ''APCarry''),
    (''TFT17_TwistedFate'', ''APCaster''), (''TFT17_Veigar'', ''APCaster''),
    (''TFT17_Akali'', ''ADFighter''), (''TFT17_Belveth'', ''ADFighter''),
    (''TFT17_Gnar'', ''ADSpecialist''), (''TFT17_Gragas'', ''APTank''),
    (''TFT17_Gwen'', ''APReaper''), (''TFT17_Jax'', ''APTank''),
    (''TFT17_Jinx'', ''ADCarry''), (''TFT17_IvernMinion'', ''APTank''),
    (''TFT17_Milio'', ''APCaster''), (''TFT17_Mordekaiser'', ''APTank''),
    (''TFT17_Pantheon'', ''ADTank''), (''TFT17_Pyke'', ''ADReaper''),
    (''TFT17_Zoe'', ''APCaster''), (''TFT17_Aurora'', ''APCaster''),
    (''TFT17_Diana'', ''APFighter''), (''TFT17_Fizz'', ''APReaper''),
    (''TFT17_Illaoi'', ''APTank''), (''TFT17_Kaisa'', ''ADCaster''),
    (''TFT17_Lulu'', ''APCaster''), (''TFT17_Maokai'', ''APTank''),
    (''TFT17_MissFortune'', ''''), (''TFT17_Ornn'', ''APTank''),
    (''TFT17_Rhaast'', ''ADTank''), (''TFT17_Samira'', ''ADCaster''),
    (''TFT17_Urgot'', ''ADFighter''), (''TFT17_Viktor'', ''APCaster''),
    (''TFT17_AurelionSol'', ''APCaster''), (''TFT17_Corki'', ''ADCaster''),
    (''TFT17_Karma'', ''APCaster''), (''TFT17_Kindred'', ''ADCarry''),
    (''TFT17_Leblanc'', ''APCarry''), (''TFT17_MasterYi'', ''ADFighter''),
    (''TFT17_Morgana'', ''APTank''), (''TFT17_Nami'', ''APCaster''),
    (''TFT17_Nunu'', ''APTank''), (''TFT17_Rammus'', ''APTank''),
    (''TFT17_Riven'', ''HFighter''), (''TFT17_TahmKench'', ''APTank''),
    (''TFT17_Galio'', ''ADTank''), (''TFT17_Xayah'', ''ADCarry''),
    (''TFT17_Bard'', ''APCaster''), (''TFT17_Blitzcrank'', ''APFighter''),
    (''TFT17_Fiora'', ''ADFighter''), (''TFT17_Graves'', ''ADCarry''),
    (''TFT17_Jhin'', ''ADCarry''), (''TFT17_Shen'', ''APFighter''),
    (''TFT17_Sona'', ''APCaster''), (''TFT17_Vex'', ''APCarry''),
    (''TFT17_Zed'', ''ADFighter'')]"

definition CHAMPION_RANGE :: "(string, py_float) dict" where
  "CHAMPION_RANGE = [
    (''TFT17_Aatrox'', 1), (''TFT17_Briar'', 1), (''TFT17_Caitlyn'', 4),
    (''TFT17_Chogath'', 1), (''TFT17_Ezreal'', 6), (''TFT17_Leona'', 1),
    (''TFT17_Lissandra'', 4), (''TFT17_Nasus'', 1), (''TFT17_Poppy'', 1),
    (''TFT17_RekSai'', 1), (''TFT17_Talon'', 1), (''TFT17_Teemo'', 4),
    (''TFT17_TwistedFate'', 4), (''TFT17_Veigar'', 4), (''TFT17_Akali'', 1),
    (''TFT17_Belveth'', 2), (''TFT17_Gnar'', 6), (''TFT17_Gragas'', 1),
    (''TFT17_Gwen'', 2), (''TFT17_Jax'', 1), (''TFT17_Jinx'', 4),
    (''TFT17_IvernMinion'', 1), (''TFT17_Milio'', 4), (''TFT17_Mordekaiser'', 1),
    (''TFT17_Pantheon'', 1), (''TFT17_Pyke'', 1), (''TFT17_Zoe'', 4),
    (''TFT17_Aurora'', 4), (''TFT17_Diana'', 1), (''TFT17_Fizz'', 1),
    (''TFT17_Illaoi'', 1), (''TFT17_Kaisa'', 4), (''TFT17_Lulu'', 4),
    (''TFT17_Maokai'', 1), (''TFT17_MissFortune'', 6), (''TFT17_Ornn'', 1),
    (''TFT17_Rhaast'', 1), (''TFT17_Samira'', 6), (''TFT17_Urgot'', 2),
    (''TFT17_Viktor'', 4), (''TFT17_AurelionSol'', 6), (''TFT17_Corki'', 4),
    (''TFT17_Karma'', 4), (''TFT17_Kindred'', 6), (''TFT17_Leblanc'', 4),
    (''TFT17_MasterYi'', 1), (''TFT17_Morgana'', 1), (''TFT17_Nami'', 4),
    (''TFT17_Nunu'', 1), (''TFT17_Rammus'', 1), (''TFT17_Riven'', 1),
    (''TFT17_TahmKench'', 1), (''TFT17_Galio'', 1), (''TFT17_Xayah'', 6),
    (''TFT17_Bard'', 4), (''TFT17_Blitzcrank'', 1), (''TFT17_Fiora'', 1),
    (''TFT17_Graves'', 4), (''TFT17_Jhin'', 6), (''TFT17_Shen'', 1),
    (''TFT17_Sona'', 4), (''TFT17_Vex'', 6), (''TFT17_Zed'', 1)]"

section \<open>Facts about the tables\<close>

lemma distinct_champion_ids: "distinct CHAMPION_IDS"
  by code_simp

lemma champion_cost_keys: "map fst CHAMPION_COST = CHAMPION_IDS"
  by (simp add: CHAMPION_COST_def CHAMPION_IDS_def comp_def case_prod_unfold)

lemma champion_cost_range: "list_all (\<lambda>(_, cost). 1 \<le> cost \<and> cost \<le> 5) CHAMPION_COST"
  by code_simp

lemma champion_cost_bounds:
  "0 \<le> dict_get CHAMPION_COST cid 0 \<and> dict_get CHAMPION_COST cid 0 \<le> 5"
proof (cases "map_of CHAMPION_COST cid")
  case (Some c)
  then have "(cid, c) \<in> set CHAMPION_COST" by (rule map_of_SomeD)
  with champion_cost_range Some show ?thesis by (auto simp: list_all_iff dict_get_def)
qed (simp add: dict_get_def)

text \<open>
  Each named composition fields known champions, each once, among them its carry, after
  which it is named; the one composition without a carry is \<open>Fast9\<close>, all of whose units
  cost five.
\<close>

definition wf_comp :: "comp \<Rightarrow> bool" where
  "wf_comp c \<longleftrightarrow> distinct (comp_units c) \<and>
     list_all (\<lambda>u. u \<in> set CHAMPION_IDS) (comp_units c) \<and>
     (case comp_carry c of
        Some carry \<Rightarrow> carry \<in> set (comp_units c) \<and> comp_id c = carry
      | None \<Rightarrow> comp_id c = ''Fast9'' \<and> 3 \<le> length (comp_units c) \<and>
          list_all (\<lambda>u. dict_get CHAMPION_COST u 0 = 5) (comp_units c))"

lemma COMPS_wf: "list_all wf_comp COMPS"
  by code_simp

lemma wf_comp_COMPS: "c \<in> set COMPS \<Longrightarrow> wf_comp c"
  using COMPS_wf by (simp add: list_all_iff)

lemma TIER_RANK_eq:
  "TIER_RANK = [(''CHALLENGER'', 0), (''GRANDMASTER'', 1), (''MASTER'', 2), (''DIAMOND'', 3),
     (''PLATINUM'', 4), (''GOLD'', 5), (''SILVER'', 6), (''BRONZE'', 7), (''IRON'', 8)]"
  by code_simp

end
