(* ===== verification/Aggregator.thy ===== *)
theory Aggregator
  imports Tft_Data
begin

text \<open>
  Stat aggregation, \<open>processor/aggregator.py\<close>. The per-entity buffers and the board totals
  are insertion-ordered dictionaries, so \<open>flush\<close> emits entries in the order in which their
  keys were first seen. A buffer's value \<open>{"placements": [...]}\<close> is the list itself.
  NumPy's \<open>mean\<close> is a parameter of \<open>flush\<close>; \<open>mean_spec\<close> states its documented
  behaviour on a non-empty array.
\<close>

section \<open>Composition labels\<close>

definition unit_cost0 :: "pb_unit \<Rightarrow> int" where
  "unit_cost0 u = dict_get CHAMPION_COST (character_id u) 0"

definition carry_key :: "pb_unit \<Rightarrow> nat \<times> int \<times> string" where
  "carry_key u = (length (items u), unit_cost0 u, character_id u)"

definition composition_label :: "pb_unit list \<Rightarrow> string" where
  "composition_label us =
     (case us of [] \<Rightarrow> ''comp:Unknown''
      | u # us' \<Rightarrow>
          (let carry = py_max carry_key u us';
               fives = length (filter (\<lambda>u. 5 \<le> unit_cost0 u) us);
               base = (if length (items carry) < 2 \<and> 3 \<le> fives then ''Fast9''
                       else character_id carry)
           in ''comp:'' @ base))"

section \<open>State and operations\<close>

type_synonym scope = "string \<times> string \<times> string" \<comment> \<open>patch, tier, region\<close>
type_synonym stat_key = "string \<times> string \<times> scope" \<comment> \<open>entity id, entity type, scope\<close>

record aggregator =
  buffers :: "(stat_key, int list) dict"
  totals :: "(scope, int) dict"
  matches_seen :: nat

definition new_aggregator :: aggregator where
  "new_aggregator = \<lparr>buffers = [], totals = [], matches_seen = 0\<rparr>"

definition agg_add :: "string \<Rightarrow> string \<Rightarrow> scope \<Rightarrow> int \<Rightarrow> aggregator \<Rightarrow> aggregator" where
  "agg_add entity_id entity_type sc plc s =
     s\<lparr>buffers := dict_append (entity_id, entity_type, sc) plc (buffers s)\<rparr>"

definition pair_id :: "string \<Rightarrow> string \<Rightarrow> string" where
  "pair_id cid item = cid @ ''|'' @ item"

text \<open>One item of one unit; the first component is the board's \<open>seen_items\<close>.\<close>

definition item_step ::
    "scope \<Rightarrow> int \<Rightarrow> string \<Rightarrow> string \<Rightarrow> string list \<times> aggregator \<Rightarrow> string list \<times> aggregator" where
  "item_step sc plc cid item st =
     (case st of (seen, s) \<Rightarrow>
        let s' = agg_add (pair_id cid item) ''champion_item'' sc plc s
        in if item \<notin> set seen then (item # seen, agg_add item ''item'' sc plc s') else (seen, s'))"

definition unit_step ::
    "scope \<Rightarrow> int \<Rightarrow> pb_unit \<Rightarrow> string list \<times> aggregator \<Rightarrow> string list \<times> aggregator" where
  "unit_step sc plc u st =
     (case st of (seen, s) \<Rightarrow>
        fold (item_step sc plc (character_id u)) (items u)
          (seen, agg_add (character_id u) ''champion'' sc plc s))"

definition process_player :: "scope \<Rightarrow> player_result \<Rightarrow> aggregator \<Rightarrow> aggregator" where
  "process_player sc pl s =
     (let plc = placement pl;
          s1 = s\<lparr>totals := dict_incr sc 1 (totals s)\<rparr>;
          s2 = snd (fold (unit_step sc plc) (units pl) ([], s1));
          s3 = fold (\<lambda>aug. agg_add aug ''augment'' sc plc) (augments pl) s2
      in agg_add (composition_label (units pl)) ''composition'' sc plc s3)"

definition process_match :: "match_event \<Rightarrow> aggregator \<Rightarrow> aggregator" where
  "process_match m s =
     (let s' = fold (process_player (patch m, tier m, region m)) (players m) s
      in s'\<lparr>matches_seen := matches_seen s' + 1\<rparr>)"

definition process_batch :: "match_event list \<Rightarrow> aggregator \<Rightarrow> aggregator" where
  "process_batch ms s = fold process_match ms s"

definition agg_len :: "aggregator \<Rightarrow> nat" where
  "agg_len s = matches_seen s"

definition flush_entry ::
    "(py_float list \<Rightarrow> py_float) \<Rightarrow> vector_clock \<Rightarrow> (scope, int) dict \<Rightarrow>
     stat_key \<times> int list \<Rightarrow> stat_entry option" where
  "flush_entry np_mean clock tot kd =
     (case kd of ((entity_id, entity_type, sc), plcs) \<Rightarrow>
       case sc of (p, t, r) \<Rightarrow>
        let arr = map of_int plcs; size = int (length arr) in
        if size = 0 then None
        else
          (let total = dict_get tot sc size;
               play_rate = (if total \<noteq> 0 then of_int size / of_int total else 0)
           in Some \<lparr>se_entity_id = entity_id, se_entity_type = entity_type, se_patch = p,
                se_region = r, se_tier = t,
                se_win_rate = np_mean (map (\<lambda>x. if x \<le> 4 then 1 else 0) arr),
                se_avg_placement = np_mean arr, se_play_rate = min play_rate 1,
                se_sample_size = size, se_clock = clock\<rparr>))"

definition flush ::
    "(py_float list \<Rightarrow> py_float) \<Rightarrow> vector_clock \<Rightarrow> aggregator \<Rightarrow> stat_entry list \<times> aggregator" where
  "flush np_mean clock s =
     (List.map_filter (flush_entry np_mean clock (totals s)) (buffers s),
      \<lparr>buffers = [], totals = [], matches_seen = 0\<rparr>)"

definition mean_spec :: "(py_float list \<Rightarrow> py_float) \<Rightarrow> bool" where
  "mean_spec np_mean \<longleftrightarrow> (\<forall>xs. xs \<noteq> [] \<longrightarrow> np_mean xs = sum_list xs / of_nat (length xs))"

section \<open>What one board contributes\<close>

text \<open>
  The reference definition of the statistics: how many samples one board gives to an entity.
  A champion counts once per copy on the board, a champion-item pair once per such item, an
  item once per board however often it is held, an augment once per pick, and the board's
  composition once.
\<close>

definition board_items :: "player_result \<Rightarrow> string list" where
  "board_items pl = concat (map items (units pl))"

definition board_pairs :: "player_result \<Rightarrow> string list" where
  "board_pairs pl = concat (map (\<lambda>u. map (pair_id (character_id u)) (items u)) (units pl))"

definition board_count :: "player_result \<Rightarrow> string \<Rightarrow> string \<Rightarrow> nat" where
  "board_count pl eid etype =
     (if etype = ''champion'' then count_list (map character_id (units pl)) eid
      else if etype = ''champion_item'' then count_list (board_pairs pl) eid
      else if etype = ''item'' then (if eid \<in> set (board_items pl) then 1 else 0)
      else if etype = ''augment'' then count_list (augments pl) eid
      else if etype = ''composition'' then (if eid = composition_label (units pl) then 1 else 0)
      else 0)"

definition match_samples :: "match_event \<Rightarrow> stat_key \<Rightarrow> int list" where
  "match_samples m k =
     (case k of (eid, etype, sc) \<Rightarrow>
        if sc = (patch m, tier m, region m)
        then concat (map (\<lambda>pl. replicate (board_count pl eid etype) (placement pl)) (players m))
        else [])"

definition samples :: "match_event list \<Rightarrow> stat_key \<Rightarrow> int list" where
  "samples ms k = concat (map (\<lambda>m. match_samples m k) ms)"

definition boards :: "match_event list \<Rightarrow> scope \<Rightarrow> int" where
  "boards ms sc =
     sum_list (map (\<lambda>m. if sc = (patch m, tier m, region m) then int (length (players m)) else 0) ms)"

section \<open>The loops compute the reference samples\<close>

abbreviation buf :: "aggregator \<Rightarrow> stat_key \<Rightarrow> int list" where
  "buf s k \<equiv> dict_get (buffers s) k []"

lemma buf_add [simp]:
  "buf (agg_add eid etype sc plc s) k = buf s k @ (if k = (eid, etype, sc) then [plc] else [])"
  by (simp add: agg_add_def)

lemma totals_add [simp]: "totals (agg_add eid etype sc plc s) = totals s"
  by (simp add: agg_add_def)

lemma matches_seen_add [simp]: "matches_seen (agg_add eid etype sc plc s) = matches_seen s"
  by (simp add: agg_add_def)

definition item_count :: "scope \<Rightarrow> string \<Rightarrow> string list \<Rightarrow> string list \<Rightarrow> stat_key \<Rightarrow> nat" where
  "item_count sc cid its seen k =
     (case k of (eid, etype, sc') \<Rightarrow>
        if sc' \<noteq> sc then 0
        else if etype = ''champion_item'' then count_list (map (pair_id cid) its) eid
        else if etype = ''item'' then (if eid \<in> set its - set seen then 1 else 0)
        else 0)"

lemma item_loop:
  "set (fst (fold (item_step sc plc cid) its (seen, s))) = set its \<union> set seen \<and>
   buf (snd (fold (item_step sc plc cid) its (seen, s))) k
     = buf s k @ replicate (item_count sc cid its seen k) plc"
proof (induction its arbitrary: seen s)
  case Nil
  then show ?case by (auto simp: item_count_def split: prod.splits)
next
  case (Cons it its)
  obtain seen' s' where st: "item_step sc plc cid it (seen, s) = (seen', s')"
    by (cases "item_step sc plc cid it (seen, s)")
  have seen': "set seen' = insert it (set seen)"
    using st by (auto simp: item_step_def Let_def split: if_splits)
  have s': "buf s' k = buf s k @ replicate (item_count sc cid [it] seen k) plc"
    using st by (auto simp: item_step_def item_count_def Let_def split: if_splits prod.splits)
  have "item_count sc cid (it # its) seen k
      = item_count sc cid [it] seen k + item_count sc cid its seen' k"
    using seen' by (auto simp: item_count_def split: prod.splits)
  with Cons.IH [of seen' s'] seen' s' show ?case
    by (simp add: st replicate_add)
qed

definition unit_count :: "scope \<Rightarrow> pb_unit list \<Rightarrow> string list \<Rightarrow> stat_key \<Rightarrow> nat" where
  "unit_count sc us seen k =
     (case k of (eid, etype, sc') \<Rightarrow>
        if sc' \<noteq> sc then 0
        else if etype = ''champion'' then count_list (map character_id us) eid
        else if etype = ''champion_item''
          then count_list (concat (map (\<lambda>u. map (pair_id (character_id u)) (items u)) us)) eid
        else if etype = ''item'' then (if eid \<in> set (concat (map items us)) - set seen then 1 else 0)
        else 0)"

lemma unit_loop:
  "set (fst (fold (unit_step sc plc) us (seen, s))) = set (concat (map items us)) \<union> set seen \<and>
   buf (snd (fold (unit_step sc plc) us (seen, s))) k
     = buf s k @ replicate (unit_count sc us seen k) plc"
proof (induction us arbitrary: seen s)
  case Nil
  then show ?case by (auto simp: unit_count_def split: prod.splits)
next
  case (Cons u us)
  let ?s = "agg_add (character_id u) ''champion'' sc plc s"
  obtain seen' s' where st: "fold (item_step sc plc (character_id u)) (items u) (seen, ?s) = (seen', s')"
    by (cases "fold (item_step sc plc (character_id u)) (items u) (seen, ?s)")
  have seen': "set seen' = set (items u) \<union> set seen"
    and s': "buf s' k = buf ?s k @ replicate (item_count sc (character_id u) (items u) seen k) plc"
    using item_loop [of sc plc "character_id u" "items u" seen ?s k] by (simp_all add: st)
  have n: "(if k = (character_id u, ''champion'', sc) then 1 else 0)
      + item_count sc (character_id u) (items u) seen k + unit_count sc us seen' k
      = unit_count sc (u # us) seen k"
    using seen' by (auto simp: item_count_def unit_count_def split: prod.splits)
  have "buf s' k = buf s k @ replicate ((if k = (character_id u, ''champion'', sc) then 1 else 0)
      + item_count sc (character_id u) (items u) seen k) plc"
    by (simp add: s' replicate_add)
  with Cons.IH [of seen' s'] seen' show ?case
    by (auto simp: unit_step_def st replicate_add simp flip: n)
qed

lemma augment_loop:
  "buf (fold (\<lambda>aug. agg_add aug ''augment'' sc plc) augs s) k =
     buf s k @ replicate (case k of (eid, etype, sc') \<Rightarrow>
       if etype = ''augment'' \<and> sc' = sc then count_list augs eid else 0) plc"
  by (induction augs arbitrary: s) (auto split: prod.splits simp: replicate_append_same)

lemma totals_item_loop [simp]: "totals (snd (fold (item_step sc plc cid) its st)) = totals (snd st)"
  by (induction its arbitrary: st) (simp_all add: item_step_def Let_def split: prod.splits)

lemma totals_unit_loop [simp]: "totals (snd (fold (unit_step sc plc) us st)) = totals (snd st)"
  by (induction us arbitrary: st) (simp_all add: unit_step_def split: prod.splits)

lemma totals_augment_loop [simp]:
  "totals (fold (\<lambda>aug. agg_add aug ''augment'' sc plc) augs s) = totals s"
  by (induction augs arbitrary: s) simp_all

lemma totals_process_player:
  "totals (process_player sc pl s) = dict_incr sc 1 (totals s)"
  by (simp add: process_player_def Let_def)

definition board_samples :: "scope \<Rightarrow> player_result \<Rightarrow> stat_key \<Rightarrow> int list" where
  "board_samples sc pl k =
     (case k of (eid, etype, sc') \<Rightarrow>
        if sc' = sc then replicate (board_count pl eid etype) (placement pl) else [])"

lemma buf_process_player: "buf (process_player sc pl s) k = buf s k @ board_samples sc pl k"
proof -
  obtain eid etype sc' where k: "k = (eid, etype, sc')" by (cases k)
  let ?n = "unit_count sc (units pl) [] k + (if etype = ''augment'' \<and> sc' = sc
      then count_list (augments pl) eid else 0)
      + (if k = (composition_label (units pl), ''composition'', sc) then 1 else 0)"
  have "buf (process_player sc pl s) k = buf s k @ replicate ?n (placement pl)"
    using unit_loop [of sc "placement pl" "units pl" "[]" _ k]
    by (simp add: process_player_def Let_def augment_loop k replicate_add)
  also have "replicate ?n (placement pl) = board_samples sc pl k"
    by (auto simp: k board_samples_def board_count_def unit_count_def board_pairs_def board_items_def)
  finally show ?thesis .
qed

interpretation board_loop: accumulator "(@)" "[]" "process_player sc" buf "board_samples sc" for sc
  by unfold_locales (simp_all add: buf_process_player)

lemma concat_map_if: "concat (map (\<lambda>x. if P then f x else []) xs) = (if P then concat (map f xs) else [])"
  by simp

lemma buf_process_match: "buf (process_match m s) k = buf s k @ match_samples m k"
proof -
  obtain eid etype sc' where k: "k = (eid, etype, sc')" by (cases k)
  have "buf (process_match m s) k
      = buf s k @ concat (map (\<lambda>pl. board_samples (patch m, tier m, region m) pl k) (players m))"
    by (simp add: process_match_def Let_def board_loop.obs_fold concat_conv_foldr)
  then show ?thesis by (simp add: k match_samples_def board_samples_def)
qed

interpretation match_loop: accumulator "(@)" "[]" process_match buf match_samples
  by unfold_locales (simp_all add: buf_process_match)

lemma buf_process_batch: "buf (process_batch ms s) k = buf s k @ samples ms k"
  by (simp add: process_batch_def samples_def match_loop.obs_fold concat_conv_foldr)

interpretation total_loop: accumulator "(+)" "0 :: int" "process_player sc"
  "\<lambda>s sc'. dict_get (totals s) sc' 0" "\<lambda>pl sc'. if sc' = sc then 1 else 0" for sc
  by unfold_locales (simp_all add: totals_process_player)

interpretation match_total_loop: accumulator "(+)" "0 :: int" process_match
  "\<lambda>s sc. dict_get (totals s) sc 0"
  "\<lambda>m sc. if sc = (patch m, tier m, region m) then int (length (players m)) else 0"
proof unfold_locales
  fix m s and sc :: scope
  have "foldr (+) (map (\<lambda>pl. if sc = sc' then 1 else 0) pls) (0::int)
      = (if sc = sc' then int (length pls) else 0)" for pls :: "player_result list" and sc'
    by (induction pls) auto
  then show "dict_get (totals (process_match m s)) sc 0 = dict_get (totals s) sc 0
      + (if sc = (patch m, tier m, region m) then int (length (players m)) else 0)"
    by (simp add: process_match_def Let_def total_loop.obs_fold)
qed

lemma totals_process_batch:
  "dict_get (totals (process_batch ms s)) sc 0 = dict_get (totals s) sc 0 + boards ms sc"
  by (simp add: process_batch_def boards_def match_total_loop.obs_fold sum_list.eq_foldr)

section \<open>The shape of the buffers\<close>

definition agg_inv :: "aggregator \<Rightarrow> bool" where
  "agg_inv s \<longleftrightarrow> distinct (map fst (buffers s)) \<and> list_all (\<lambda>(_, plcs). plcs \<noteq> []) (buffers s)"

lemma set_update_subset: "set (AList.update k v d) \<subseteq> insert (k, v) (set d)"
  by (induction d) auto

lemma agg_inv_new [simp]: "agg_inv new_aggregator"
  by (simp add: agg_inv_def new_aggregator_def)

lemma agg_inv_add [simp, intro]: "agg_inv s \<Longrightarrow> agg_inv (agg_add eid etype sc plc s)"
  using set_update_subset by (fastforce simp: agg_inv_def agg_add_def dict_append_def list_all_iff distinct_update)

lemma agg_inv_fold: "(\<And>x s. agg_inv s \<Longrightarrow> agg_inv (f x s)) \<Longrightarrow> agg_inv s \<Longrightarrow> agg_inv (fold f xs s)"
  by (induction xs arbitrary: s) auto

lemma agg_inv_fold_snd:
  "(\<And>x st. agg_inv (snd st) \<Longrightarrow> agg_inv (snd (f x st))) \<Longrightarrow> agg_inv (snd st) \<Longrightarrow>
   agg_inv (snd (fold f xs st))"
  by (induction xs arbitrary: st) auto

lemma agg_inv_item_step: "agg_inv (snd st) \<Longrightarrow> agg_inv (snd (item_step sc plc cid it st))"
  by (auto simp: item_step_def Let_def split: prod.splits)

lemma agg_inv_unit_step: "agg_inv (snd st) \<Longrightarrow> agg_inv (snd (unit_step sc plc u st))"
  by (auto simp: unit_step_def intro!: agg_inv_fold_snd agg_inv_item_step split: prod.splits)

lemma agg_inv_process_player: "agg_inv s \<Longrightarrow> agg_inv (process_player sc pl s)"
proof -
  assume "agg_inv s"
  then have "agg_inv (s\<lparr>totals := t\<rparr>)" for t by (simp add: agg_inv_def)
  then show ?thesis
    by (auto simp: process_player_def Let_def intro!: agg_inv_fold agg_inv_fold_snd agg_inv_unit_step)
qed

lemma agg_inv_process_match: "agg_inv s \<Longrightarrow> agg_inv (process_match m s)"
proof -
  assume "agg_inv s"
  then have "agg_inv (fold (process_player (patch m, tier m, region m)) (players m) s)"
    by (intro agg_inv_fold agg_inv_process_player)
  then show ?thesis by (simp add: process_match_def Let_def agg_inv_def)
qed

lemma agg_inv_process_batch: "agg_inv s \<Longrightarrow> agg_inv (process_batch ms s)"
  unfolding process_batch_def by (intro agg_inv_fold agg_inv_process_match)

lemma matches_seen_process_batch: "agg_len (process_batch ms s) = agg_len s + length ms"
proof -
  have 1: "matches_seen (snd (fold (item_step sc plc cid) its st)) = matches_seen (snd st)"
    for sc plc cid its st
    by (induction its arbitrary: st) (simp_all add: item_step_def Let_def split: prod.splits)
  have 2: "matches_seen (snd (fold (unit_step sc plc) us st)) = matches_seen (snd st)"
    for sc plc us st
    by (induction us arbitrary: st) (simp_all add: unit_step_def 1 split: prod.splits)
  have 3: "matches_seen (fold (\<lambda>aug. agg_add aug ''augment'' sc plc) augs s) = matches_seen s"
    for sc plc augs s
    by (induction augs arbitrary: s) simp_all
  have 4: "matches_seen (fold (process_player sc) pls s) = matches_seen s" for sc pls s
    by (induction pls arbitrary: s) (simp_all add: process_player_def Let_def 2 3)
  show ?thesis
    by (induction ms arbitrary: s) (simp_all add: process_batch_def agg_len_def process_match_def Let_def 4)
qed

lemma agg_inv_mem:
  assumes "agg_inv s"
  shows "(k, plcs) \<in> set (buffers s) \<longleftrightarrow> plcs = buf s k \<and> buf s k \<noteq> []"
proof
  assume mem: "(k, plcs) \<in> set (buffers s)"
  then have "buf s k = plcs"
    using assms by (simp add: agg_inv_def dict_get_eq_of_mem)
  moreover have "plcs \<noteq> []" using assms mem by (auto simp: agg_inv_def list_all_iff)
  ultimately show "plcs = buf s k \<and> buf s k \<noteq> []" by simp
next
  assume r: "plcs = buf s k \<and> buf s k \<noteq> []"
  then have "map_of (buffers s) k = Some plcs"
    by (simp add: dict_get_def split: option.splits)
  then show "(k, plcs) \<in> set (buffers s)" by (rule map_of_SomeD)
qed

section \<open>Entries\<close>

definition top4 :: "int list \<Rightarrow> nat" where
  "top4 plcs = length (filter (\<lambda>x. x \<le> 4) plcs)"

definition reference_entry :: "vector_clock \<Rightarrow> match_event list \<Rightarrow> stat_key \<Rightarrow> stat_entry" where
  "reference_entry clock ms k =
     (case k of (eid, etype, p, t, r) \<Rightarrow>
        let xs = samples ms k; n = length xs in
        \<lparr>se_entity_id = eid, se_entity_type = etype, se_patch = p, se_region = r, se_tier = t,
         se_win_rate = of_nat (top4 xs) / of_nat n,
         se_avg_placement = of_int (sum_list xs) / of_nat n,
         se_play_rate = min (of_nat n / of_int (boards ms (p, t, r))) 1,
         se_sample_size = int n, se_clock = clock\<rparr>)"

lemma mean_top4:
  assumes "mean_spec np_mean" "plcs \<noteq> []"
  shows "np_mean (map (\<lambda>x. if x \<le> 4 then 1 else 0) (map of_int plcs :: real list))
    = of_nat (top4 plcs) / of_nat (length plcs)"
proof -
  have "sum_list (map (\<lambda>x. if x \<le> 4 then 1 else 0) (map of_int plcs :: real list))
      = (of_nat (top4 plcs) :: real)"
    by (induction plcs) (auto simp: top4_def)
  with assms show ?thesis by (simp add: mean_spec_def del: map_map)
qed

lemma mean_placements:
  assumes "mean_spec np_mean" "plcs \<noteq> []"
  shows "np_mean (map of_int plcs) = of_int (sum_list plcs) / of_nat (length plcs)"
proof -
  have "sum_list (map of_int plcs) = (of_int (sum_list plcs) :: real)"
    by (induction plcs) auto
  with assms show ?thesis by (simp add: mean_spec_def)
qed

lemma boards_pos:
  assumes "samples ms (eid, etype, sc) \<noteq> []"
  shows "0 < boards ms sc"
proof -
  obtain m where m: "m \<in> set ms" "match_samples m (eid, etype, sc) \<noteq> []"
    using assms by (auto simp: samples_def)
  then have sc: "sc = (patch m, tier m, region m)" "players m \<noteq> []"
    by (auto simp: match_samples_def split: if_splits)
  let ?f = "\<lambda>m. if sc = (patch m, tier m, region m) then int (length (players m)) else 0"
  have "0 < ?f m" using sc by simp
  also have "?f m \<le> sum_list (map ?f ms)"
    by (rule member_le_sum_list) (use m in auto)
  finally show ?thesis by (simp add: boards_def)
qed

lemma dict_get_nonzero: "dict_get d k 0 \<noteq> (0::int) \<Longrightarrow> dict_get d k v = dict_get d k 0"
  by (auto simp: dict_get_def split: option.splits)

lemma flush_entry_reference:
  assumes np: "mean_spec np_mean"
    and xs: "samples ms k \<noteq> []"
  shows "flush_entry np_mean clock (totals (process_batch ms new_aggregator)) (k, samples ms k)
    = Some (reference_entry clock ms k)"
proof -
  obtain eid etype p t r where k: "k = (eid, etype, p, t, r)" by (cases k)
  let ?tot = "totals (process_batch ms new_aggregator)"
  have pos: "0 < boards ms (p, t, r)" using boards_pos xs by (simp add: k)
  have z: "dict_get ?tot (p, t, r) 0 = boards ms (p, t, r)"
    by (simp add: totals_process_batch new_aggregator_def)
  have "dict_get ?tot (p, t, r) v = boards ms (p, t, r)" for v
    using dict_get_nonzero [of ?tot "(p, t, r)" v] z pos by simp
  with pos show ?thesis
    using mean_top4 [OF np xs] mean_placements [OF np xs] xs
    by (simp add: k flush_entry_def reference_entry_def Let_def del: map_map)
qed

lemma map_filter_total: "\<forall>x\<in>set xs. f x = Some (g x) \<Longrightarrow> List.map_filter f xs = map g xs"
  by (induction xs) (simp_all add: List.map_filter_simps)

lemma flush_eq:
  assumes np: "mean_spec np_mean"
  shows "fst (flush np_mean clock (process_batch ms new_aggregator))
    = map (reference_entry clock ms) (map fst (buffers (process_batch ms new_aggregator)))"
proof -
  let ?s = "process_batch ms new_aggregator"
  have inv: "agg_inv ?s" by (simp add: agg_inv_process_batch)
  have b: "buf ?s k = samples ms k" for k
    by (simp add: buf_process_batch new_aggregator_def)
  have "\<forall>kd\<in>set (buffers ?s). flush_entry np_mean clock (totals ?s) kd
      = Some (reference_entry clock ms (fst kd))"
  proof
    fix kd
    assume kd: "kd \<in> set (buffers ?s)"
    obtain k plcs where p: "kd = (k, plcs)" by (cases kd)
    with kd have "plcs = samples ms k" "samples ms k \<noteq> []"
      using agg_inv_mem [OF inv] b by metis+
    then show "flush_entry np_mean clock (totals ?s) kd = Some (reference_entry clock ms (fst kd))"
      using flush_entry_reference [OF np] p by simp
  qed
  from map_filter_total [OF this] show ?thesis by (simp add: flush_def comp_def)
qed

lemma buffers_keys:
  "k \<in> set (map fst (buffers (process_batch ms new_aggregator))) \<longleftrightarrow> samples ms k \<noteq> []"
proof -
  let ?s = "process_batch ms new_aggregator"
  have inv: "agg_inv ?s" by (simp add: agg_inv_process_batch)
  have b: "buf ?s k = samples ms k"
    by (simp add: buf_process_batch new_aggregator_def)
  have "k \<in> set (map fst (buffers ?s)) \<longleftrightarrow> (\<exists>plcs. (k, plcs) \<in> set (buffers ?s))" by force
  then show ?thesis using agg_inv_mem [OF inv, of k] b by simp
qed

definition entry_key :: "stat_entry \<Rightarrow> stat_key" where
  "entry_key e = (se_entity_id e, se_entity_type e, se_patch e, se_tier e, se_region e)"

lemma entry_key_reference [simp]: "entry_key (reference_entry clock ms k) = k"
  by (auto simp: entry_key_def reference_entry_def Let_def split: prod.splits)

lemma reference_sample_size [simp]:
  "se_sample_size (reference_entry clock ms k) = int (length (samples ms k))"
  by (auto simp: reference_entry_def Let_def split: prod.splits)

section \<open>Compositions partition the boards\<close>

definition scope_boards :: "match_event list \<Rightarrow> scope \<Rightarrow> player_result list" where
  "scope_boards ms sc = concat (map (\<lambda>m. if sc = (patch m, tier m, region m) then players m else []) ms)"

lemma boards_scope: "boards ms sc = int (length (scope_boards ms sc))"
  by (induction ms) (auto simp: boards_def scope_boards_def)

lemma samples_scope:
  "length (samples ms (eid, etype, sc)) = (\<Sum>pl\<leftarrow>scope_boards ms sc. board_count pl eid etype)"
proof (induction ms)
  case Nil
  show ?case by (simp add: samples_def scope_boards_def)
next
  case (Cons m ms)
  have "length (match_samples m (eid, etype, sc))
      = (\<Sum>pl\<leftarrow>(if sc = (patch m, tier m, region m) then players m else []). board_count pl eid etype)"
    by (auto simp: match_samples_def length_concat comp_def)
  with Cons show ?case by (simp add: samples_def scope_boards_def)
qed

abbreviation board_label :: "player_result \<Rightarrow> string" where
  "board_label pl \<equiv> composition_label (units pl)"

lemma composition_samples:
  "length (samples ms (eid, ''composition'', sc)) = count_list (map board_label (scope_boards ms sc)) eid"
proof -
  have "(\<Sum>pl\<leftarrow>pls. board_count pl eid ''composition'') = count_list (map board_label pls) eid" for pls
    by (induction pls) (simp_all add: board_count_def)
  then show ?thesis by (simp add: samples_scope)
qed

lemma flush_set:
  assumes "mean_spec np_mean"
  shows "set (fst (flush np_mean clock (process_batch ms new_aggregator)))
    = reference_entry clock ms ` {k. samples ms k \<noteq> []}"
proof -
  have "set (map fst (buffers (process_batch ms new_aggregator))) = {k. samples ms k \<noteq> []}"
    by (rule set_eqI) (simp only: buffers_keys mem_Collect_eq)
  then show ?thesis by (simp only: flush_eq [OF assms] set_map)
qed

lemma flush_distinct:
  assumes "mean_spec np_mean"
  shows "distinct (map entry_key (fst (flush np_mean clock (process_batch ms new_aggregator))))"
  using agg_inv_process_batch [OF agg_inv_new, of ms]
  by (simp add: flush_eq [OF assms] agg_inv_def comp_def)

definition is_composition :: "scope \<Rightarrow> stat_entry \<Rightarrow> bool" where
  "is_composition sc e \<longleftrightarrow>
     se_entity_type e = ''composition'' \<and> (se_patch e, se_tier e, se_region e) = sc"

lemma is_composition_key: "is_composition sc e \<Longrightarrow> entry_key e = (se_entity_id e, ''composition'', sc)"
  by (auto simp: is_composition_def entry_key_def)

lemma composition_distinct:
  assumes np: "mean_spec np_mean"
  shows "distinct (map se_entity_id (filter (is_composition sc)
    (fst (flush np_mean clock (process_batch ms new_aggregator)))))" (is "distinct (map _ ?es)")
proof -
  have "distinct (map entry_key ?es)"
    using flush_distinct [OF np] by (rule distinct_map_filter)
  moreover have "map entry_key ?es = map (\<lambda>i. (i, ''composition'', sc)) (map se_entity_id ?es)"
    by (simp add: is_composition_key)
  ultimately show ?thesis by (metis distinct_map)
qed

lemma composition_entry:
  assumes np: "mean_spec np_mean"
    and e: "e \<in> set (filter (is_composition sc)
      (fst (flush np_mean clock (process_batch ms new_aggregator))))"
  shows "e = reference_entry clock ms (se_entity_id e, ''composition'', sc)"
    and "samples ms (se_entity_id e, ''composition'', sc) \<noteq> []"
proof -
  from e have "e \<in> reference_entry clock ms ` {k. samples ms k \<noteq> []}" and c: "is_composition sc e"
    by (simp_all add: flush_set [OF np])
  then obtain k where k: "e = reference_entry clock ms k" "samples ms k \<noteq> []" by blast
  then have "k = (se_entity_id e, ''composition'', sc)"
    using is_composition_key [OF c] entry_key_reference [of clock ms k] by simp
  with k show "e = reference_entry clock ms (se_entity_id e, ''composition'', sc)"
    "samples ms (se_entity_id e, ''composition'', sc) \<noteq> []" by metis+
qed

lemma composition_ids:
  assumes np: "mean_spec np_mean"
  shows "se_entity_id ` set (filter (is_composition sc)
      (fst (flush np_mean clock (process_batch ms new_aggregator))))
    = set (map board_label (scope_boards ms sc))" (is "_ ` set ?es = set ?labels")
proof (rule set_eqI)
  fix i
  have sm: "samples ms (i, ''composition'', sc) \<noteq> [] \<longleftrightarrow> i \<in> set ?labels"
    using composition_samples [of ms i sc] by (metis count_list_0_iff length_0_conv)
  show "i \<in> se_entity_id ` set ?es \<longleftrightarrow> i \<in> set ?labels"
  proof
    assume "i \<in> se_entity_id ` set ?es"
    then obtain e where "e \<in> set ?es" "i = se_entity_id e" by blast
    with composition_entry(2) [OF np] sm show "i \<in> set ?labels" by metis
  next
    assume "i \<in> set ?labels"
    let ?e = "reference_entry clock ms (i, ''composition'', sc)"
    have key: "entry_key ?e = (i, ''composition'', sc)" by simp
    have "?e \<in> set (fst (flush np_mean clock (process_batch ms new_aggregator)))"
      unfolding flush_set [OF np] using sm \<open>i \<in> set ?labels\<close> by blast
    moreover have "is_composition sc ?e" "se_entity_id ?e = i"
      using key by (auto simp: entry_key_def is_composition_def simp del: entry_key_reference)
    ultimately show "i \<in> se_entity_id ` set ?es" by force
  qed
qed

section \<open>Ranges\<close>

lemma samples_from_placements: "x \<in> set (samples ms k) \<Longrightarrow> \<exists>m\<in>set ms. \<exists>pl\<in>set (players m). x = placement pl"
  by (auto simp: samples_def match_samples_def split: prod.splits if_splits)

lemma reference_entry_bounds:
  assumes ne: "samples ms k \<noteq> []"
    and pl: "\<forall>m\<in>set ms. \<forall>pl\<in>set (players m). 1 \<le> placement pl \<and> placement pl \<le> 8"
  shows "0 \<le> se_win_rate (reference_entry clock ms k) \<and> se_win_rate (reference_entry clock ms k) \<le> 1
    \<and> 1 \<le> se_avg_placement (reference_entry clock ms k)
    \<and> se_avg_placement (reference_entry clock ms k) \<le> 8
    \<and> 0 < se_play_rate (reference_entry clock ms k) \<and> se_play_rate (reference_entry clock ms k) \<le> 1
    \<and> 0 < se_sample_size (reference_entry clock ms k)"
proof -
  obtain eid etype p t r where k: "k = (eid, etype, p, t, r)" by (cases k)
  have "\<forall>x\<in>set (samples ms k). 1 \<le> x \<and> x \<le> 8"
    using pl samples_from_placements by blast
  from mean_bounds [OF ne this]
  have avg: "1 \<le> se_avg_placement (reference_entry clock ms k)"
    "se_avg_placement (reference_entry clock ms k) \<le> 8"
    by (simp_all add: k reference_entry_def Let_def)
  have win: "0 \<le> se_win_rate (reference_entry clock ms k)" "se_win_rate (reference_entry clock ms k) \<le> 1"
    by (simp_all add: k reference_entry_def Let_def top4_def divide_le_eq)
  have "0 < boards ms (p, t, r)" using boards_pos ne by (simp add: k)
  then have "0 < se_play_rate (reference_entry clock ms k)"
    using ne by (simp add: k reference_entry_def Let_def)
  moreover have "se_play_rate (reference_entry clock ms k) \<le> 1"
    by (simp add: k reference_entry_def Let_def)
  ultimately show ?thesis using avg win ne by simp
qed

lemma champion_ids_no_comp: "list_all (\<lambda>c. take 5 c \<noteq> ''comp:'') CHAMPION_IDS"
  by code_simp

lemma composition_label_prefix: "take 5 (composition_label us) = ''comp:''"
  by (simp add: composition_label_def Let_def split: list.splits)

section \<open>Properties\<close>

text \<open>The data the witnesses run on: one match of two boards, and NumPy's mean as the exact mean.\<close>

definition exact_mean :: "py_float list \<Rightarrow> py_float" where
  "exact_mean xs = sum_list xs / of_nat (length xs)"

definition sample_board :: "int \<Rightarrow> player_result" where
  "sample_board plc = \<lparr>puuid = ''p'', placement = plc,
     units = [\<lparr>character_id = ''TFT17_Bard'', unit_tier = 1,
       items = [''TFT_Item_BlueBuff'', ''TFT_Item_BlueBuff'']\<rparr>],
     augments = [], rounds_played = 30\<rparr>"

definition sample_match :: match_event where
  "sample_match = \<lparr>match_id = ''m1'', region = ''NA'', patch = ''17.3'', tier = ''GOLD'',
     players = [sample_board 1, sample_board 5], clocks = [], timestamp = 0\<rparr>"

lemma exact_mean_spec: "mean_spec exact_mean"
  by (simp add: mean_spec_def exact_mean_def)

text \<open>
  C7. Aggregation computes the reference statistics. Folding any batch of matches into a fresh
  aggregator and flushing it emits exactly one entry per entity, entity type, patch, tier and
  region that has a sample, with the reference sample size, win rate (share of top-four
  placements), average placement and play rate, and resets the aggregator. NumPy's mean is
  taken to be the arithmetic mean of a non-empty array.
\<close>

theorem flush_reference:
  assumes "mean_spec np_mean"
  shows "set (fst (flush np_mean clock (process_batch ms new_aggregator)))
      = reference_entry clock ms ` {k. samples ms k \<noteq> []}
    \<and> distinct (map entry_key (fst (flush np_mean clock (process_batch ms new_aggregator))))
    \<and> snd (flush np_mean clock (process_batch ms new_aggregator)) = new_aggregator"
proof (intro conjI)
  show "snd (flush np_mean clock (process_batch ms new_aggregator)) = new_aggregator"
    by (simp add: flush_def new_aggregator_def)
qed (simp_all only: flush_set [OF assms] flush_distinct [OF assms])

theorem flush_reference_witness:
  "reference_entry [] [sample_match] (''TFT17_Bard'', ''champion'', ''17.3'', ''GOLD'', ''NA'')
     \<in> set (fst (flush exact_mean [] (process_batch [sample_match] new_aggregator)))
   \<and> se_win_rate (reference_entry [] [sample_match]
       (''TFT17_Bard'', ''champion'', ''17.3'', ''GOLD'', ''NA'')) = 1 / 2"
proof -
  let ?k = "(''TFT17_Bard'', ''champion'', ''17.3'', ''GOLD'', ''NA'')"
  have s: "samples [sample_match] ?k = [1, 5]"
    by code_simp
  then have "se_win_rate (reference_entry [] [sample_match] ?k) = 1 / 2"
    by (simp add: reference_entry_def top4_def)
  moreover have "reference_entry [] [sample_match] ?k
      \<in> reference_entry [] [sample_match] ` {k. samples [sample_match] k \<noteq> []}"
    by (rule imageI) (simp add: s)
  ultimately show ?thesis
    using flush_reference [OF exact_mean_spec, of "[]" "[sample_match]"] by (simp only:)
qed



text \<open>
  An item is counted once per board: the number of samples an item collects is the number
  of boards on which some unit holds it, however many copies the board has.
\<close>

theorem item_once_per_board:
  "length (dict_get (buffers (process_batch ms new_aggregator)) (it, ''item'', sc) [])
   = length (filter (\<lambda>pl. it \<in> set (board_items pl)) (scope_boards ms sc))"
proof -
  have "(\<Sum>pl\<leftarrow>pls. board_count pl it ''item'') = length (filter (\<lambda>pl. it \<in> set (board_items pl)) pls)"
    for pls
    by (induction pls) (simp_all add: board_count_def)
  then show ?thesis
    by (simp add: buf_process_batch new_aggregator_def samples_scope)
qed

text \<open>
  C35. Every emitted statistic is in range: with placements between 1 and 8, a win rate lies in
  \<open>[0, 1]\<close>, an average placement in \<open>[1, 8]\<close>, a play rate in \<open>(0, 1]\<close>, and no entry
  has an empty sample.
\<close>

theorem flush_bounds:
  assumes "mean_spec np_mean"
    and "\<forall>m\<in>set ms. \<forall>pl\<in>set (players m). 1 \<le> placement pl \<and> placement pl \<le> 8"
    and "e \<in> set (fst (flush np_mean clock (process_batch ms new_aggregator)))"
  shows "0 \<le> se_win_rate e \<and> se_win_rate e \<le> 1 \<and> 1 \<le> se_avg_placement e \<and> se_avg_placement e \<le> 8
    \<and> 0 < se_play_rate e \<and> se_play_rate e \<le> 1 \<and> 0 < se_sample_size e"
proof -
  obtain k where "samples ms k \<noteq> []" "e = reference_entry clock ms k"
    using assms(3) unfolding flush_set [OF assms(1)] by blast
  with reference_entry_bounds [OF _ assms(2)] show ?thesis by simp
qed

theorem flush_bounds_witness:
  "\<exists>e\<in>set (fst (flush exact_mean [] (process_batch [sample_match] new_aggregator))).
     0 \<le> se_win_rate e \<and> se_win_rate e \<le> 1 \<and> 1 \<le> se_avg_placement e \<and> se_avg_placement e \<le> 8
     \<and> 0 < se_play_rate e \<and> se_play_rate e \<le> 1 \<and> 0 < se_sample_size e"
proof -
  let ?es = "fst (flush exact_mean [] (process_batch [sample_match] new_aggregator))"
  have "\<not> List.null ?es" by code_simp
  then obtain e where e: "e \<in> set ?es" by (cases ?es) auto
  have "\<forall>m\<in>set [sample_match]. \<forall>pl\<in>set (players m). 1 \<le> placement pl \<and> placement pl \<le> 8"
    by (simp add: sample_match_def sample_board_def)
  from flush_bounds [OF exact_mean_spec this e] e show ?thesis by blast
qed

text \<open>
  A composition is named after its carry: the label of a non-empty board is \<open>comp:\<close>
  followed by the id of a unit with the greatest (item count, cost, id), or by \<open>Fast9\<close> when
  that unit holds fewer than two items and at least three units cost five; and no label is
  the id of a champion of the roster, so a composition never collides with a champion in the
  store, which keys on the entity id alone.
\<close>

theorem composition_label_carry:
  assumes "us \<noteq> []"
  shows "\<exists>c\<in>set us. (\<forall>u\<in>set us. carry_key u \<le> carry_key c) \<and>
      composition_label us = ''comp:'' @
        (if length (items c) < 2 \<and> 3 \<le> length (filter (\<lambda>u. 5 \<le> unit_cost0 u) us)
         then ''Fast9'' else character_id c)
      \<and> composition_label us \<notin> set CHAMPION_IDS"
proof -
  obtain u us' where us: "us = u # us'" using assms by (cases us) auto
  let ?c = "py_max carry_key u us'"
  have "?c \<in> set us" "\<forall>v\<in>set us. carry_key v \<le> carry_key ?c"
    using py_max_in [of carry_key u us'] py_max_ge [of _ u us' carry_key] by (auto simp: us)
  moreover have "composition_label us = ''comp:'' @
        (if length (items ?c) < 2 \<and> 3 \<le> length (filter (\<lambda>u. 5 \<le> unit_cost0 u) us)
         then ''Fast9'' else character_id ?c)"
    by (simp add: composition_label_def us Let_def)
  moreover have "composition_label us \<notin> set CHAMPION_IDS"
    using champion_ids_no_comp composition_label_prefix [of us] by (auto simp: list_all_iff)
  ultimately show ?thesis by blast
qed

theorem composition_label_carry_witness:
  "composition_label (units (sample_board 1)) = ''comp:TFT17_Bard''
   \<and> composition_label (units (sample_board 1)) \<notin> set CHAMPION_IDS"
proof -
  have "composition_label (units (sample_board 1)) = ''comp:TFT17_Bard''" by code_simp
  moreover have "units (sample_board 1) \<noteq> []" by (simp add: sample_board_def)
  ultimately show ?thesis using composition_label_carry [of "units (sample_board 1)"] by blast
qed

end
