(* ===== verification/Metrics.thy ===== *)
theory Metrics
  imports Prelude
begin

text \<open>
  The metrics exporter, \<open>common/metrics.py\<close>: named counters and gauges, the text rendering
  and the two routes of the metrics HTTP server. \<open>show_float\<close> stands for Python's rendering
  of a float in an f-string.
\<close>

section \<open>State and operations\<close>

record metrics =
  namespace :: string
  counters :: "(string, py_float) dict"
  gauges :: "(string, py_float) dict"

definition new_metrics :: "string \<Rightarrow> metrics" where
  "new_metrics ns = \<lparr>namespace = ns, counters = [], gauges = []\<rparr>"

definition inc :: "string \<Rightarrow> py_float \<Rightarrow> metrics \<Rightarrow> metrics" where
  "inc name amount m = m\<lparr>counters := AList.update name (dict_get (counters m) name 0 + amount) (counters m)\<rparr>"

definition set_gauge :: "string \<Rightarrow> py_float \<Rightarrow> metrics \<Rightarrow> metrics" where
  "set_gauge name value m = m\<lparr>gauges := AList.update name value (gauges m)\<rparr>"

definition render_lines :: "(py_float \<Rightarrow> string) \<Rightarrow> string \<Rightarrow> string \<Rightarrow> (string, py_float) dict \<Rightarrow> string list" where
  "render_lines show_float ns kind d =
     concat (map (\<lambda>(name, val).
       [''# TYPE '' @ ns @ ''_'' @ name @ '' '' @ kind,
        ns @ ''_'' @ name @ '' '' @ show_float val]) (sort d))"

definition join_lines :: "string list \<Rightarrow> string" where
  "join_lines ls = concat (map (\<lambda>l. l @ [CHR 0x0A]) ls)"

definition render :: "(py_float \<Rightarrow> string) \<Rightarrow> metrics \<Rightarrow> string" where
  "render show_float m =
     (let ls = render_lines show_float (namespace m) ''counter'' (counters m)
             @ render_lines show_float (namespace m) ''gauge'' (gauges m)
      in if ls = [] then [CHR 0x0A] else join_lines ls)"

text \<open>\<open>Handler.do_GET\<close>: status, content type header and body.\<close>

definition do_GET :: "(py_float \<Rightarrow> string) \<Rightarrow> string \<Rightarrow> metrics \<Rightarrow> nat \<times> string option \<times> string" where
  "do_GET show_float path m =
     (if path = ''/health'' then (200, None, ''ok'')
      else if path = ''/metrics'' then (200, Some ''text/plain; version=0.0.4'', render show_float m)
      else (404, None, []))"

section \<open>Lemmas\<close>

definition counter :: "metrics \<Rightarrow> string \<Rightarrow> py_float" where
  "counter m name = dict_get (counters m) name 0"

lemma counter_inc [simp]:
  "counter (inc name a m) name' = counter m name' + (if name' = name then a else 0)"
  by (simp add: counter_def inc_def)

lemma counter_set_gauge [simp]: "counter (set_gauge name v m) name' = counter m name'"
  by (simp add: counter_def set_gauge_def)

interpretation counter_loop: accumulator "(+)" "0 :: real" "\<lambda>(name, a). inc name a" counter
  "\<lambda>(name, a) name'. if name' = name then a else 0"
  by unfold_locales (auto split: prod.splits)

end
