(* ===== verification/Py_Str.thy ===== *)
theory Py_Str
  imports Prelude
begin

text \<open>
  The string methods the program uses, on strings of Latin-1 characters (Isabelle's
  \<^typ>\<open>char\<close> is one byte): \<open>strip\<close>, \<open>lower\<close>, \<open>split\<close>, \<open>partition\<close>, \<open>replace\<close> of a
  single character, \<open>in\<close>, \<open>startswith\<close>, the regular-expression class \<open>\w\<close>, and the decimal
  conversions \<open>str(n)\<close> and \<open>int(s)\<close> with the sign and the underscores Python's \<open>int\<close> accepts.
\<close>

section \<open>Character classes\<close>

abbreviation code :: "char \<Rightarrow> nat" where "code c \<equiv> of_char c"

definition in_ranges :: "(nat \<times> nat) list \<Rightarrow> char \<Rightarrow> bool" where
  "in_ranges rs c = list_ex (\<lambda>(a, b). a \<le> code c \<and> code c \<le> b) rs"

definition is_space :: "char \<Rightarrow> bool" where
  "is_space = in_ranges [(0x09, 0x0D), (0x1C, 0x20), (0x85, 0x85), (0xA0, 0xA0)]"

definition is_word :: "char \<Rightarrow> bool" where
  "is_word = in_ranges [(0x30, 0x39), (0x41, 0x5A), (0x5F, 0x5F), (0x61, 0x7A), (0xAA, 0xAA),
     (0xB2, 0xB3), (0xB5, 0xB5), (0xB9, 0xBA), (0xBC, 0xBE), (0xC0, 0xD6), (0xD8, 0xF6), (0xF8, 0xFF)]"

definition is_upper :: "char \<Rightarrow> bool" where
  "is_upper = in_ranges [(0x41, 0x5A), (0xC0, 0xD6), (0xD8, 0xDE)]"

definition is_ascii_alnum :: "char \<Rightarrow> bool" where
  "is_ascii_alnum = in_ranges [(0x30, 0x39), (0x41, 0x5A), (0x61, 0x7A)]"

definition is_control :: "char \<Rightarrow> bool" where
  "is_control = in_ranges [(0x00, 0x1F), (0x7F, 0x7F)]"

definition lower_char :: "char \<Rightarrow> char" where
  "lower_char c = (if is_upper c then char_of (code c + 32) else c)"

section \<open>String methods\<close>

definition lower :: "string \<Rightarrow> string" where
  "lower s = map lower_char s"

definition strip :: "string \<Rightarrow> string" where
  "strip s = rev (dropWhile is_space (rev (dropWhile is_space s)))"

fun contains :: "string \<Rightarrow> string \<Rightarrow> bool" where
  "contains pat [] = (pat = [])"
| "contains pat (c # s) = (prefix pat (c # s) \<or> contains pat s)"

fun split_on :: "char \<Rightarrow> string \<Rightarrow> string list" where
  "split_on sep [] = [[]]"
| "split_on sep (c # s) =
     (if c = sep then [] # split_on sep s
      else (case split_on sep s of [] \<Rightarrow> [[c]] | w # ws \<Rightarrow> (c # w) # ws))"

fun join_with :: "string \<Rightarrow> string list \<Rightarrow> string" where
  "join_with sep [] = []"
| "join_with sep [w] = w"
| "join_with sep (w # ws) = w @ sep @ join_with sep ws"

definition replace_char :: "char \<Rightarrow> string \<Rightarrow> string \<Rightarrow> string" where
  "replace_char a b s = concat (map (\<lambda>c. if c = a then b else [c]) s)"

text \<open>\<open>s.partition(c)\<close> with a one-character separator.\<close>

definition partition_at :: "char \<Rightarrow> string \<Rightarrow> string \<times> string \<times> string" where
  "partition_at sep s =
     (let a = takeWhile (\<lambda>c. c \<noteq> sep) s; r = dropWhile (\<lambda>c. c \<noteq> sep) s
      in (a, take 1 r, drop 1 r))"

lemma contains_sublist: "contains pat s \<longleftrightarrow> sublist pat s"
proof (induction s)
  case Nil
  show ?case by auto
next
  case (Cons c s)
  then show ?case by (simp add: sublist_Cons_right)
qed

lemma split_on_nonempty: "split_on sep s \<noteq> []"
  by (induction s) (auto split: list.splits)

lemma split_on_no_sep: "w \<in> set (split_on sep s) \<Longrightarrow> sep \<notin> set w"
  by (induction s arbitrary: w) (auto split: list.splits if_splits)

lemma split_on_set: "w \<in> set (split_on sep s) \<Longrightarrow> set w \<subseteq> set s"
proof (induction s arbitrary: w)
  case (Cons c s)
  obtain x xs where "split_on sep s = x # xs" using split_on_nonempty [of sep s] by (cases "split_on sep s") auto
  with Cons show ?case by (fastforce split: if_splits)
qed simp

lemma join_split: "join_with [sep] (split_on sep s) = s"
proof (induction s)
  case Nil
  show ?case by simp
next
  case (Cons c s)
  then show ?case
    by (cases "split_on sep s" rule: list.exhaust; cases "tl (split_on sep s)")
      (auto simp: split_on_nonempty)
qed

lemma partition_at_concat: "(case partition_at sep s of (a, b, c) \<Rightarrow> a @ b @ c) = s"
  by (simp add: partition_at_def Let_def)

lemma length_strip: "length (strip s) \<le> length s"
proof -
  have "length (strip s) \<le> length (dropWhile is_space s)"
    by (metis length_dropWhile_le length_rev strip_def)
  then show ?thesis using length_dropWhile_le [of is_space s] by linarith
qed

lemma dropWhile_suffix: "\<exists>a. s = a @ dropWhile P s"
  by (metis takeWhile_dropWhile_id)

lemma strip_sublist: "sublist (strip s) s"
proof -
  obtain a where a: "s = a @ dropWhile is_space s" using dropWhile_suffix by blast
  obtain b where "rev (dropWhile is_space s) = b @ dropWhile is_space (rev (dropWhile is_space s))"
    using dropWhile_suffix by blast
  then have "dropWhile is_space s = strip s @ rev b"
    by (metis rev_append rev_rev_ident strip_def)
  with a have "s = a @ strip s @ rev b" by simp
  then show ?thesis by (metis sublist_appendI)
qed

lemma strip_set: "c \<in> set (strip s) \<Longrightarrow> c \<in> set s"
  using set_mono_sublist [OF strip_sublist] by blast

lemma hd_strip: "strip s \<noteq> [] \<Longrightarrow> \<not> is_space (hd (strip s))"
proof -
  assume ne: "strip s \<noteq> []"
  let ?d = "dropWhile is_space s"
  have "?d \<noteq> []" using ne unfolding strip_def by (metis dropWhile.simps(1) rev.simps(1))
  then have hd: "\<not> is_space (hd ?d)" by (rule hd_dropWhile)
  obtain b where "rev ?d = b @ dropWhile is_space (rev ?d)" using dropWhile_suffix by blast
  then have "?d = strip s @ rev b" by (metis rev_append rev_rev_ident strip_def)
  then have "hd ?d = hd (strip s)" using ne by (metis hd_append2)
  with hd show ?thesis by simp
qed

lemma last_strip: "strip s \<noteq> [] \<Longrightarrow> \<not> is_space (last (strip s))"
proof -
  assume ne: "strip s \<noteq> []"
  then have "dropWhile is_space (rev (dropWhile is_space s)) \<noteq> []" by (simp add: strip_def)
  from hd_dropWhile [OF this] show ?thesis by (simp add: strip_def last_rev)
qed

lemma strip_id: "s \<noteq> [] \<Longrightarrow> \<not> is_space (hd s) \<Longrightarrow> \<not> is_space (last s) \<Longrightarrow> strip s = s"
proof -
  assume s: "s \<noteq> []" "\<not> is_space (hd s)" "\<not> is_space (last s)"
  then have "dropWhile is_space s = s" by (cases s) auto
  moreover have "dropWhile is_space (rev s) = rev s"
    using s by (cases s rule: rev_cases) auto
  ultimately show ?thesis by (simp add: strip_def)
qed

lemma strip_Nil [simp]: "strip [] = []"
  by (simp add: strip_def)

lemma strip_strip [simp]: "strip (strip s) = strip s"
  by (cases "strip s = []") (simp_all add: strip_id hd_strip last_strip)

section \<open>Decimal numbers\<close>

definition digit_char :: "nat \<Rightarrow> char" where
  "digit_char d = char_of (0x30 + d)"

definition is_digit :: "char \<Rightarrow> bool" where
  "is_digit = in_ranges [(0x30, 0x39)]"

fun show_nat :: "nat \<Rightarrow> string" where
  "show_nat n = (if n < 10 then [digit_char n] else show_nat (n div 10) @ [digit_char (n mod 10)])"

declare show_nat.simps [simp del]

definition show_int :: "int \<Rightarrow> string" where
  "show_int i = (if i < 0 then ''-'' @ show_nat (nat (- i)) else show_nat (nat i))"

text \<open>The flag says whether the character before was a digit.\<close>

fun int_digits :: "bool \<Rightarrow> int \<Rightarrow> string \<Rightarrow> int option" where
  "int_digits after acc [] = (if after then Some acc else None)"
| "int_digits after acc (c # s) =
     (if is_digit c then int_digits True (10 * acc + int (code c - 0x30)) s
      else if c = CHR ''_'' \<and> after then int_digits False acc s
      else None)"

definition py_int :: "string \<Rightarrow> int option" where
  "py_int s =
     (case s of
        [] \<Rightarrow> None
      | c # r \<Rightarrow> if c = CHR ''-'' then map_option uminus (int_digits False 0 r)
                 else if c = CHR ''+'' then int_digits False 0 r
                 else int_digits False 0 s)"

lemma code_digit_char: "d < 10 \<Longrightarrow> code (digit_char d) = 0x30 + d"
  by (simp add: digit_char_def)

lemma is_digit_digit_char: "d < 10 \<Longrightarrow> is_digit (digit_char d)"
  by (simp add: is_digit_def in_ranges_def code_digit_char)

lemma int_digits_snoc:
  "int_digits b acc s = Some v \<Longrightarrow> s \<noteq> [] \<Longrightarrow> d < 10 \<Longrightarrow>
   int_digits b acc (s @ [digit_char d]) = Some (10 * v + int d)"
proof (induction b acc s rule: int_digits.induct)
  case (1 after acc)
  then show ?case by simp
next
  case (2 after acc c s)
  then show ?case
    by (cases s) (auto simp: is_digit_digit_char code_digit_char split: if_splits)
qed

lemma show_nat_nonempty: "show_nat n \<noteq> []"
  by (subst show_nat.simps) simp

lemma int_digits_show_nat: "int_digits False 0 (show_nat n) = Some (int n)"
proof (induction n rule: less_induct)
  case (less n)
  show ?case
  proof (cases "n < 10")
    case True
    then show ?thesis by (subst show_nat.simps) (simp add: is_digit_digit_char code_digit_char)
  next
    case False
    then have "int_digits False 0 (show_nat (n div 10)) = Some (int (n div 10))"
      using less by simp
    from int_digits_snoc [OF this show_nat_nonempty, of "n mod 10"]
    have "int_digits False 0 (show_nat (n div 10) @ [digit_char (n mod 10)])
        = Some (10 * int (n div 10) + int (n mod 10))" by simp
    also have "10 * int (n div 10) + int (n mod 10) = int n" by (simp add: zdiv_int zmod_int)
    finally show ?thesis using False by (subst show_nat.simps) simp
  qed
qed

lemma show_nat_digits: "c \<in> set (show_nat n) \<Longrightarrow> is_digit c"
proof (induction n rule: less_induct)
  case (less n)
  show ?case
  proof (cases "n < 10")
    case True
    then show ?thesis using less.prems by (simp add: show_nat.simps [of n] is_digit_digit_char)
  next
    case False
    then have "is_digit c" if "c \<in> set (show_nat (n div 10))"
      using that by (intro less.IH [of "n div 10"]) simp_all
    with less.prems False show ?thesis by (auto simp: show_nat.simps [of n] is_digit_digit_char)
  qed
qed

lemma digit_not_special:
  "is_digit c \<Longrightarrow> \<not> is_space c \<and> c \<noteq> CHR ''-'' \<and> c \<noteq> CHR ''+'' \<and> c \<noteq> CHR ''_'' \<and> c \<noteq> CHR ''/''"
  by (auto simp: is_digit_def is_space_def in_ranges_def)

lemma show_int_parts:
  obtains (neg) ds where "show_int i = CHR ''-'' # ds" "ds = show_nat (nat (- i))" "i < 0"
  | (pos) "show_int i = show_nat (nat i)" "0 \<le> i"
  by (cases "i < 0") (auto simp: show_int_def)

lemma py_int_show_int: "py_int (show_int i) = Some i"
proof (cases i rule: show_int_parts)
  case (neg ds)
  then show ?thesis by (simp add: py_int_def int_digits_show_nat)
next
  case pos
  obtain c r where s: "show_nat (nat i) = c # r" using show_nat_nonempty by (cases "show_nat (nat i)") auto
  then have "is_digit c" using show_nat_digits [of c "nat i"] by simp
  then show ?thesis
    using pos s int_digits_show_nat [of "nat i"] digit_not_special [of c]
    by (simp add: py_int_def)
qed

lemma strip_show_int: "strip (show_int i) = show_int i"
proof (rule strip_id)
  show "show_int i \<noteq> []" by (simp add: show_int_def show_nat_nonempty)
  have d: "\<not> is_space c" if "c \<in> set (show_int i)" for c
    using that show_nat_digits digit_not_special
    by (auto simp: show_int_def is_space_def in_ranges_def split: if_splits)
  show "\<not> is_space (hd (show_int i))" "\<not> is_space (last (show_int i))"
    using \<open>show_int i \<noteq> []\<close> by (simp_all add: d)
qed

section \<open>Replacing and splitting\<close>

text \<open>\<open>s.replace(pat, new)\<close>, \<open>s.split()\<close> and \<open>s.isdigit()\<close>.\<close>

function replace_sub :: "string \<Rightarrow> string \<Rightarrow> string \<Rightarrow> string" where
  "replace_sub pat new [] = []"
| "replace_sub pat new (c # s) =
     (if pat \<noteq> [] \<and> prefix pat (c # s) then new @ replace_sub pat new (drop (length pat) (c # s))
      else c # replace_sub pat new s)"
  by pat_completeness auto
termination
  by (relation "measure (length \<circ> snd \<circ> snd)") auto

function split_ws :: "string \<Rightarrow> string list" where
  "split_ws s =
     (let r = dropWhile is_space s
      in if r = [] then [] else takeWhile (\<lambda>c. \<not> is_space c) r # split_ws (dropWhile (\<lambda>c. \<not> is_space c) r))"
  by pat_completeness auto
termination
proof (relation "measure length")
  fix s r
  assume r: "r = dropWhile is_space s" "r \<noteq> []"
  then have "\<not> is_space (hd r)" using hd_dropWhile [of is_space s] by simp
  with r(2) have "length (dropWhile (\<lambda>c. \<not> is_space c) r) < length r"
    by (cases r) (simp_all add: length_dropWhile_le le_imp_less_Suc)
  also have "length r \<le> length s" using r(1) length_dropWhile_le by simp
  finally show "(dropWhile (\<lambda>c. \<not> is_space c) r, s) \<in> measure length" by simp
qed simp

declare split_ws.simps [simp del]

definition isdigit :: "string \<Rightarrow> bool" where
  "isdigit s \<longleftrightarrow> s \<noteq> [] \<and> list_all (in_ranges [(0x30, 0x39), (0xB2, 0xB3), (0xB9, 0xB9)]) s"

end
