(* ===== verification/Offsets.thy ===== *)
theory Offsets
  imports Py_Str Proto Tft_Data
begin

text \<open>
  Consumer offsets and the subscriber threads of \<open>processor/main.py\<close>. A file system is a map
  from paths to contents; \<open>save\<close> is the write of a temporary file followed by the atomic
  rename, and \<open>save_states\<close> lists every file system a crash during \<open>save\<close> can leave behind.

  A partition's log on the broker is a list of payloads; \<open>BrokerClient.subscribe\<close> from an
  offset yields the payloads from there on with consecutive offsets. \<open>parse\<close> stands for
  \<open>MatchEvent.ParseFromString\<close> (\<open>None\<close> when it raises).
\<close>

section \<open>OffsetStore\<close>

type_synonym files = "string \<rightharpoonup> string"

text \<open>\<open>os.path.join\<close> with a relative second part.\<close>

definition path_join :: "string \<Rightarrow> string \<Rightarrow> string" where
  "path_join a b = (if a = [] \<or> last a = CHR ''/'' then a @ b else a @ ''/'' @ b)"

definition offset_path :: "string \<Rightarrow> string \<Rightarrow> string" where
  "offset_path dir prt = path_join dir (replace_char (CHR ''/'') ''_'' prt @ ''.offset'')"

definition load :: "string \<Rightarrow> string \<Rightarrow> files \<Rightarrow> int" where
  "load dir prt fs =
     (case fs (offset_path dir prt) of
        None \<Rightarrow> 0
      | Some text \<Rightarrow> (case py_int (strip text) of None \<Rightarrow> 0 | Some n \<Rightarrow> n))"

definition save :: "string \<Rightarrow> string \<Rightarrow> int \<Rightarrow> files \<Rightarrow> files" where
  "save dir prt offset fs =
     (let path = offset_path dir prt; tmp = path @ ''.tmp'';
          fs1 = fs(tmp \<mapsto> show_int offset)
      in (fs1(path := fs1 tmp))(tmp := None))"

definition save_states :: "string \<Rightarrow> string \<Rightarrow> int \<Rightarrow> files \<Rightarrow> files list" where
  "save_states dir prt offset fs =
     (let path = offset_path dir prt; tmp = path @ ''.tmp''; text = show_int offset
      in [fs] @ map (\<lambda>k. fs(tmp \<mapsto> take k text)) [0..<length text + 1] @ [save dir prt offset fs])"

definition partition_name :: "string \<Rightarrow> string \<Rightarrow> string" where
  "partition_name rgn tr = TOPIC_RAW_MATCHES @ ''/'' @ rgn @ ''/'' @ tr"

lemma path_neq_tmp: "offset_path dir p \<noteq> offset_path dir q @ ''.tmp''"
proof
  assume "offset_path dir p = offset_path dir q @ ''.tmp''"
  then have "last (offset_path dir p) = last (offset_path dir q @ ''.tmp'')" by (rule arg_cong)
  then show False by (simp add: offset_path_def path_join_def split: if_splits)
qed

lemma load_save:
  "load dir q (save dir p n fs) =
     (if offset_path dir q = offset_path dir p then n else load dir q fs)"
  using path_neq_tmp [of dir q p]
  by (auto simp: load_def save_def Let_def strip_show_int py_int_show_int)

lemma load_save_states:
  "st \<in> set (save_states dir p n fs) \<Longrightarrow>
   load dir q st = load dir q fs \<or> load dir q st = load dir q (save dir p n fs)"
  using path_neq_tmp [of dir q p]
  by (auto simp: save_states_def load_def Let_def)

section \<open>The subscriber thread\<close>

record subscriber =
  sub_files :: files
  sub_queue :: "(string \<times> int \<times> match_event) list" \<comment> \<open>what was put into \<open>incoming\<close>\<close>
  last_saved :: int

definition on_message ::
    "string \<Rightarrow> string \<Rightarrow> int \<Rightarrow> match_event \<Rightarrow> subscriber \<Rightarrow> subscriber" where
  "on_message dir prt offset event s =
     (let s1 = s\<lparr>sub_queue := sub_queue s @ [(prt, offset, event)]\<rparr>
      in if offset - last_saved s1 \<ge> 50
         then s1\<lparr>sub_files := save dir prt (offset + 1) (sub_files s1), last_saved := offset\<rparr>
         else s1)"

text \<open>
  One pass through the \<open>for\<close> loop: the messages of a subscription, from the given offset, that
  arrive before it ends (by an error of the stream, by a payload that does not parse, or by the
  stop flag).
\<close>

fun consume ::
    "('p \<Rightarrow> match_event option) \<Rightarrow> string \<Rightarrow> string \<Rightarrow> int \<Rightarrow> 'p list \<Rightarrow> subscriber \<Rightarrow> subscriber" where
  "consume parse dir prt offset [] s = s"
| "consume parse dir prt offset (payload # ps) s =
     (case parse payload of
        None \<Rightarrow> s
      | Some event \<Rightarrow>
          consume parse dir prt (offset + 1) ps (on_message dir prt offset event s))"

text \<open>
  One turn of the \<open>while\<close> loop: load the start offset, subscribe, consume the \<open>n\<close> messages
  that arrive.
\<close>

definition session ::
    "('p \<Rightarrow> match_event option) \<Rightarrow> 'p list \<Rightarrow> string \<Rightarrow> string \<Rightarrow> nat \<Rightarrow> subscriber \<Rightarrow> subscriber" where
  "session parse broker_log dir prt n s =
     (let start = load dir prt (sub_files s)
      in consume parse dir prt start (take n (drop (nat start) broker_log)) (s\<lparr>last_saved := start\<rparr>))"

definition subscribe_partition ::
    "('p \<Rightarrow> match_event option) \<Rightarrow> 'p list \<Rightarrow> string \<Rightarrow> string \<Rightarrow> nat list \<Rightarrow> subscriber \<Rightarrow> subscriber" where
  "subscribe_partition parse broker_log dir prt ns s =
     fold (session parse broker_log dir prt) ns s"

definition fresh_subscriber :: subscriber where
  "fresh_subscriber = \<lparr>sub_files = (\<lambda>_. None), sub_queue = [], last_saved = 0\<rparr>"

section \<open>No gaps, bounded replay\<close>

definition enqueued :: "('p \<Rightarrow> match_event option) \<Rightarrow> 'p list \<Rightarrow> string \<Rightarrow> nat \<Rightarrow> (string \<times> int \<times> match_event) set" where
  "enqueued parse broker_log prt hi =
     {(prt, int k, e) | k e. k < hi \<and> parse (broker_log ! k) = Some e}"

definition sub_inv ::
    "('p \<Rightarrow> match_event option) \<Rightarrow> 'p list \<Rightarrow> string \<Rightarrow> string \<Rightarrow> subscriber \<Rightarrow> nat \<Rightarrow> bool" where
  "sub_inv parse broker_log dir prt s hi \<longleftrightarrow>
     hi \<le> length broker_log
     \<and> (\<forall>k<hi. parse (broker_log ! k) \<noteq> None)
     \<and> set (sub_queue s) = enqueued parse broker_log prt hi
     \<and> 0 \<le> load dir prt (sub_files s)
     \<and> load dir prt (sub_files s) \<le> int hi
     \<and> int hi \<le> load dir prt (sub_files s) + 50"

lemma enqueued_Suc:
  "parse (broker_log ! k) = Some e \<Longrightarrow>
   insert (prt, int k, e) (enqueued parse broker_log prt k) = enqueued parse broker_log prt (Suc k)"
  by (auto simp: enqueued_def less_Suc_eq)

lemma on_message_inv:
  assumes inv: "sub_inv parse broker_log dir prt s hi" and k: "k \<le> hi" "k < length broker_log"
    and p: "parse (broker_log ! k) = Some e" and ls: "last_saved s \<le> load dir prt (sub_files s)"
    and ld: "load dir prt (sub_files s) \<le> int k"
  shows "sub_inv parse broker_log dir prt (on_message dir prt (int k) e s) (max hi (Suc k))"
    and "last_saved (on_message dir prt (int k) e s)
      \<le> load dir prt (sub_files (on_message dir prt (int k) e s))"
    and "load dir prt (sub_files (on_message dir prt (int k) e s)) \<le> int (Suc k)"
proof -
  let ?s = "on_message dir prt (int k) e s"
  have "set (sub_queue ?s) = insert (prt, int k, e) (set (sub_queue s))"
    by (simp add: on_message_def Let_def)
  also have "\<dots> = enqueued parse broker_log prt (max hi (Suc k))"
  proof (cases "k = hi")
    case True
    then show ?thesis using inv p enqueued_Suc [of parse broker_log k e] by (simp add: sub_inv_def)
  next
    case False
    then have "(prt, int k, e) \<in> enqueued parse broker_log prt hi"
      using k p by (auto simp: enqueued_def)
    with False k inv show ?thesis by (simp add: sub_inv_def insert_absorb)
  qed
  finally have q: "set (sub_queue ?s) = enqueued parse broker_log prt (max hi (Suc k))" .
  have parsed: "parse (broker_log ! j) \<noteq> None" if "j < max hi (Suc k)" for j
  proof (cases "j < hi")
    case True
    then show ?thesis using inv by (simp add: sub_inv_def)
  next
    case False
    then have "j = k" using that k by linarith
    then show ?thesis by (simp add: p)
  qed
  show "sub_inv parse broker_log dir prt ?s (max hi (Suc k))"
    using inv k ls ld q parsed by (auto simp: sub_inv_def on_message_def Let_def load_save max_def)
  show "last_saved ?s \<le> load dir prt (sub_files ?s)" "load dir prt (sub_files ?s) \<le> int (Suc k)"
    using ls ld by (simp_all add: on_message_def Let_def load_save)
qed

lemma consume_inv:
  assumes "sub_inv parse broker_log dir prt s hi" and "k \<le> hi"
    and "last_saved s \<le> load dir prt (sub_files s)" and "load dir prt (sub_files s) \<le> int k"
    and "prefix ps (drop k broker_log)"
  shows "sub_inv parse broker_log dir prt (consume parse dir prt (int k) ps s)
     (max hi (k + length (takeWhile (\<lambda>p. parse p \<noteq> None) ps)))"
  using assms
proof (induction ps arbitrary: k s hi)
  case Nil
  then show ?case by (simp add: max_absorb1)
next
  case (Cons payload ps)
  have len: "k < length broker_log" using Cons.prems(5) by (cases "k < length broker_log") auto
  then have d: "drop k broker_log = broker_log ! k # drop (Suc k) broker_log"
    by (simp add: Cons_nth_drop_Suc)
  then have pl: "payload = broker_log ! k" and ps: "prefix ps (drop (Suc k) broker_log)"
    using Cons.prems(5) by simp_all
  show ?case
  proof (cases "parse payload")
    case None
    then show ?thesis using Cons.prems by (simp add: max_absorb1)
  next
    case (Some e)
    note step = on_message_inv [OF Cons.prems(1,2) len Some [unfolded pl] Cons.prems(3,4)]
    have "max (max hi (Suc k)) (Suc (k + n)) = max hi (Suc (k + n))" for n by simp
    with Cons.IH [OF step(1) _ step(2,3) ps] Some show ?thesis by (simp add: add.commute [of "int k" 1])
  qed
qed

lemma session_inv:
  assumes inv: "sub_inv parse broker_log dir prt s hi"
  shows "\<exists>hi'\<ge>hi. sub_inv parse broker_log dir prt (session parse broker_log dir prt n s) hi'
    \<and> ((\<forall>p\<in>set broker_log. parse p \<noteq> None) \<and> length broker_log \<le> n \<longrightarrow> hi' = length broker_log)"
proof -
  let ?start = "load dir prt (sub_files s)" and ?s = "s\<lparr>last_saved := load dir prt (sub_files s)\<rparr>"
  let ?ps = "take n (drop (nat ?start) broker_log)"
  let ?hi = "max hi (nat ?start + length (takeWhile (\<lambda>p. parse p \<noteq> None) ?ps))"
  have "sub_inv parse broker_log dir prt ?s hi" "nat ?start \<le> hi" "0 \<le> ?start"
    using inv by (auto simp: sub_inv_def)
  with consume_inv [of parse broker_log dir prt ?s hi "nat ?start" ?ps]
  have r: "sub_inv parse broker_log dir prt (session parse broker_log dir prt n s) ?hi"
    by (simp add: session_def Let_def take_is_prefix)
  moreover have "?hi = length broker_log"
    if a: "\<forall>p\<in>set broker_log. parse p \<noteq> None" and n: "length broker_log \<le> n"
  proof -
    have "takeWhile (\<lambda>p. parse p \<noteq> None) ?ps = ?ps"
      using a by (auto simp: takeWhile_eq_all_conv dest: in_set_takeD in_set_dropD)
    then have "?hi = max hi (nat ?start + length ?ps)" by (simp only:)
    moreover have "length broker_log \<le> nat ?start + length ?ps" using n by auto
    ultimately have "length broker_log \<le> ?hi" by (simp only: max.coboundedI2)
    moreover have "?hi \<le> length broker_log" using r unfolding sub_inv_def by blast
    ultimately show ?thesis by (rule antisym [rotated])
  qed
  moreover have "hi \<le> ?hi" by (rule max.cobounded1)
  ultimately show ?thesis by blast
qed

lemma subscribe_inv:
  assumes "sub_inv parse broker_log dir prt s hi"
  shows "\<exists>hi'. sub_inv parse broker_log dir prt (subscribe_partition parse broker_log dir prt ns s) hi'
    \<and> ((\<forall>p\<in>set broker_log. parse p \<noteq> None) \<and> ns \<noteq> [] \<and> length broker_log \<le> last ns
        \<longrightarrow> hi' = length broker_log)"
proof (cases ns rule: rev_cases)
  case Nil
  then show ?thesis using assms by (auto simp: subscribe_partition_def)
next
  case (snoc ms n)
  have "\<exists>hi'. sub_inv parse broker_log dir prt (fold (session parse broker_log dir prt) ms s) hi'" for ms
    using assms
  proof (induction ms arbitrary: s hi)
    case Nil
    then show ?case by auto
  next
    case (Cons m ms)
    then show ?case using session_inv [OF Cons.prems, of m] by auto
  qed
  then obtain h where "sub_inv parse broker_log dir prt (fold (session parse broker_log dir prt) ms s) h"
    by blast
  from session_inv [OF this, of n] show ?thesis
    by (auto simp: snoc subscribe_partition_def)
qed

section \<open>Properties\<close>



text \<open>
  C36. Saving an offset is atomic. Whatever point of \<open>save\<close> a crash hits, loading any partition
  afterwards gives its old offset or, for the partition saved, the new one; and the files of
  the partitions of different regions and tiers are different files, so a save touches the
  offset of no other partition.
\<close>

theorem offset_save_atomic:
  assumes "st \<in> set (save_states dir (partition_name r t) n fs)"
    and "r \<in> set REGIONS" "r' \<in> set REGIONS" "t \<in> set TIERS" "t' \<in> set TIERS"
  shows "load dir (partition_name r' t') st = load dir (partition_name r' t') fs
    \<or> (r' = r \<and> t' = t \<and> load dir (partition_name r' t') st = n)"
proof -
  have "distinct (map (\<lambda>(r, t). replace_char (CHR ''/'') ''_'' (partition_name r t))
      (List.product REGIONS TIERS))" by code_simp
  then have "inj_on (\<lambda>(r, t). replace_char (CHR ''/'') ''_'' (partition_name r t))
      (set REGIONS \<times> set TIERS)" by (simp add: distinct_map)
  then have "offset_path dir (partition_name r' t') = offset_path dir (partition_name r t)
      \<longleftrightarrow> (r', t') = (r, t)"
    using assms(2-5) by (auto simp: offset_path_def path_join_def dest: inj_onD [of _ _ "(r', t')" "(r, t)"])
  with load_save_states [OF assms(1), of "partition_name r' t'"] show ?thesis
    by (auto simp: load_save split: if_splits)
qed

theorem offset_save_atomic_witness:
  "load ''d'' (partition_name ''NA'' ''IRON'')
     (save_states ''d'' (partition_name ''NA'' ''IRON'') 51 (\<lambda>_. None) ! 2) = 0
   \<and> load ''d'' (partition_name ''NA'' ''GOLD'')
     (save_states ''d'' (partition_name ''NA'' ''IRON'') 51 (\<lambda>_. None) ! 2) = 0"
proof -
  have m: "save_states ''d'' (partition_name ''NA'' ''IRON'') 51 (\<lambda>_. None) ! 2
      \<in> set (save_states ''d'' (partition_name ''NA'' ''IRON'') 51 (\<lambda>_. None))"
    by (rule nth_mem) (simp add: save_states_def Let_def)
  have "''NA'' \<in> set REGIONS" "''IRON'' \<in> set TIERS" "''GOLD'' \<in> set TIERS" by code_simp+
  then have "load ''d'' (partition_name ''NA'' ''GOLD'')
     (save_states ''d'' (partition_name ''NA'' ''IRON'') 51 (\<lambda>_. None) ! 2) = 0"
    using offset_save_atomic [OF m, of "''NA''" "''GOLD''"] by (auto simp: load_def)
  moreover have "load ''d'' (partition_name ''NA'' ''IRON'')
     (save_states ''d'' (partition_name ''NA'' ''IRON'') 51 (\<lambda>_. None) ! 2) = 0" by code_simp
  ultimately show ?thesis by simp
qed


end
