(* ===== verification/Processor.thy ===== *)
theory Processor
  imports Reorder Aggregator Metrics Offsets
begin

text \<open>
  The stream processor's main loop, \<open>processor/main.py\<close>: draining the incoming queue,
  merging clocks, reordering, aggregating and flushing. The subscriber threads that fill the
  queue are in the theory \<open>Offsets\<close>.

  \<open>MetaStoreClient.write\<close> is the parameter \<open>write\<close> on a metastore state: \<open>None\<close> when it
  raises, otherwise its Boolean answer. The times at which the loop reads the clock and the
  number of events that \<open>incoming.get(timeout=0.5)\<close> returns before \<open>queue.Empty\<close> are the
  environment of a turn.
\<close>

section \<open>State and operations\<close>

definition FLUSH_INTERVAL_SECS :: py_float where "FLUSH_INTERVAL_SECS = 60"
definition FLUSH_MATCH_THRESHOLD :: nat where "FLUSH_MATCH_THRESHOLD = 10000"

record processor =
  node_id :: string
  incoming :: "match_event list"
  p_reorder :: reorder_buffer
  p_aggregator :: aggregator
  p_metrics :: metrics
  merged_clock :: "(string, int) dict"
  flush_seq :: int

definition new_processor :: "string \<Rightarrow> processor" where
  "new_processor nid =
     \<lparr>node_id = nid, incoming = [], p_reorder = new_reorder_buffer 30,
      p_aggregator = new_aggregator, p_metrics = new_metrics ''processor'',
      merged_clock = [], flush_seq = 0\<rparr>"

definition merge_clock :: "match_event \<Rightarrow> (string, int) dict \<Rightarrow> (string, int) dict" where
  "merge_clock event c =
     fold (\<lambda>(node, sq) c. if sq > dict_get c node 0 then AList.update node sq c else c) (clocks event) c"

text \<open>The write loop of \<open>_flush\<close>: the number of accepted entries, the metrics and the store.\<close>

fun write_entries ::
    "(stat_entry \<Rightarrow> 'm \<Rightarrow> bool option \<times> 'm) \<Rightarrow> stat_entry list \<Rightarrow> nat \<Rightarrow> metrics \<Rightarrow> 'm \<Rightarrow> nat \<times> metrics \<times> 'm" where
  "write_entries write [] written mt store = (written, mt, store)"
| "write_entries write (e # es) written mt store =
     (case write e store of
        (None, store') \<Rightarrow> write_entries write es written (inc ''write_errors_total'' 1 mt) store'
      | (Some ok, store') \<Rightarrow> write_entries write es (if ok then written + 1 else written) mt store')"

text \<open>
  \<open>_flush\<close>, with the list of entries handed to the metastore as a further result (empty when
  there is nothing to flush); the time it returns is the clock reading at its end.
\<close>

definition do_flush ::
    "(py_float list \<Rightarrow> py_float) \<Rightarrow> (stat_entry \<Rightarrow> 'm \<Rightarrow> bool option \<times> 'm) \<Rightarrow>
     processor \<Rightarrow> 'm \<Rightarrow> (vector_clock \<times> stat_entry list) option \<times> processor \<times> 'm" where
  "do_flush np_mean write p store =
     (if agg_len (p_aggregator p) = 0 then (None, p, store)
      else
        let sq = flush_seq p + 1;
            clock = AList.update (node_id p) sq (merged_clock p)
        in case flush np_mean clock (p_aggregator p) of
             (entries, agg') \<Rightarrow>
               (case write_entries write entries 0 (p_metrics p) store of
                  (written, mt, store') \<Rightarrow>
                    (Some (clock, entries),
                     p\<lparr>flush_seq := sq, p_aggregator := agg',
                       p_metrics := set_gauge ''last_flush_entries'' (of_nat written)
                         (inc ''entries_written_total'' (of_nat written) (inc ''flushes_total'' 1 mt))\<rparr>,
                     store')))"

definition maybe_flush ::
    "(py_float list \<Rightarrow> py_float) \<Rightarrow> (stat_entry \<Rightarrow> 'm \<Rightarrow> bool option \<times> 'm) \<Rightarrow>
     py_float \<Rightarrow> py_float \<Rightarrow> py_float \<Rightarrow> processor \<Rightarrow> 'm \<Rightarrow>
     (vector_clock \<times> stat_entry list) option \<times> py_float \<times> processor \<times> 'm" where
  "maybe_flush np_mean write now end_time last_flush p store =
     (let due = now - last_flush \<ge> FLUSH_INTERVAL_SECS;
          big = agg_len (p_aggregator p) \<ge> FLUSH_MATCH_THRESHOLD
      in if \<not> (due \<or> big) then (None, last_flush, p, store)
         else (case do_flush np_mean write p store of (out, p', store') \<Rightarrow> (out, end_time, p', store')))"

text \<open>
  The inner loop of \<open>run\<close>: \<open>available\<close> is the number of events \<open>get\<close> returns before it
  raises \<open>queue.Empty\<close>, and \<open>now\<close> the time of the push.
\<close>

fun drain :: "nat \<Rightarrow> nat \<Rightarrow> py_float \<Rightarrow> processor \<Rightarrow> processor" where
  "drain drained 0 now p = p"
| "drain drained (Suc available) now p =
     (if drained < 5000 then
        (case incoming p of
           [] \<Rightarrow> p
         | event # rest \<Rightarrow>
             drain (drained + 1) available now
               (p\<lparr>incoming := rest, merged_clock := merge_clock event (merged_clock p),
                  p_reorder := push now event (p_reorder p)\<rparr>))
      else p)"

text \<open>What a turn of the loop meets, in the order in which it meets it.\<close>

record turn_env =
  arrivals :: "match_event list" \<comment> \<open>put into the queue by the subscribers before the turn\<close>
  available :: nat
  push_time :: py_float
  pop_time :: py_float
  check_time :: py_float
  end_time :: py_float

definition turn ::
    "(py_float list \<Rightarrow> py_float) \<Rightarrow> (stat_entry \<Rightarrow> 'm \<Rightarrow> bool option \<times> 'm) \<Rightarrow> turn_env \<Rightarrow>
     py_float \<Rightarrow> processor \<Rightarrow> 'm \<Rightarrow> (vector_clock \<times> stat_entry list) option \<times> py_float \<times> processor \<times> 'm" where
  "turn np_mean write env last_flush p store =
     (let p1 = drain 0 (available env) (push_time env) (p\<lparr>incoming := incoming p @ arrivals env\<rparr>)
      in case pop_ready (pop_time env) (p_reorder p1) of
           (ready, rb) \<Rightarrow>
             (let p2 = p1\<lparr>p_reorder := rb\<rparr>;
                  p3 = (if ready \<noteq> []
                        then p2\<lparr>p_aggregator := process_batch ready (p_aggregator p2),
                                p_metrics := inc ''matches_processed_total'' (of_nat (length ready)) (p_metrics p2)\<rparr>
                        else p2);
                  p4 = p3\<lparr>p_metrics := set_gauge ''reorder_buffer_size'' (of_nat (rb_len (p_reorder p3))) (p_metrics p3)\<rparr>
              in maybe_flush np_mean write (check_time env) (end_time env) last_flush p4 store))"

text \<open>A run: the flushes in order, then the loop's locals.\<close>

primrec run_loop ::
    "(py_float list \<Rightarrow> py_float) \<Rightarrow> (stat_entry \<Rightarrow> 'm \<Rightarrow> bool option \<times> 'm) \<Rightarrow> turn_env list \<Rightarrow>
     py_float \<Rightarrow> processor \<Rightarrow> 'm \<Rightarrow> (vector_clock \<times> stat_entry list) list \<times> py_float \<times> processor \<times> 'm" where
  "run_loop np_mean write [] last_flush p store = ([], last_flush, p, store)"
| "run_loop np_mean write (env # envs) last_flush p store =
     (case turn np_mean write env last_flush p store of
        (out, lf, p', store') \<Rightarrow>
          (case run_loop np_mean write envs lf p' store' of
             (outs, r) \<Rightarrow> ((case out of None \<Rightarrow> outs | Some x \<Rightarrow> x # outs), r)))"

section \<open>Lemmas\<close>

lemma merge_clock_raise: "merge_clock event c = raise_all (\<lambda>d k. dict_get d k 0) (\<lambda>d k v. AList.update k v d) (clocks event) c"
  by (simp add: merge_clock_def raise_all_def)

lemma merge_clock_get:
  "wf_clock (clocks event) \<Longrightarrow>
   dict_get (merge_clock event c) k 0 = max (dict_get c k 0) (dict_get (clocks event) k (dict_get c k 0))"
  by (simp add: merge_clock_raise wf_clock_def dict_register.raise_all_get)

lemma merge_clock_mono: "dict_get c k 0 \<le> dict_get (merge_clock event c) k 0"
  unfolding merge_clock_raise by (rule dict_register.raise_all_mono)

definition taken :: "nat \<Rightarrow> nat \<Rightarrow> processor \<Rightarrow> nat" where
  "taken drained av p = min (min av (5000 - drained)) (length (incoming p))"

lemma drain_spec:
  "drain drained av now p =
     p\<lparr>incoming := drop (taken drained av p) (incoming p),
       merged_clock := fold merge_clock (take (taken drained av p) (incoming p)) (merged_clock p),
       p_reorder := snd (buf_run push pop_ready (map (Put now) (take (taken drained av p) (incoming p))) (p_reorder p))\<rparr>"
proof (induction drained av now p rule: drain.induct)
  case (1 drained now p)
  then show ?case by (simp add: taken_def)
next
  case (2 drained av now p)
  show ?case
  proof (cases "drained < 5000 \<and> incoming p \<noteq> []")
    case True
    then obtain e es where i: "incoming p = e # es" by (cases "incoming p") auto
    let ?p = "p\<lparr>incoming := es, merged_clock := merge_clock e (merged_clock p),
                p_reorder := push now e (p_reorder p)\<rparr>"
    have t: "taken drained (Suc av) p = Suc (taken (drained + 1) av ?p)"
      using True i by (simp add: taken_def)
    from True i "2.IH" [of e es] show ?thesis by (simp add: t i)
  next
    case False
    then show ?thesis by (cases "incoming p") (auto simp: taken_def)
  qed
qed

lemma run_puts: "fst (buf_run put take_out (map (Put now) es) s) = []"
  by (induction es arbitrary: s) simp_all

lemma run_append_take:
  "buf_run put take_out (map (Put now) es @ [Take t]) s
     = take_out t (snd (buf_run put take_out (map (Put now) es) s))"
  by (induction es arbitrary: s) (simp_all split: prod.splits)

lemma put_events_puts [simp]: "put_events (map (Put now) es) = mset es"
  by (induction es) simp_all

lemma put_events_append [simp]: "put_events (xs @ ys) = put_events xs + put_events ys"
  by (induction xs rule: put_events.induct) simp_all

context max_register
begin

lemma raise_all_ge: "(k, v) \<in> set kvs \<Longrightarrow> v \<le> rd (raise_all rd wr kvs s) k"
proof (induction kvs arbitrary: s)
  case Nil
  then show ?case by simp
next
  case (Cons p kvs)
  obtain n w where p: "p = (n, w)" by (cases p)
  let ?s = "if w > rd s n then wr s n w else s"
  show ?case
  proof (cases "(k, v) = p")
    case True
    then have "v \<le> rd ?s k" using p by (simp add: raise_step)
    also have "\<dots> \<le> rd (raise_all rd wr kvs ?s) k" by (rule raise_all_mono)
    finally show ?thesis by (simp add: p raise_all_Cons)
  next
    case False
    then have "(k, v) \<in> set kvs" using Cons.prems by simp
    from Cons.IH [OF this, of ?s] show ?thesis by (simp only: p raise_all_Cons)
  qed
qed

end

text \<open>A clock covers an event when it is at least the event's clock at every node.\<close>

definition covered :: "(string, int) dict \<Rightarrow> match_event \<Rightarrow> bool" where
  "covered c e \<longleftrightarrow> (\<forall>(k, v)\<in>set (clocks e). v \<le> dict_get c k 0)"

lemma covered_merge: "covered (merge_clock e c) e"
  by (auto simp: covered_def merge_clock_raise intro: dict_register.raise_all_ge)

lemma merge_all_mono: "dict_get c k 0 \<le> dict_get (fold merge_clock es c) k 0"
  by (induction es arbitrary: c) (auto intro: order_trans [OF merge_clock_mono])

lemma covered_mono: "covered c e \<Longrightarrow> (\<And>k. dict_get c k 0 \<le> dict_get c' k 0) \<Longrightarrow> covered c' e"
  unfolding covered_def by (fastforce intro: order_trans)

lemma covered_merge_all: "e \<in> set es \<Longrightarrow> covered (fold merge_clock es c) e"
proof (induction es arbitrary: c)
  case Nil
  then show ?case by simp
next
  case (Cons x es)
  then show ?case
    using covered_mono [OF covered_merge [of x c] merge_all_mono] by auto
qed

lemma write_entries_spec: "\<exists>n mt' st'. write_entries write es written mt store = (n, mt', st')"
  by (metis surj_pair)

definition flush_outcome ::
    "(py_float list \<Rightarrow> py_float) \<Rightarrow> (vector_clock \<times> stat_entry list) option \<Rightarrow> processor \<Rightarrow> processor \<Rightarrow> bool" where
  "flush_outcome np_mean out p p' \<longleftrightarrow>
     (case out of
        None \<Rightarrow> p_aggregator p' = p_aggregator p \<and> flush_seq p' = flush_seq p
      | Some (c, es) \<Rightarrow>
          agg_len (p_aggregator p) \<noteq> 0 \<and> flush_seq p' = flush_seq p + 1
          \<and> c = AList.update (node_id p) (flush_seq p + 1) (merged_clock p)
          \<and> es = fst (flush np_mean c (p_aggregator p)) \<and> p_aggregator p' = new_aggregator)"

lemma maybe_flush_spec:
  assumes "maybe_flush np_mean write now fin lf p store = (out, lf', p', store')"
  shows "flush_outcome np_mean out p p' \<and> node_id p' = node_id p \<and> incoming p' = incoming p
    \<and> merged_clock p' = merged_clock p \<and> p_reorder p' = p_reorder p"
  using assms
  by (auto simp: maybe_flush_def do_flush_def flush_outcome_def flush_def new_aggregator_def Let_def
      split: if_splits prod.splits)

lemma turn_spec:
  assumes "turn np_mean write env lf p store = (out, lf', p', store')" and "rb_inv (p_reorder p)"
  shows "\<exists>es ready p1.
      incoming p @ arrivals env = es @ incoming p'
    \<and> mset ready + pending (p_reorder p') = pending (p_reorder p) + mset es \<and> rb_inv (p_reorder p')
    \<and> merged_clock p' = fold merge_clock es (merged_clock p) \<and> node_id p' = node_id p
    \<and> p_aggregator p1 = process_batch ready (p_aggregator p) \<and> flush_seq p1 = flush_seq p
    \<and> node_id p1 = node_id p \<and> merged_clock p1 = merged_clock p' \<and> flush_outcome np_mean out p1 p'"
proof -
  let ?p0 = "p\<lparr>incoming := incoming p @ arrivals env\<rparr>"
  let ?n = "taken 0 (available env) ?p0"
  let ?es = "take ?n (incoming p @ arrivals env)"
  let ?ops = "map (Put (push_time env)) ?es @ [Take (pop_time env)]"
  let ?p1 = "drain 0 (available env) (push_time env) ?p0"
  obtain ready rb where r: "pop_ready (pop_time env) (p_reorder ?p1) = (ready, rb)"
    by (cases "pop_ready (pop_time env) (p_reorder ?p1)")
  have run: "buf_run push pop_ready ?ops (p_reorder p) = (ready, rb)"
    using r unfolding run_append_take by (simp add: drain_spec del: take_append)
  have c: "mset ready + pending rb = pending (p_reorder p) + mset ?es" and i: "rb_inv rb"
    using reorder.run_conserves [OF assms(2) run] reorder.run_inv [OF assms(2) run] by simp_all
  let ?p2 = "?p1\<lparr>p_reorder := rb\<rparr>"
  let ?p3 = "if ready \<noteq> [] then ?p2\<lparr>p_aggregator := process_batch ready (p_aggregator ?p2),
      p_metrics := inc ''matches_processed_total'' (of_nat (length ready)) (p_metrics ?p2)\<rparr> else ?p2"
  define p4 where
    "p4 = ?p3\<lparr>p_metrics := set_gauge ''reorder_buffer_size'' (of_nat (rb_len (p_reorder ?p3))) (p_metrics ?p3)\<rparr>"
  have m: "maybe_flush np_mean write (check_time env) (end_time env) lf p4 store = (out, lf', p', store')"
    using assms(1) r by (simp add: turn_def Let_def p4_def)
  note f = maybe_flush_spec [OF m]
  have a: "p_aggregator p4 = process_batch ready (p_aggregator p)" "flush_seq p4 = flush_seq p"
    "incoming p4 = drop ?n (incoming p @ arrivals env)" "node_id p4 = node_id p"
    "merged_clock p4 = fold merge_clock ?es (merged_clock p)" "p_reorder p4 = rb"
    by (simp_all add: p4_def drain_spec process_batch_def)
  have "incoming p @ arrivals env = ?es @ incoming p'" using f a(3) by (metis append_take_drop_id)
  with a f c i show ?thesis by metis
qed

section \<open>The run invariant\<close>

definition proc_inv :: "processor \<Rightarrow> match_event list \<Rightarrow> bool" where
  "proc_inv p cur \<longleftrightarrow>
     rb_inv (p_reorder p) \<and> p_aggregator p = process_batch cur new_aggregator
     \<and> (\<forall>e. e \<in># pending (p_reorder p) + mset cur \<longrightarrow> covered (merged_clock p) e)"

definition flush_matches :: "(py_float list \<Rightarrow> py_float) \<Rightarrow> string \<Rightarrow> vector_clock \<times> stat_entry list \<Rightarrow> match_event list \<Rightarrow> bool" where
  "flush_matches np_mean nid = (\<lambda>(c, es) ms.
     ms \<noteq> [] \<and> es = fst (flush np_mean c (process_batch ms new_aggregator))
     \<and> (\<forall>m\<in>set ms. \<forall>(k, v)\<in>set (clocks m). k \<noteq> nid \<longrightarrow> v \<le> dict_get c k 0))"

lemma turn_inv:
  assumes t: "turn np_mean write env lf p store = (out, lf', p', store')" and inv: "proc_inv p cur"
  shows "\<exists>sent cur'. proc_inv p' cur' \<and> node_id p' = node_id p
    \<and> (case out of None \<Rightarrow> sent = [] | Some x \<Rightarrow> flush_matches np_mean (node_id p) x sent)
    \<and> mset sent + mset cur' + pending (p_reorder p') + mset (incoming p')
        = mset cur + pending (p_reorder p) + mset (incoming p) + mset (arrivals env)"
proof -
  have rb: "rb_inv (p_reorder p)" using inv by (simp add: proc_inv_def)
  from turn_spec [OF t rb] obtain es ready p1 where
    q: "incoming p @ arrivals env = es @ incoming p'"
    and c: "mset ready + pending (p_reorder p') = pending (p_reorder p) + mset es"
    and i: "rb_inv (p_reorder p')"
    and mc: "merged_clock p' = fold merge_clock es (merged_clock p)" and n: "node_id p' = node_id p"
    and a: "p_aggregator p1 = process_batch ready (p_aggregator p)"
    and n1: "node_id p1 = node_id p" "merged_clock p1 = merged_clock p'"
    and f: "flush_outcome np_mean out p1 p'" by blast
  let ?cur = "cur @ ready"
  have agg: "p_aggregator p1 = process_batch ?cur new_aggregator"
    using inv a by (simp add: proc_inv_def process_batch_def)
  have cov: "covered (merged_clock p') e" if e: "e \<in># pending (p_reorder p') + mset ?cur" for e
  proof -
    have "pending (p_reorder p') + mset ?cur = (pending (p_reorder p) + mset cur) + mset es"
      using c by (simp add: ac_simps)
    with e have "e \<in># pending (p_reorder p) + mset cur \<or> e \<in> set es"
      by (metis set_mset_mset union_iff)
    then show ?thesis
      using inv covered_mono [OF _ merge_all_mono] covered_merge_all
      unfolding mc proc_inv_def by blast
  qed
  have bal: "mset ?cur + pending (p_reorder p') + mset (incoming p')
      = mset cur + pending (p_reorder p) + mset (incoming p) + mset (arrivals env)"
    using c arg_cong [OF q, of mset] by (simp add: ac_simps)
  show ?thesis
  proof (cases out)
    case None
    then have "proc_inv p' ?cur"
      using f i cov agg by (simp add: proc_inv_def flush_outcome_def)
    with None n bal show ?thesis by (intro exI [of _ "[]"] exI [of _ ?cur]) simp
  next
    case (Some x)
    obtain k es' where x: "x = (k, es')" by (cases x)
    have o: "k = AList.update (node_id p) (flush_seq p1 + 1) (merged_clock p')"
      "es' = fst (flush np_mean k (process_batch ?cur new_aggregator))"
      "p_aggregator p' = new_aggregator" "agg_len (p_aggregator p1) \<noteq> 0"
      using f Some x agg n1 by (simp_all add: flush_outcome_def)
    have "?cur \<noteq> []" using o(4) agg by (auto simp: process_batch_def new_aggregator_def agg_len_def)
    moreover have "\<forall>m\<in>set ?cur. \<forall>(j, v)\<in>set (clocks m). j \<noteq> node_id p \<longrightarrow> v \<le> dict_get k j 0"
      using cov by (fastforce simp: covered_def o(1))
    ultimately have "flush_matches np_mean (node_id p) x ?cur"
      using o(2) by (simp add: flush_matches_def x)
    moreover have "proc_inv p' []"
      using i o(3) cov by (simp add: proc_inv_def process_batch_def)
    ultimately show ?thesis
      using Some n bal by (intro exI [of _ ?cur] exI [of _ "[]"]) simp
  qed
qed

lemma run_loop_inv:
  assumes "run_loop np_mean write envs lf p store = (outs, lf', p', store')" and "proc_inv p cur"
  shows "\<exists>mss cur'. proc_inv p' cur' \<and> list_all2 (flush_matches np_mean (node_id p)) outs mss
    \<and> mset (concat mss) + mset cur' + pending (p_reorder p') + mset (incoming p')
        = mset cur + pending (p_reorder p) + mset (incoming p) + mset (concat (map arrivals envs))"
  using assms
proof (induction envs arbitrary: lf p store cur outs)
  case Nil
  then show ?case by (intro exI [of _ "[]"] exI [of _ cur]) simp
next
  case (Cons env envs)
  obtain out lf1 p1 store1 where t: "turn np_mean write env lf p store = (out, lf1, p1, store1)"
    by (metis surj_pair)
  obtain rest where r: "run_loop np_mean write envs lf1 p1 store1 = (rest, lf', p', store')"
    and o: "outs = (case out of None \<Rightarrow> rest | Some x \<Rightarrow> x # rest)"
    using Cons.prems(1) t by (auto split: prod.splits)
  from turn_inv [OF t Cons.prems(2)] obtain sent cur1 where
    i1: "proc_inv p1 cur1" and n1: "node_id p1 = node_id p"
    and s: "case out of None \<Rightarrow> sent = [] | Some x \<Rightarrow> flush_matches np_mean (node_id p) x sent"
    and b1: "mset sent + mset cur1 + pending (p_reorder p1) + mset (incoming p1)
      = mset cur + pending (p_reorder p) + mset (incoming p) + mset (arrivals env)" by blast
  from Cons.IH [OF r i1] obtain mss cur' where
    i': "proc_inv p' cur'" and l: "list_all2 (flush_matches np_mean (node_id p)) rest mss"
    and b: "mset (concat mss) + mset cur' + pending (p_reorder p') + mset (incoming p')
      = mset cur1 + pending (p_reorder p1) + mset (incoming p1) + mset (concat (map arrivals envs))"
    unfolding n1 by blast
  let ?mss = "case out of None \<Rightarrow> mss | Some x \<Rightarrow> sent # mss"
  have sum: "mset (concat ?mss) = mset sent + mset (concat mss)" using s by (cases out) simp_all
  have "mset (concat ?mss) + mset cur' + pending (p_reorder p') + mset (incoming p')
      = mset sent + (mset cur1 + pending (p_reorder p1) + mset (incoming p1) + mset (concat (map arrivals envs)))"
    unfolding sum b [symmetric] by (simp add: ac_simps)
  also have "\<dots> = (mset sent + mset cur1 + pending (p_reorder p1) + mset (incoming p1))
      + mset (concat (map arrivals envs))" by (simp add: ac_simps)
  also have "\<dots> = mset cur + pending (p_reorder p) + mset (incoming p)
      + mset (concat (map arrivals (env # envs)))" unfolding b1 by (simp add: ac_simps)
  finally have bal: "mset (concat ?mss) + mset cur' + pending (p_reorder p') + mset (incoming p')
      = mset cur + pending (p_reorder p) + mset (incoming p) + mset (concat (map arrivals (env # envs)))" .
  have "list_all2 (flush_matches np_mean (node_id p)) outs ?mss"
    using l s o by (cases out) simp_all
  with i' bal show ?case by blast
qed

lemma proc_inv_new: "proc_inv (new_processor nid) []"
proof -
  have "pending (new_reorder_buffer t) = {#}" for t
    by (simp add: pending_def new_reorder_buffer_def)
  then show ?thesis
    by (simp add: proc_inv_def new_processor_def rb_inv_new process_batch_def)
qed


section \<open>Flush clocks\<close>

definition own_seq :: "string \<Rightarrow> vector_clock \<times> stat_entry list \<Rightarrow> int" where
  "own_seq nid x = dict_get (fst x) nid 0"

definition clock_below :: "(string, int) dict \<Rightarrow> string \<Rightarrow> vector_clock \<times> stat_entry list \<Rightarrow> bool" where
  "clock_below c nid x \<longleftrightarrow> (\<forall>k. k \<noteq> nid \<longrightarrow> dict_get c k 0 \<le> dict_get (fst x) k 0)"

lemma turn_clock:
  assumes "turn np_mean write env lf p store = (out, lf', p', store')" and "rb_inv (p_reorder p)"
  shows "rb_inv (p_reorder p') \<and> node_id p' = node_id p
    \<and> (\<forall>k. dict_get (merged_clock p) k 0 \<le> dict_get (merged_clock p') k 0)
    \<and> (case out of None \<Rightarrow> flush_seq p' = flush_seq p
       | Some x \<Rightarrow> flush_seq p' = flush_seq p + 1 \<and> own_seq (node_id p) x = flush_seq p + 1
           \<and> (\<forall>k. k \<noteq> node_id p \<longrightarrow> dict_get (fst x) k 0 = dict_get (merged_clock p') k 0))"
  using turn_spec [OF assms] merge_all_mono
  by (auto simp: flush_outcome_def own_seq_def split: option.splits)

lemma run_loop_clocks:
  assumes "run_loop np_mean write envs lf p store = (outs, r)" and "rb_inv (p_reorder p)"
  shows "map (own_seq (node_id p)) outs = [flush_seq p + 1 .. flush_seq p + int (length outs)]
    \<and> list_all (clock_below (merged_clock p) (node_id p)) outs
    \<and> sorted_wrt (\<lambda>x y. clock_below (fst x) (node_id p) y) outs"
  using assms
proof (induction envs arbitrary: lf p store outs)
  case Nil
  then show ?case by simp
next
  case (Cons env envs)
  obtain out lf1 p1 store1 where t: "turn np_mean write env lf p store = (out, lf1, p1, store1)"
    by (metis surj_pair)
  obtain rest where r: "run_loop np_mean write envs lf1 p1 store1 = (rest, r)"
    and o: "outs = (case out of None \<Rightarrow> rest | Some x \<Rightarrow> x # rest)"
    using Cons.prems(1) t by (auto split: prod.splits)
  note c = turn_clock [OF t Cons.prems(2)]
  from c have n: "node_id p1 = node_id p"
    and mono: "dict_get (merged_clock p) k 0 \<le> dict_get (merged_clock p1) k 0" for k by blast+
  from c have rb: "rb_inv (p_reorder p1)" by blast
  note IH = Cons.IH [OF r rb, unfolded n]
  have below: "list_all (clock_below (merged_clock p) (node_id p)) rest"
    using IH mono by (auto simp: list_all_iff clock_below_def intro: order_trans)
  show ?case
  proof (cases out)
    case None
    then show ?thesis using IH c below o by simp
  next
    case (Some x)
    have x: "flush_seq p1 = flush_seq p + 1" "own_seq (node_id p) x = flush_seq p + 1"
      "k \<noteq> node_id p \<Longrightarrow> dict_get (fst x) k 0 = dict_get (merged_clock p1) k 0" for k
      using c Some by auto
    have "list_all (clock_below (fst x) (node_id p)) rest"
      using IH x(3) by (auto simp: list_all_iff clock_below_def)
    moreover have "clock_below (merged_clock p) (node_id p) x"
      using x(3) mono by (simp add: clock_below_def)
    moreover have "[flush_seq p + 1 .. flush_seq p + int (length outs)]
        = (flush_seq p + 1) # [flush_seq p1 + 1 .. flush_seq p1 + int (length rest)]"
      using o Some x(1) by (subst upto_rec1) (simp_all add: algebra_simps)
    ultimately show ?thesis
      using IH x(2) below o Some by (simp add: list_all_iff)
  qed
qed

section \<open>Properties\<close>

text \<open>
  C1. Every event is accounted for exactly once, end to end. Over any run of the main loop,
  with any arrival pattern, timing and metastore behaviour, the events that were put into the
  queue are split without loss or duplication into: the events of each flush, the events
  aggregated since the last flush, the events held in the reorder buffer and those still
  queued. What each flush hands to the metastore is exactly the reference statistics of its
  share of the events, under a clock that covers the clocks of these events.
\<close>

theorem processor_exactly_once:
  assumes "mean_spec np_mean"
    and "run_loop np_mean write envs lf (new_processor nid) store = (outs, lf', p', store')"
  shows "\<exists>mss cur.
      list_all2 (\<lambda>(c, es) ms. ms \<noteq> []
          \<and> set es = reference_entry c ms ` {k. samples ms k \<noteq> []} \<and> distinct (map entry_key es)
          \<and> (\<forall>m\<in>set ms. \<forall>(k, v)\<in>set (clocks m). k \<noteq> nid \<longrightarrow> v \<le> dict_get c k 0)) outs mss
    \<and> p_aggregator p' = process_batch cur new_aggregator
    \<and> mset (concat mss) + mset cur + pending (p_reorder p') + mset (incoming p')
        = mset (concat (map arrivals envs))"
proof -
  from run_loop_inv [OF assms(2) proc_inv_new] obtain mss cur where
    i: "proc_inv p' cur" and l: "list_all2 (flush_matches np_mean nid) outs mss"
    and b: "mset (concat mss) + mset cur + pending (p_reorder p') + mset (incoming p')
      = mset (concat (map arrivals envs))"
    by (auto simp: new_processor_def pending_def new_reorder_buffer_def)
  have "list_all2 (\<lambda>(c, es) ms. ms \<noteq> []
          \<and> set es = reference_entry c ms ` {k. samples ms k \<noteq> []} \<and> distinct (map entry_key es)
          \<and> (\<forall>m\<in>set ms. \<forall>(k, v)\<in>set (clocks m). k \<noteq> nid \<longrightarrow> v \<le> dict_get c k 0)) outs mss"
    by (rule list_all2_mono [OF l])
      (auto simp: flush_matches_def flush_set [OF assms(1)] flush_distinct [OF assms(1)])
  with i b show ?thesis unfolding proc_inv_def by blast
qed

text \<open>
  C14. Flush clocks are strictly ordered. The processor numbers its flushes 1, 2, 3, \<dots> in its
  own component of the clock, and every other component never decreases from one flush to a
  later one; so a later flush of the same process always dominates an earlier one in the
  metastore's vector-clock comparison.
\<close>

theorem flush_clocks_increase:
  "map (\<lambda>(c, es). dict_get c nid 0) (fst (run_loop np_mean write envs lf (new_processor nid) store))
     = [1 .. int (length (fst (run_loop np_mean write envs lf (new_processor nid) store)))]
   \<and> sorted_wrt (\<lambda>(c, es) (c', es'). dict_get c nid 0 < dict_get c' nid 0
        \<and> (\<forall>k. dict_get c k 0 \<le> dict_get c' k 0))
       (fst (run_loop np_mean write envs lf (new_processor nid) store))"
proof -
  obtain outs r where run: "run_loop np_mean write envs lf (new_processor nid) store = (outs, r)"
    by (cases "run_loop np_mean write envs lf (new_processor nid) store")
  have new: "rb_inv (p_reorder (new_processor nid))" "node_id (new_processor nid) = nid"
    "flush_seq (new_processor nid) = 0"
    by (simp_all add: new_processor_def rb_inv_new)
  from run_loop_clocks [OF run new(1)]
  have m: "map (own_seq nid) outs = [1 .. int (length outs)]"
    and s: "sorted_wrt (\<lambda>x y. clock_below (fst x) nid y) outs" by (simp_all add: new)
  have "sorted_wrt (<) (map (own_seq nid) outs)" unfolding m by simp
  then have "sorted_wrt (\<lambda>x y. own_seq nid x < own_seq nid y) outs" by (simp add: sorted_wrt_map)
  with s have "sorted_wrt (\<lambda>x y. own_seq nid x < own_seq nid y \<and> (\<forall>k. dict_get (fst x) k 0 \<le> dict_get (fst y) k 0)) outs"
    unfolding sorted_wrt_iff_nth_less clock_below_def own_seq_def by (metis less_le)
  with m show ?thesis
    by (simp add: run own_seq_def [abs_def] case_prod_unfold)
qed

section \<open>Witness\<close>

definition accept_all :: "stat_entry \<Rightarrow> stat_entry list \<Rightarrow> bool option \<times> stat_entry list" where
  "accept_all e st = (Some True, st @ [e])"

definition sample_turn :: turn_env where
  "sample_turn = \<lparr>arrivals = [sample_match], available = 1, push_time = 0, pop_time = 100,
     check_time = 100, end_time = 100\<rparr>"

theorem processor_exactly_once_witness:
  "\<exists>mss cur. length mss = 1 \<and>
     mset (concat mss) + mset cur
       + pending (p_reorder (fst (snd (snd (run_loop exact_mean accept_all [sample_turn] 0 (new_processor ''p'') [])))))
       + mset (incoming (fst (snd (snd (run_loop exact_mean accept_all [sample_turn] 0 (new_processor ''p'') [])))))
       = mset [sample_match]"
proof -
  obtain outs lf' p' st where
    r: "run_loop exact_mean accept_all [sample_turn] 0 (new_processor ''p'') [] = (outs, lf', p', st)"
    by (metis surj_pair)
  have "length (fst (run_loop exact_mean accept_all [sample_turn] 0 (new_processor ''p'') [])) = 1"
    by code_simp
  then have "length outs = 1" by (simp only: r fst_conv)
  moreover have "\<exists>mss cur. length outs = length mss \<and>
      mset (concat mss) + mset cur + pending (p_reorder p') + mset (incoming p')
      = mset (concat (map arrivals [sample_turn]))"
    using processor_exactly_once [OF exact_mean_spec r]
    by (elim ex_forward conjE) (simp add: list_all2_lengthD)
  ultimately show ?thesis
    unfolding r by (simp add: sample_turn_def eq_commute)
qed

end
