(* ===== verification/Detector.thy ===== *)
theory Detector
  imports Prelude
begin

text \<open>
  The z-score detector, \<open>anomaly/detector.py\<close>. Each key (entity, tier) has a
  \<open>deque(maxlen=window)\<close> of recent win rates: an append to a full deque drops the oldest.
  NumPy's \<open>mean\<close> and \<open>std\<close> are parameters; \<open>numpy_spec\<close> states their documented
  behaviour on a non-empty array (arithmetic mean, population standard deviation).
\<close>

section \<open>State and operations\<close>

definition MIN_SAMPLE_SIZE :: int where "MIN_SAMPLE_SIZE = 200"
definition MIN_HISTORY :: nat where "MIN_HISTORY = 6"
definition Z_THRESHOLD :: py_float where "Z_THRESHOLD = 2"

definition deque_append :: "nat \<Rightarrow> 'a \<Rightarrow> 'a list \<Rightarrow> 'a list" where
  "deque_append maxlen x q = drop (length q + 1 - maxlen) (q @ [x])"

record detector =
  window :: nat
  history :: "(string \<times> string, py_float list) dict"

definition new_detector :: "nat \<Rightarrow> detector" where
  "new_detector w = \<lparr>window = w, history = []\<rparr>"

definition observe :: "string \<times> string \<Rightarrow> py_float \<Rightarrow> detector \<Rightarrow> detector" where
  "observe key x d =
     d\<lparr>history := AList.update key (deque_append (window d) x (dict_get (history d) key [])) (history d)\<rparr>"

definition check ::
    "(py_float list \<Rightarrow> py_float) \<Rightarrow> (py_float list \<Rightarrow> py_float) \<Rightarrow>
     string \<Rightarrow> string \<Rightarrow> py_float \<Rightarrow> int \<Rightarrow> detector \<Rightarrow> (bool \<times> py_float) \<times> detector" where
  "check np_mean np_std entity_id tier current_win_rate sample_size d =
     (if sample_size < MIN_SAMPLE_SIZE then ((False, 0), d)
      else
        let key = (entity_id, tier); hist = dict_get (history d) key [] in
        if length hist < MIN_HISTORY then ((False, 0), observe key current_win_rate d)
        else
          let mean = np_mean hist; std = np_std hist; d' = observe key current_win_rate d in
          if std = 0 then ((False, 0), d')
          else let z = (current_win_rate - mean) / std in ((z > Z_THRESHOLD, z), d'))"

definition mean_of :: "py_float list \<Rightarrow> py_float" where
  "mean_of xs = sum_list xs / of_nat (length xs)"

definition std_of :: "py_float list \<Rightarrow> py_float" where
  "std_of xs = sqrt (sum_list (map (\<lambda>x. (x - mean_of xs)\<^sup>2) xs) / of_nat (length xs))"

definition numpy_spec :: "(py_float list \<Rightarrow> py_float) \<Rightarrow> (py_float list \<Rightarrow> py_float) \<Rightarrow> bool" where
  "numpy_spec np_mean np_std \<longleftrightarrow>
     (\<forall>xs. xs \<noteq> [] \<longrightarrow> np_mean xs = mean_of xs \<and> np_std xs = std_of xs)"

section \<open>Lemmas\<close>

definition past :: "detector \<Rightarrow> string \<Rightarrow> string \<Rightarrow> py_float list" where
  "past d entity_id tier = dict_get (history d) (entity_id, tier) []"

lemma length_deque_append: "length (deque_append n x q) = min n (length q + 1)"
  by (simp add: deque_append_def)

lemma past_observe [simp]:
  "past (observe key x d) i t =
     (if (i, t) = key then deque_append (window d) x (past d i t) else past d i t)"
  by (auto simp: past_def observe_def)

lemma window_observe [simp]: "window (observe key x d) = window d"
  by (simp add: observe_def)

lemma window_check [simp]: "window (snd (check m s i t x n d)) = window d"
  by (simp add: check_def Let_def)

lemma past_check:
  "past (snd (check np_mean np_std i t x n d)) i' t' =
     (if (i', t') = (i, t) \<and> MIN_SAMPLE_SIZE \<le> n
      then deque_append (window d) x (past d i t) else past d i' t')"
  by (auto simp: check_def Let_def)

lemma check_flag:
  "fst (fst (check np_mean np_std i t x n d)) \<longleftrightarrow>
     MIN_SAMPLE_SIZE \<le> n \<and> MIN_HISTORY \<le> length (past d i t) \<and> np_std (past d i t) \<noteq> 0 \<and>
     (x - np_mean (past d i t)) / np_std (past d i t) > Z_THRESHOLD"
  by (auto simp: check_def Let_def past_def)

lemma check_score:
  "fst (fst (check np_mean np_std i t x n d)) \<Longrightarrow>
   snd (fst (check np_mean np_std i t x n d)) = (x - np_mean (past d i t)) / np_std (past d i t)"
  by (auto simp: check_def Let_def past_def split: if_splits)

lemma check_score_gt: "fst (fst (check np_mean np_std i t x n d)) \<Longrightarrow>
   Z_THRESHOLD < snd (fst (check np_mean np_std i t x n d))"
  using check_score check_flag by metis

lemma check_sample: "fst (fst (check np_mean np_std i t x n d)) \<Longrightarrow> MIN_SAMPLE_SIZE \<le> n"
  by (simp add: check_flag)

definition bounded_history :: "detector \<Rightarrow> bool" where
  "bounded_history d \<longleftrightarrow> list_all (\<lambda>(_, q). length q \<le> window d) (history d)"

lemma update_list_all:
  "list_all P d \<Longrightarrow> P (k, v) \<Longrightarrow> list_all P (AList.update k v d)"
  by (induction d) auto

lemma bounded_history_check:
  "bounded_history d \<Longrightarrow> bounded_history (snd (check np_mean np_std i t x n d))"
proof -
  assume b: "bounded_history d"
  then have "bounded_history (observe key x d)" for key
    by (auto simp: bounded_history_def observe_def length_deque_append intro!: update_list_all)
  with b show ?thesis by (simp add: check_def Let_def)
qed

type_synonym observation = "string \<times> string \<times> py_float \<times> int"

fun check_all ::
    "(py_float list \<Rightarrow> py_float) \<Rightarrow> (py_float list \<Rightarrow> py_float) \<Rightarrow> observation list \<Rightarrow> detector \<Rightarrow> detector" where
  "check_all np_mean np_std [] d = d"
| "check_all np_mean np_std ((i, t, x, n) # os) d =
     check_all np_mean np_std os (snd (check np_mean np_std i t x n d))"

fun kept :: "string \<Rightarrow> string \<Rightarrow> observation list \<Rightarrow> py_float list" where
  "kept i t [] = []"
| "kept i t ((i', t', x, n) # os) =
     (if (i', t') = (i, t) \<and> MIN_SAMPLE_SIZE \<le> n then x # kept i t os else kept i t os)"

lemma deque_append_last:
  "deque_append w x (drop (length q - w) q) = drop (length (q @ [x]) - w) (q @ [x])"
  by (cases "w \<le> length q") (auto simp: deque_append_def Suc_diff_le)

lemma window_check_all [simp]: "window (check_all m s os d) = window d"
  by (induction m s os d rule: check_all.induct) simp_all

lemma past_check_all:
  "past d i t = drop (length q - window d) q \<Longrightarrow>
   past (check_all np_mean np_std os d) i t
     = drop (length (q @ kept i t os) - window d) (q @ kept i t os)"
proof (induction np_mean np_std os d arbitrary: q rule: check_all.induct)
  case (1 np_mean np_std d)
  then show ?case by simp
next
  case (2 np_mean np_std i' t' x n os d)
  let ?d = "snd (check np_mean np_std i' t' x n d)"
  show ?case
  proof (cases "(i', t') = (i, t) \<and> MIN_SAMPLE_SIZE \<le> n")
    case True
    then have "past ?d i t = drop (length (q @ [x]) - window ?d) (q @ [x])"
      using "2.prems" by (simp add: past_check deque_append_last del: length_append)
    from "2.IH" [OF this] True show ?thesis by simp
  next
    case False
    then have "past ?d i t = drop (length q - window ?d) q"
      using "2.prems" by (auto simp: past_check)
    from "2.IH" [OF this] False show ?thesis by auto
  qed
qed

lemma past_run:
  "past (check_all np_mean np_std os (new_detector w)) i t
   = drop (length (kept i t os) - w) (kept i t os)"
  using past_check_all [of "new_detector w" i t "[]"]
  by (simp add: past_def new_detector_def)

section \<open>Properties\<close>

text \<open>
  The history is exactly the recent past. After any sequence of checks, the history kept
  for an entity and tier is the last \<open>window\<close> of the win rates checked for that entity and
  tier with a sample size of at least 200, in order; an observation below that floor is not
  recorded.
\<close>

theorem detector_history:
  "dict_get (history (check_all np_mean np_std os (new_detector w))) (i, t) []
   = drop (length (kept i t os) - w) (kept i t os)"
  using past_run by (simp only: past_def)

text \<open>
  C10. The detector flags exactly the upward spikes: with NumPy computing mean and population
  standard deviation, an observation is anomalous if and only if its sample size is at least
  200, at least six earlier observations are on record, these are not all equal, and the win
  rate exceeds their mean by more than two standard deviations.
\<close>

theorem detector_flags_spikes:
  assumes "numpy_spec np_mean np_std"
  shows "fst (fst (check np_mean np_std i t x n d)) \<longleftrightarrow>
    n \<ge> 200 \<and> length (past d i t) \<ge> 6 \<and> std_of (past d i t) > 0
    \<and> x > mean_of (past d i t) + 2 * std_of (past d i t)"
proof -
  let ?h = "past d i t"
  have nonneg: "0 \<le> std_of ?h"
    by (auto simp: std_of_def intro!: divide_nonneg_nonneg sum_list_nonneg)
  have spec: "np_mean ?h = mean_of ?h \<and> np_std ?h = std_of ?h" if "6 \<le> length ?h"
  proof -
    from that have "?h \<noteq> []" by auto
    with assms show ?thesis by (simp add: numpy_spec_def)
  qed
  have "(x - mean_of ?h) / std_of ?h > 2 \<longleftrightarrow> x > mean_of ?h + 2 * std_of ?h" if "0 < std_of ?h"
    using that by (auto simp: pos_less_divide_eq)
  with spec nonneg show ?thesis
    unfolding check_flag MIN_SAMPLE_SIZE_def MIN_HISTORY_def Z_THRESHOLD_def
    by (metis less_le)
qed

definition six_rates :: "observation list" where
  "six_rates = concat (replicate 3 [(''a'', ''GOLD'', 4/10, 300), (''a'', ''GOLD'', 6/10, 300)])"

theorem detector_flags_spikes_witness:
  "numpy_spec mean_of std_of \<and>
   fst (fst (check mean_of std_of ''a'' ''GOLD'' (9/10) 300
     (check_all mean_of std_of six_rates (new_detector 48))))"
proof -
  have spec: "numpy_spec mean_of std_of" by (simp add: numpy_spec_def)
  have k: "kept ''a'' ''GOLD'' six_rates = [4/10, 6/10, 4/10, 6/10, 4/10, 6/10]"
    by (simp add: six_rates_def MIN_SAMPLE_SIZE_def numeral_3_eq_3)
  let ?d = "check_all mean_of std_of six_rates (new_detector 48)"
  have p: "past ?d ''a'' ''GOLD'' = [4/10, 6/10, 4/10, 6/10, 4/10, 6/10]"
    by (simp add: past_run k)
  have m: "mean_of [4/10, 6/10, 4/10, 6/10, 4/10, 6/10] = 1/2" by (simp add: mean_of_def)
  have s: "std_of [4/10, 6/10, 4/10, 6/10, 4/10, 6/10] = 1/10"
    unfolding std_of_def m
    by (rule real_sqrt_unique) (simp_all add: power2_eq_square)
  have "std_of (past ?d ''a'' ''GOLD'') > 0"
    "9/10 > mean_of (past ?d ''a'' ''GOLD'') + 2 * std_of (past ?d ''a'' ''GOLD'')"
    unfolding p s m by simp_all
  moreover have "6 \<le> length (past ?d ''a'' ''GOLD'')" by (simp add: p)
  ultimately show ?thesis
    using detector_flags_spikes [OF spec, of "''a''" "''GOLD''" "9/10" 300 ?d] spec by simp
qed

end
