(* ===== verification/Anomaly.thy ===== *)
theory Anomaly
  imports Detector Metrics Proto
begin

text \<open>
  The anomaly service, \<open>anomaly/main.py\<close>: a scan of all entity types, the scoring pass, the
  classification and publication pass, and the service loop.

  The two remote services are parameters: \<open>scan\<close> is \<open>MetaStoreClient.scan\<close> (\<open>None\<close> when it
  raises), \<open>publish\<close> is \<open>BrokerClient.publish\<close> on a broker state (\<open>None\<close> when it raises).
  \<open>now\<close> gives the clock reading in milliseconds for the n-th alert of a run. The payload
  \<open>json.dumps(alert).encode()\<close> is represented by the alert itself.
\<close>

section \<open>State and operations\<close>

definition CROSS_RANK_FRACTION :: py_float where "CROSS_RANK_FRACTION = 6/10"

record alert =
  a_entity_id :: string
  a_entity_type :: string
  a_tier :: string
  a_region :: string
  a_patch :: string
  a_win_rate :: py_float
  a_avg_placement :: py_float
  a_z_score :: py_float
  a_sample_size :: int
  a_classification :: string
  a_direction :: string
  a_timestamp :: int

record anomaly_service =
  entity_types :: "string list"
  as_detector :: detector
  as_metrics :: metrics

definition new_anomaly_service :: "nat \<Rightarrow> anomaly_service" where
  "new_anomaly_service w =
     \<lparr>entity_types = [''champion'', ''item'', ''augment'', ''composition''],
      as_detector = new_detector w, as_metrics = new_metrics ''anomaly''\<rparr>"

fun scan_all :: "(string \<Rightarrow> stat_entry list option) \<Rightarrow> string list \<Rightarrow> stat_entry list option" where
  "scan_all scan [] = Some []"
| "scan_all scan (etype # ts) =
     (case scan etype of None \<Rightarrow> None
      | Some es \<Rightarrow> (case scan_all scan ts of None \<Rightarrow> None | Some rest \<Rightarrow> Some (es @ rest)))"

text \<open>
  The locals of \<open>run_once\<close> after the first pass. A Python set of tiers is a list without
  repetitions.
\<close>

record pass1 =
  p_detector :: detector
  spikes :: "(stat_entry \<times> py_float) list"
  tiers_with_data :: "(string, string list) dict"
  tiers_spiking :: "(string, string list) dict"

definition set_add :: "string \<Rightarrow> string \<Rightarrow> (string, string list) dict \<Rightarrow> (string, string list) dict" where
  "set_add k x d = AList.update k (List.insert x (dict_get d k [])) d"

definition score_entry ::
    "(py_float list \<Rightarrow> py_float) \<Rightarrow> (py_float list \<Rightarrow> py_float) \<Rightarrow> stat_entry \<Rightarrow> pass1 \<Rightarrow> pass1" where
  "score_entry np_mean np_std e p =
     (let p1 = (if se_sample_size e \<ge> MIN_SAMPLE_SIZE
                then p\<lparr>tiers_with_data := set_add (se_entity_id e) (se_tier e) (tiers_with_data p)\<rparr>
                else p)
      in case check np_mean np_std (se_entity_id e) (se_tier e) (se_win_rate e) (se_sample_size e)
                (p_detector p1) of
           ((is_anom, z), d) \<Rightarrow>
             (let p2 = p1\<lparr>p_detector := d\<rparr> in
              if is_anom
              then p2\<lparr>spikes := spikes p2 @ [(e, z)],
                      tiers_spiking := set_add (se_entity_id e) (se_tier e) (tiers_spiking p2)\<rparr>
              else p2))"

definition first_pass ::
    "(py_float list \<Rightarrow> py_float) \<Rightarrow> (py_float list \<Rightarrow> py_float) \<Rightarrow> stat_entry list \<Rightarrow> detector \<Rightarrow> pass1" where
  "first_pass np_mean np_std entries d =
     fold (score_entry np_mean np_std) entries
       \<lparr>p_detector = d, spikes = [], tiers_with_data = [], tiers_spiking = []\<rparr>"

definition classify :: "pass1 \<Rightarrow> string \<Rightarrow> string" where
  "classify p entity_id =
     (let n = length (dict_get (tiers_with_data p) entity_id []);
          n_data = (if n = 0 then 1 else n);
          n_spike = length (dict_get (tiers_spiking p) entity_id [])
      in if of_nat n_spike / of_nat n_data \<ge> CROSS_RANK_FRACTION then ''cross_rank''
         else ''tier_specific'')"

definition make_alert :: "pass1 \<Rightarrow> int \<Rightarrow> stat_entry \<times> py_float \<Rightarrow> alert" where
  "make_alert p t = (\<lambda>(e, z).
     \<lparr>a_entity_id = se_entity_id e, a_entity_type = se_entity_type e, a_tier = se_tier e,
      a_region = se_region e, a_patch = se_patch e,
      a_win_rate = py_round (se_win_rate e) 4, a_avg_placement = py_round (se_avg_placement e) 4,
      a_z_score = py_round z 3, a_sample_size = se_sample_size e,
      a_classification = classify p (se_entity_id e),
      a_direction = (if z > 0 then ''rising'' else ''falling''), a_timestamp = t\<rparr>)"

text \<open>
  The second loop: the alerts accepted by the broker, the broker afterwards, and whether the
  loop ran to its end. An exception of \<open>publish\<close> leaves \<open>run_once\<close>.
\<close>

fun publish_all ::
    "(string \<Rightarrow> alert \<Rightarrow> 'b \<Rightarrow> 'b option) \<Rightarrow> (nat \<Rightarrow> int) \<Rightarrow> pass1 \<Rightarrow>
     (stat_entry \<times> py_float) list \<Rightarrow> nat \<Rightarrow> 'b \<Rightarrow> alert list \<times> 'b \<times> bool" where
  "publish_all publish now p [] n b = ([], b, True)"
| "publish_all publish now p (s # ss) n b =
     (let a = make_alert p (now n) s in
      case publish TOPIC_ANOMALY_ALERTS a b of
        None \<Rightarrow> ([], b, False)
      | Some b' \<Rightarrow> (case publish_all publish now p ss (Suc n) b' of (sent, r) \<Rightarrow> (a # sent, r)))"

definition run_once ::
    "(py_float list \<Rightarrow> py_float) \<Rightarrow> (py_float list \<Rightarrow> py_float) \<Rightarrow>
     (string \<Rightarrow> stat_entry list option) \<Rightarrow> (string \<Rightarrow> alert \<Rightarrow> 'b \<Rightarrow> 'b option) \<Rightarrow> (nat \<Rightarrow> int) \<Rightarrow>
     anomaly_service \<Rightarrow> 'b \<Rightarrow> alert list \<times> anomaly_service \<times> 'b \<times> bool" where
  "run_once np_mean np_std scan publish now s b =
     (case scan_all scan (entity_types s) of
        None \<Rightarrow> ([], s, b, False)
      | Some entries \<Rightarrow>
          let p = first_pass np_mean np_std entries (as_detector s);
              s1 = s\<lparr>as_metrics := set_gauge ''entities_scanned'' (of_nat (length entries)) (as_metrics s),
                     as_detector := p_detector p\<rparr>
          in case publish_all publish now p (spikes p) 0 b of
               (sent, b', ok) \<Rightarrow>
                 if \<not> ok then (sent, s1, b', False)
                 else (sent,
                   s1\<lparr>as_metrics := set_gauge ''last_anomaly_count'' (of_nat (length sent))
                       (inc ''anomalies_published_total'' (of_nat (length sent))
                         (inc ''checks_total'' 1 (as_metrics s1)))\<rparr>, b', True))"

text \<open>
  One turn of the loop in \<open>run\<close>, and a number of turns: each turn meets its own metastore
  contents, broker behaviour and clock.
\<close>

definition run_turn ::
    "(py_float list \<Rightarrow> py_float) \<Rightarrow> (py_float list \<Rightarrow> py_float) \<Rightarrow>
     (string \<Rightarrow> stat_entry list option) \<times> (string \<Rightarrow> alert \<Rightarrow> 'b \<Rightarrow> 'b option) \<times> (nat \<Rightarrow> int) \<Rightarrow>
     anomaly_service \<Rightarrow> 'b \<Rightarrow> alert list \<times> anomaly_service \<times> 'b \<times> bool" where
  "run_turn np_mean np_std = (\<lambda>(scan, publish, now) s b.
     case run_once np_mean np_std scan publish now s b of
       (sent, s', b', ok) \<Rightarrow>
         (sent, if ok then s' else s'\<lparr>as_metrics := inc ''errors_total'' 1 (as_metrics s')\<rparr>, b', ok))"

primrec run_turns ::
    "(py_float list \<Rightarrow> py_float) \<Rightarrow> (py_float list \<Rightarrow> py_float) \<Rightarrow>
     ((string \<Rightarrow> stat_entry list option) \<times> (string \<Rightarrow> alert \<Rightarrow> 'b \<Rightarrow> 'b option) \<times> (nat \<Rightarrow> int)) list \<Rightarrow>
     anomaly_service \<Rightarrow> 'b \<Rightarrow> (alert list \<times> bool) list \<times> anomaly_service \<times> 'b" where
  "run_turns np_mean np_std [] s b = ([], s, b)"
| "run_turns np_mean np_std (env # envs) s b =
     (case run_turn np_mean np_std env s b of
        (sent, s', b', ok) \<Rightarrow>
          (case run_turns np_mean np_std envs s' b' of (turns, r) \<Rightarrow> ((sent, ok) # turns, r)))"

section \<open>Lemmas\<close>

text \<open>The scores the detector gives along the scan, in order.\<close>

fun scores ::
    "(py_float list \<Rightarrow> py_float) \<Rightarrow> (py_float list \<Rightarrow> py_float) \<Rightarrow> stat_entry list \<Rightarrow> detector \<Rightarrow>
     (stat_entry \<times> bool \<times> py_float) list" where
  "scores np_mean np_std [] d = []"
| "scores np_mean np_std (e # es) d =
     (case check np_mean np_std (se_entity_id e) (se_tier e) (se_win_rate e) (se_sample_size e) d of
        (r, d') \<Rightarrow> (e, r) # scores np_mean np_std es d')"

definition tiers_of :: "string \<Rightarrow> stat_entry list \<Rightarrow> string set" where
  "tiers_of i es = se_tier ` set (filter (\<lambda>e. se_entity_id e = i) es)"

definition flagged :: "(stat_entry \<times> bool \<times> py_float) list \<Rightarrow> (stat_entry \<times> py_float) list" where
  "flagged rs = map (\<lambda>(e, a, z). (e, z)) (filter (\<lambda>(e, a, z). a) rs)"

definition enough :: "stat_entry list \<Rightarrow> stat_entry list" where
  "enough es = filter (\<lambda>e. MIN_SAMPLE_SIZE \<le> se_sample_size e) es"

definition dict_ok :: "(string, string list) dict \<Rightarrow> bool" where
  "dict_ok d \<longleftrightarrow> (\<forall>i. distinct (dict_get d i []))"

lemma dict_ok_set_add [simp]: "dict_ok d \<Longrightarrow> dict_ok (set_add k x d)"
  by (simp add: dict_ok_def set_add_def)

lemma get_set_add [simp]:
  "set (dict_get (set_add k x d) i []) = set (dict_get d i []) \<union> (if i = k then {x} else {})"
  by (auto simp: set_add_def)

lemma tiers_of_Cons [simp]:
  "tiers_of i (e # es) = (if se_entity_id e = i then {se_tier e} else {}) \<union> tiers_of i es"
  by (auto simp: tiers_of_def)

lemma enough_Cons [simp]:
  "enough (e # es) = (if MIN_SAMPLE_SIZE \<le> se_sample_size e then e # enough es else enough es)"
  by (simp add: enough_def)

lemma flagged_Cons [simp]: "flagged ((e, a, z) # rs) = (if a then (e, z) # flagged rs else flagged rs)"
  by (simp add: flagged_def)

lemma first_pass_fold:
  fixes np_mean np_std es i
  assumes "dict_ok (tiers_with_data p)" "dict_ok (tiers_spiking p)"
  defines "q \<equiv> fold (score_entry np_mean np_std) es p"
  defines "rs \<equiv> scores np_mean np_std es (p_detector p)"
  shows "dict_ok (tiers_with_data q) \<and> dict_ok (tiers_spiking q)
    \<and> spikes q = spikes p @ flagged rs
    \<and> set (dict_get (tiers_with_data q) i []) = set (dict_get (tiers_with_data p) i []) \<union> tiers_of i (enough es)
    \<and> set (dict_get (tiers_spiking q) i []) = set (dict_get (tiers_spiking p) i []) \<union> tiers_of i (map fst (flagged rs))"
  using assms(1,2) unfolding q_def rs_def
proof (induction es arbitrary: p)
  case Nil
  then show ?case by (simp add: tiers_of_def enough_def flagged_def)
next
  case (Cons e es)
  obtain a z d where c: "check np_mean np_std (se_entity_id e) (se_tier e) (se_win_rate e)
      (se_sample_size e) (p_detector p) = ((a, z), d)"
    by (metis surj_pair)
  let ?p = "score_entry np_mean np_std e p"
  have p: "p_detector ?p = d"
    "spikes ?p = spikes p @ (if a then [(e, z)] else [])"
    "tiers_with_data ?p = (if MIN_SAMPLE_SIZE \<le> se_sample_size e
       then set_add (se_entity_id e) (se_tier e) (tiers_with_data p) else tiers_with_data p)"
    "tiers_spiking ?p = (if a
       then set_add (se_entity_id e) (se_tier e) (tiers_spiking p) else tiers_spiking p)"
    using c by (simp_all add: score_entry_def Let_def)
  have "dict_ok (tiers_with_data ?p)" "dict_ok (tiers_spiking ?p)"
    using Cons.prems by (simp_all add: p)
  note IH = Cons.IH [OF this]
  show ?case
    using IH unfolding p by (auto simp: c)
qed

lemma first_pass_spec:
  fixes np_mean np_std es d i
  defines "q \<equiv> first_pass np_mean np_std es d" and "rs \<equiv> scores np_mean np_std es d"
  shows "spikes q = flagged rs"
    and "length (dict_get (tiers_with_data q) i []) = card (tiers_of i (enough es))"
    and "length (dict_get (tiers_spiking q) i []) = card (tiers_of i (map fst (flagged rs)))"
proof -
  let ?p = "\<lparr>p_detector = d, spikes = [], tiers_with_data = [], tiers_spiking = []\<rparr>"
  have "dict_ok []" by (simp add: dict_ok_def)
  with first_pass_fold [of ?p np_mean np_std es i]
  have *: "dict_ok (tiers_with_data q) \<and> dict_ok (tiers_spiking q) \<and> spikes q = flagged rs
    \<and> set (dict_get (tiers_with_data q) i []) = tiers_of i (enough es)
    \<and> set (dict_get (tiers_spiking q) i []) = tiers_of i (map fst (flagged rs))"
    by (simp add: q_def rs_def first_pass_def)
  then show "spikes q = flagged rs" by simp
  from * show "length (dict_get (tiers_with_data q) i []) = card (tiers_of i (enough es))"
    by (metis dict_ok_def distinct_card)
  from * show "length (dict_get (tiers_spiking q) i []) = card (tiers_of i (map fst (flagged rs)))"
    by (metis dict_ok_def distinct_card)
qed

lemma scores_sound:
  "(e, z) \<in> set (flagged (scores np_mean np_std es d)) \<Longrightarrow>
   e \<in> set es \<and> MIN_SAMPLE_SIZE \<le> se_sample_size e \<and> Z_THRESHOLD < z"
proof (induction es arbitrary: d)
  case Nil
  then show ?case by (simp add: flagged_def)
next
  case (Cons x es)
  obtain a w d' where c: "check np_mean np_std (se_entity_id x) (se_tier x) (se_win_rate x)
      (se_sample_size x) d = ((a, w), d')"
    by (metis surj_pair)
  have "a \<Longrightarrow> MIN_SAMPLE_SIZE \<le> se_sample_size x \<and> Z_THRESHOLD < w"
    using c check_sample check_score_gt by (metis fst_conv snd_conv)
  with Cons show ?case by (auto simp: c split: if_splits)
qed

lemma flagged_tiers_subset:
  "tiers_of i (map fst (flagged (scores np_mean np_std es d))) \<subseteq> tiers_of i (enough es)"
  using scores_sound [of _ _ np_mean np_std es d] by (fastforce simp: tiers_of_def enough_def)

lemma finite_tiers_of [simp, intro]: "finite (tiers_of i es)"
  by (simp add: tiers_of_def)

lemma publish_all_sent:
  "publish_all publish now p ss n b = (sent, b', ok) \<Longrightarrow>
   \<exists>k\<le>length ss. sent = map (\<lambda>(j, s). make_alert p (now j) s) (zip [n..<n + k] (take k ss))
     \<and> (ok \<longleftrightarrow> k = length ss)"
proof (induction publish now p ss n b arbitrary: sent b' ok rule: publish_all.induct)
  case (1 publish now p n b)
  then show ?case by simp
next
  case (2 publish now p s ss n b)
  show ?case
  proof (cases "publish TOPIC_ANOMALY_ALERTS (make_alert p (now n) s) b")
    case None
    with "2.prems" show ?thesis by (intro exI [of _ 0]) (auto simp: Let_def)
  next
    case (Some b1)
    obtain sent1 b2 ok1 where r: "publish_all publish now p ss (Suc n) b1 = (sent1, b2, ok1)"
      by (metis surj_pair)
    from "2.IH" [OF refl Some r] obtain k where k: "k \<le> length ss"
      "sent1 = map (\<lambda>(j, s). make_alert p (now j) s) (zip [Suc n..<Suc n + k] (take k ss))"
      "ok1 \<longleftrightarrow> k = length ss" by blast
    have "[n..<n + Suc k] = n # [Suc n..<Suc n + k]" by (simp add: upt_rec)
    with k "2.prems" Some r show ?thesis
      by (intro exI [of _ "Suc k"]) (auto simp: Let_def simp del: upt_Suc)
  qed
qed

text \<open>
  What one turn sends, in terms of the scan: a prefix of the flagged entries, each turned into
  an alert, and all of them when no call fails.
\<close>

lemma run_once_sent:
  assumes "run_once np_mean np_std scan publish now s b = (sent, s', b', ok)" and "a \<in> set sent"
  shows "\<exists>es e z t. scan_all scan (entity_types s) = Some es
    \<and> (e, z) \<in> set (flagged (scores np_mean np_std es (as_detector s)))
    \<and> a = make_alert (first_pass np_mean np_std es (as_detector s)) t (e, z)"
proof -
  obtain es where es: "scan_all scan (entity_types s) = Some es"
    using assms by (auto simp: run_once_def split: option.splits)
  let ?p = "first_pass np_mean np_std es (as_detector s)"
  obtain b1 ok1 where "publish_all publish now ?p (spikes ?p) 0 b = (sent, b1, ok1)"
    using assms(1) es by (auto simp: run_once_def Let_def split: prod.splits if_splits)
  from publish_all_sent [OF this] obtain k
    where "sent = map (\<lambda>(j, s). make_alert ?p (now j) s) (zip [0..<0 + k] (take k (spikes ?p)))"
    by blast
  with assms(2) obtain j e z where "(j, e, z) \<in> set (zip [0..<0 + k] (take k (spikes ?p)))"
    and a: "a = make_alert ?p (now j) (e, z)"
    by auto
  then have "(e, z) \<in> set (take k (spikes ?p))" by (metis set_zip_rightD)
  then have "(e, z) \<in> set (flagged (scores np_mean np_std es (as_detector s)))"
    by (metis first_pass_spec(1) in_set_takeD)
  with es a show ?thesis by blast
qed

lemma classify_spec:
  assumes "(e, z) \<in> set (flagged (scores np_mean np_std es d))" and i: "i = se_entity_id e"
  defines "n_spike \<equiv> card (tiers_of i (map fst (flagged (scores np_mean np_std es d))))"
  defines "n_data \<equiv> card (tiers_of i (enough es))"
  shows tiers_le: "1 \<le> n_spike \<and> n_spike \<le> n_data"
    and "classify (first_pass np_mean np_std es d) i =
      (if 3 * n_data \<le> 5 * n_spike then ''cross_rank'' else ''tier_specific'')"
proof -
  have "se_tier e \<in> tiers_of i (map fst (flagged (scores np_mean np_std es d)))"
    using assms(1) i by (force simp: tiers_of_def)
  then have "0 < n_spike" by (auto simp: n_spike_def card_gt_0_iff)
  moreover have "n_spike \<le> n_data"
    unfolding n_spike_def n_data_def by (rule card_mono) (simp_all add: flagged_tiers_subset)
  ultimately show le: "1 \<le> n_spike \<and> n_spike \<le> n_data" by simp
  then have "CROSS_RANK_FRACTION \<le> of_nat n_spike / of_nat n_data \<longleftrightarrow> 3 * n_data \<le> 5 * n_spike"
    by (auto simp: CROSS_RANK_FRACTION_def pos_le_divide_eq)
  with le show "classify (first_pass np_mean np_std es d) i =
      (if 3 * n_data \<le> 5 * n_spike then ''cross_rank'' else ''tier_specific'')"
    by (auto simp: classify_def Let_def first_pass_spec n_spike_def n_data_def)
qed

definition m_counter :: "anomaly_service \<Rightarrow> string \<Rightarrow> py_float" where
  "m_counter s = counter (as_metrics s)"

lemma run_turn_metrics:
  assumes "run_turn np_mean np_std env s b = (sent, s', b', ok)"
  shows "m_counter s' ''checks_total'' = m_counter s ''checks_total'' + (if ok then 1 else 0)"
    and "m_counter s' ''errors_total'' = m_counter s ''errors_total'' + (if ok then 0 else 1)"
    and "m_counter s' ''anomalies_published_total''
      = m_counter s ''anomalies_published_total'' + (if ok then of_nat (length sent) else 0)"
  using assms
  by (auto simp: run_turn_def run_once_def m_counter_def Let_def
      split: prod.splits option.splits if_splits)

section \<open>Properties\<close>

text \<open>
  C16. Every alert is a flagged entry of the scan, correctly tagged. An alert sent by
  \<open>run_once\<close> comes from an entry of that scan with a sample size of at least 200 whose score
  exceeded 2; its direction is always ``rising''; and it is tagged ``cross_rank'' exactly when
  the entity's flagged tiers are at least 60 percent of the tiers in which it had enough data
  (both counted without repetition over the whole scan, and the fraction is never above one
  and never a division by zero).
\<close>

theorem alerts_sound:
  assumes "run_once np_mean np_std scan publish now s b = (sent, s', b', ok)" and "a \<in> set sent"
  shows "\<exists>es e z.
     scan_all scan (entity_types s) = Some es \<and> e \<in> set es
     \<and> (e, z) \<in> set (flagged (scores np_mean np_std es (as_detector s)))
     \<and> a_entity_id a = se_entity_id e \<and> a_tier a = se_tier e \<and> a_sample_size a = se_sample_size e
     \<and> a_sample_size a \<ge> 200 \<and> z > 2 \<and> a_z_score a = py_round z 3
     \<and> a_direction a = ''rising''
     \<and> (let n_spike = card (tiers_of (se_entity_id e)
                 (map fst (flagged (scores np_mean np_std es (as_detector s)))));
            n_data = card (tiers_of (se_entity_id e) (enough es))
        in 1 \<le> n_spike \<and> n_spike \<le> n_data
           \<and> a_classification a = (if 3 * n_data \<le> 5 * n_spike then ''cross_rank'' else ''tier_specific''))"
proof -
  obtain es e z t where es: "scan_all scan (entity_types s) = Some es"
    and f: "(e, z) \<in> set (flagged (scores np_mean np_std es (as_detector s)))"
    and a: "a = make_alert (first_pass np_mean np_std es (as_detector s)) t (e, z)"
    using run_once_sent [OF assms] by blast
  have "e \<in> set es" "se_sample_size e \<ge> 200" "z > 2"
    using scores_sound [OF f] by (simp_all add: MIN_SAMPLE_SIZE_def Z_THRESHOLD_def)
  with es f classify_spec [OF f refl] show ?thesis
    by (intro exI [of _ es] exI [of _ e] exI [of _ z]) (simp add: a make_alert_def Let_def)
qed

text \<open>
  The service's counters account for its turns: over any number of turns of the loop, with
  any failures of the metastore and the broker, checks and errors together count the turns,
  and the published counter counts the alerts of the turns that completed; alerts sent before
  a failing publish are not counted.
\<close>

theorem anomaly_metrics:
  assumes "run_turns np_mean np_std envs (new_anomaly_service w) b = (turns, s', b')"
  shows "m_counter s' ''checks_total'' = of_nat (length (filter snd turns))
    \<and> m_counter s' ''checks_total'' + m_counter s' ''errors_total'' = of_nat (length envs)
    \<and> m_counter s' ''anomalies_published_total''
        = of_nat (sum_list (map (\<lambda>(sent, ok). if ok then length sent else 0) turns))"
proof -
  have "m_counter s' ''checks_total'' = m_counter s ''checks_total'' + of_nat (length (filter snd turns))
    \<and> m_counter s' ''checks_total'' + m_counter s' ''errors_total''
        = m_counter s ''checks_total'' + m_counter s ''errors_total'' + of_nat (length envs)
    \<and> m_counter s' ''anomalies_published_total'' = m_counter s ''anomalies_published_total''
        + of_nat (sum_list (map (\<lambda>(sent, ok). if ok then length sent else 0) turns))"
    if "run_turns np_mean np_std envs s b = (turns, s', b')" for s b envs turns
    using that
  proof (induction envs arbitrary: s b turns)
    case Nil
    then show ?case by simp
  next
    case (Cons env envs)
    obtain sent s1 b1 ok where t: "run_turn np_mean np_std env s b = (sent, s1, b1, ok)"
      by (metis surj_pair)
    obtain rest where r: "run_turns np_mean np_std envs s1 b1 = (rest, s', b')"
      and turns: "turns = (sent, ok) # rest"
      using Cons.prems by (auto simp: t split: prod.splits)
    show ?case
      using Cons.IH [OF r] run_turn_metrics [OF t] by (cases ok) (auto simp: turns)
  qed
  from this [OF assms] show ?thesis
    by (simp add: new_anomaly_service_def m_counter_def counter_def new_metrics_def)
qed

section \<open>Witnesses\<close>

definition rate_entry :: "string \<Rightarrow> py_float \<Rightarrow> stat_entry" where
  "rate_entry t x = \<lparr>se_entity_id = ''a'', se_entity_type = ''champion'', se_patch = ''16.1'',
     se_region = ''NA'', se_tier = t, se_win_rate = x, se_avg_placement = 4, se_play_rate = 0,
     se_sample_size = 300, se_clock = []\<rparr>"

definition rate_scan :: "string \<Rightarrow> stat_entry list option" where
  "rate_scan t = Some (if t = ''champion''
     then map (rate_entry ''GOLD'') [0, 1, 0, 1, 0, 1, 3] @ [rate_entry ''IRON'' 1, rate_entry ''SILVER'' 1]
     else [])"

text \<open>Stand-ins for NumPy that are exact on the sample data.\<close>

definition half_mean :: "py_float list \<Rightarrow> py_float" where "half_mean xs = 1/2"
definition half_std :: "py_float list \<Rightarrow> py_float" where "half_std xs = 1/2"

fun log_publish :: "string \<Rightarrow> alert \<Rightarrow> (string \<times> alert) list \<Rightarrow> (string \<times> alert) list option" where
  "log_publish t a b = Some (b @ [(t, a)])"


definition sample_run :: "alert list \<times> anomaly_service \<times> (string \<times> alert) list \<times> bool" where
  "sample_run = run_once half_mean half_std rate_scan log_publish (\<lambda>n. 0) (new_anomaly_service 48) []"

theorem alerts_sound_witness:
  "map a_tier (fst sample_run) = [''GOLD''] \<and> a_direction (hd (fst sample_run)) = ''rising''
   \<and> a_classification (hd (fst sample_run)) = ''tier_specific''"
proof -
  obtain sent s' b' ok where r: "sample_run = (sent, s', b', ok)" by (metis surj_pair)
  have "map a_tier (fst sample_run) = [''GOLD'']" by code_simp
  moreover have "a_classification (hd (fst sample_run)) = ''tier_specific''" by code_simp
  moreover have "hd sent \<in> set sent" using calculation(1) by (cases sent) (simp_all add: r)
  note alerts_sound [OF r [unfolded sample_run_def] this]
  then have "a_direction (hd (fst sample_run)) = ''rising''" by (auto simp: r)
  ultimately show ?thesis by blast
qed

theorem anomaly_metrics_witness:
  "m_counter (fst (snd (run_turns half_mean half_std
     [(rate_scan, log_publish, \<lambda>n. 0), (\<lambda>t. None, log_publish, \<lambda>n. 0)]
     (new_anomaly_service 48) []))) ''checks_total'' = 1"
proof -
  let ?envs = "[(rate_scan, log_publish, \<lambda>n. 0), (\<lambda>t. None, log_publish, \<lambda>n. 0)]"
  obtain turns s' b' where
    r: "run_turns half_mean half_std ?envs (new_anomaly_service 48) [] = (turns, s', b')"
    by (metis surj_pair)
  have "length (filter snd (fst (run_turns half_mean half_std ?envs (new_anomaly_service 48) []))) = 1"
    by code_simp
  then show ?thesis using anomaly_metrics [OF r] r by simp
qed

end
