(* ===== verification/Tft_Augments.thy ===== *)
theory Tft_Augments
  imports Tft_Data
begin

text \<open>
  The augment catalogue of \<open>common/tft_data.py\<close>: the list of ids and the two dictionaries
  that give each id its tier and its category. Each table has the augments of a set first, then
  those that every set offers.
\<close>

section \<open>Tables\<close>

definition SET_AUGMENT_IDS :: "string list" where
  "SET_AUGMENT_IDS = [
    ''TFT10_Augment_CrashTestDummies'',
    ''TFT10_Augment_GoingLong'',
    ''TFT10_Augment_GoodForSomethingSilver'',
    ''TFT10_Augment_HeroicGrabBag'',
    ''TFT10_Augment_LittleBuddies'',
    ''TFT11_Augment_AtWhatCost'',
    ''TFT11_Augment_BloodBank'',
    ''TFT11_Augment_Buildabud'',
    ''TFT11_Augment_Calltochaos'',
    ''TFT11_Augment_Epoch'',
    ''TFT11_Augment_EpochPlus'',
    ''TFT11_Augment_Prizefighter'',
    ''TFT11_Augment_Reinfourcement'',
    ''TFT11_Augment_Slammin'',
    ''TFT11_Augment_Slammin_Plus'',
    ''TFT11_Augment_TinyButDeadly'',
    ''TFT16_Augment_UltraRapidFire'',
    ''TFT17_Augment_AatroxCarry'',
    ''TFT17_Augment_AhriGodAugment'',
    ''TFT17_Augment_AnimaSquad_Commander'',
    ''TFT17_Augment_ApotheoticForge'',
    ''TFT17_Augment_Arbiter_DivineAmendment'',
    ''TFT17_Augment_AurelionSolGodAugment'',
    ''TFT17_Augment_AurelionSolGodAugment_BoonOfResurrection'',
    ''TFT17_Augment_Concentration'',
    ''TFT17_Augment_DarkStar_WhiteHole'',
    ''TFT17_Augment_EkkoGodAugment'',
    ''TFT17_Augment_EvelynnGodAugment'',
    ''TFT17_Augment_EvelynnGodAugment_BloodPrice'',
    ''TFT17_Augment_GragasCarry'',
    ''TFT17_Augment_InvaderZed'',
    ''TFT17_Augment_IvernMinionCarry'',
    ''TFT17_Augment_JaxCarry'',
    ''TFT17_Augment_KayleGodAugment'',
    ''TFT17_Augment_KayleGodAugment_Scrapper'',
    ''TFT17_Augment_LeonaCarry'',
    ''TFT17_Augment_MordekaiserCarry'',
    ''TFT17_Augment_NasusCarry'',
    ''TFT17_Augment_PoppyCarry'',
    ''TFT17_Augment_PrimordianPrismaticAugment'',
    ''TFT17_Augment_PykeCarry'',
    ''TFT17_Augment_SorakaGodAugment'',
    ''TFT17_Augment_ThreshGodAugment'',
    ''TFT17_Augment_Timebreaker_Timestream'',
    ''TFT17_Augment_TourOfTheGalaxy'',
    ''TFT17_Augment_VarusGodAugment_BoonOfStars'',
    ''TFT17_Augment_YasuoGodAugment_GoldenHex'',
    ''TFT17_Augment_YasuoGodAugment_MoreHexes'',
    ''TFT17_Augment_YasuoGodAugment_PaintedPower'',
    ''TFT6_Augment_BandOfThieves2'',
    ''TFT6_Augment_BandOfThieves2Plus'',
    ''TFT6_Augment_BandOfThieves2PlusPlus'',
    ''TFT6_Augment_CalculatedLoss'',
    ''TFT6_Augment_ClearMind'',
    ''TFT6_Augment_CyberneticImplants2'',
    ''TFT6_Augment_CyberneticUplink2'',
    ''TFT6_Augment_Distancing'',
    ''TFT6_Augment_Distancing2'',
    ''TFT6_Augment_Diversify1'',
    ''TFT6_Augment_Electrocharge1'',
    ''TFT6_Augment_Electrocharge2'',
    ''TFT6_Augment_ForceOfNature'',
    ''TFT6_Augment_ForceOfNaturePlus'',
    ''TFT6_Augment_GachaAddict'',
    ''TFT6_Augment_HyperRoll'',
    ''TFT6_Augment_ItemGrabBag1'',
    ''TFT6_Augment_MakeshiftArmor1'',
    ''TFT6_Augment_MakeshiftArmor2'',
    ''TFT6_Augment_MaxLevel10'',
    ''TFT6_Augment_OneTwoFive'',
    ''TFT6_Augment_PandorasItems'',
    ''TFT6_Augment_PortableForge'',
    ''TFT6_Augment_Recombobulator'',
    ''TFT6_Augment_SalvageBin'',
    ''TFT6_Augment_SecondWind1'',
    ''TFT6_Augment_SecondWind2'',
    ''TFT6_Augment_SunfireBoard'',
    ''TFT6_Augment_TheGoldenEgg'',
    ''TFT6_Augment_ThriftShop'',
    ''TFT6_Augment_TinyTitans'',
    ''TFT6_Augment_TradeSector'',
    ''TFT6_Augment_TradeSector2'',
    ''TFT7_Augment_AFK'',
    ''TFT7_Augment_BandOfThieves1'',
    ''TFT7_Augment_BestFriends1'',
    ''TFT7_Augment_BestFriends2'',
    ''TFT7_Augment_BirthdayPresents'',
    ''TFT7_Augment_ClutteredMind'',
    ''TFT7_Augment_CursedCrown'',
    ''TFT7_Augment_LategameSpecialist'',
    ''TFT7_Augment_LivingForge'',
    ''TFT7_Augment_LuckyGloves'',
    ''TFT7_Augment_LuckyGlovesPlus'',
    ''TFT7_Augment_UrfsGrabBag2'',
    ''TFT8_Augment_SalvageBinPlus'',
    ''TFT9_Augment_ArmyBuilding'',
    ''TFT9_Augment_BardPlaybook1'',
    ''TFT9_Augment_BigGrabBag'',
    ''TFT9_Augment_BuildingACollectionPlusPlus'',
    ''TFT9_Augment_Commander_Ascension'',
    ''TFT9_Augment_Commander_PartialAscension'',
    ''TFT9_Augment_Commander_RollingForDays'',
    ''TFT9_Augment_Commander_TeamingUp1'',
    ''TFT9_Augment_GreaterJeweledLotus'',
    ''TFT9_Augment_HealingOrbsI'',
    ''TFT9_Augment_HealingOrbsII'',
    ''TFT9_Augment_HedgeFund'',
    ''TFT9_Augment_HedgeFundPlus'',
    ''TFT9_Augment_IronAssets'',
    ''TFT9_Augment_JeweledLotus'',
    ''TFT9_Augment_LearningFromExperience2'',
    ''TFT9_Augment_Legend_HighEndSector'',
    ''TFT9_Augment_LongTimeCrafting'',
    ''TFT9_Augment_MissedConnections'',
    ''TFT9_Augment_OneTwosThree'',
    ''TFT9_Augment_PandorasItems2'',
    ''TFT9_Augment_PandorasRadiantBox'',
    ''TFT9_Augment_RiskyMoves'',
    ''TFT9_Augment_RollTheDice'',
    ''TFT9_Augment_SilverSpoon'',
    ''TFT9_Augment_TiniestTitanPlus'',
    ''TFT9_Augment_TonsOfStats'',
    ''TFT9_Augment_YouHaveMyBow'']"

definition GENERIC_AUGMENT_IDS :: "string list" where
  "GENERIC_AUGMENT_IDS = [
    ''TFT_Augment_AdvancedLoan'',
    ''TFT_Augment_AdvancedLoanPlus'',
    ''TFT_Augment_AnExaltedAdventure'',
    ''TFT_Augment_ArcaneViktory'',
    ''TFT_Augment_AuraFarming'',
    ''TFT_Augment_AwakenedSoul'',
    ''TFT_Augment_BacklineBlueprint'',
    ''TFT_Augment_BeltOverflow'',
    ''TFT_Augment_BirthdayReunion'',
    ''TFT_Augment_BodyguardTraining'',
    ''TFT_Augment_BoosterPack'',
    ''TFT_Augment_BoosterPackPlus'',
    ''TFT_Augment_BoxingLessons'',
    ''TFT_Augment_BranchingOut'',
    ''TFT_Augment_BranchingOutPlus'',
    ''TFT_Augment_BronzeForLife2'',
    ''TFT_Augment_BronzeForLifeI'',
    ''TFT_Augment_ChargeTransfer1'',
    ''TFT_Augment_ChargeTransfer2'',
    ''TFT_Augment_ClimbTheLadder1'',
    ''TFT_Augment_ClimbTheLadder2'',
    ''TFT_Augment_ClockworkAccelerator'',
    ''TFT_Augment_CognitiveOverload'',
    ''TFT_Augment_CognitiveTax'',
    ''TFT_Augment_CognitiveTaxPlus'',
    ''TFT_Augment_ComebackStory'',
    ''TFT_Augment_ComponentQuestBow'',
    ''TFT_Augment_ComponentQuestRod'',
    ''TFT_Augment_ComponentQuestSword'',
    ''TFT_Augment_ComponentQuestTear'',
    ''TFT_Augment_ConstructACompanion'',
    ''TFT_Augment_Corrosion'',
    ''TFT_Augment_CosmicRestart'',
    ''TFT_Augment_CraftedCrafting'',
    ''TFT_Augment_CryMeARiver'',
    ''TFT_Augment_DeadlierCaps'',
    ''TFT_Augment_Dhampyr1'',
    ''TFT_Augment_Dummify'',
    ''TFT_Augment_DuoQueue'',
    ''TFT_Augment_EarlyLearning'',
    ''TFT_Augment_EpicRolldown'',
    ''TFT_Augment_ExclusiveCustomization'',
    ''TFT_Augment_ExclusiveCustomization2'',
    ''TFT_Augment_ExpectedUnexpectedness'',
    ''TFT_Augment_Expedition'',
    ''TFT_Augment_ExplosiveGrowth'',
    ''TFT_Augment_ExplosiveGrowthPlus'',
    ''TFT_Augment_FeedTheFlames'',
    ''TFT_Augment_FeelingLucky'',
    ''TFT_Augment_FindYourCenter'',
    ''TFT_Augment_FiresalePlus'',
    ''TFT_Augment_Flexible'',
    ''TFT_Augment_ForgeAFriend'',
    ''TFT_Augment_ForgeRod'',
    ''TFT_Augment_ForgeSword'',
    ''TFT_Augment_ForgedInStrength'',
    ''TFT_Augment_ForwardThinking'',
    ''TFT_Augment_FrontlineFoundation'',
    ''TFT_Augment_FuriousBlows'',
    ''TFT_Augment_GainGold'',
    ''TFT_Augment_GiantAndMighty'',
    ''TFT_Augment_GildedSteel'',
    ''TFT_Augment_GlassCannonI'',
    ''TFT_Augment_GlassCannonII'',
    ''TFT_Augment_GoldenGamble'',
    ''TFT_Augment_GoldenGamblePlus'',
    ''TFT_Augment_GoldenGamblePlusPlus'',
    ''TFT_Augment_GroupHug1'',
    ''TFT_Augment_GroupHug2'',
    ''TFT_Augment_GuardbreakerSpirit'',
    ''TFT_Augment_HardCommit'',
    ''TFT_Augment_HeavyIsTheCrown'',
    ''TFT_Augment_HeroicGrabBagPlus'',
    ''TFT_Augment_HeroicGrabBagPlusPlus'',
    ''TFT_Augment_HighVoltage'',
    ''TFT_Augment_HoldTheLine'',
    ''TFT_Augment_HomeCooking'',
    ''TFT_Augment_InfinityProtection'',
    ''TFT_Augment_InvestedPlus'',
    ''TFT_Augment_InvestedPlusPlus'',
    ''TFT_Augment_ItemGargoyleStoneplate'',
    ''TFT_Augment_ItemSpiritVisage'',
    ''TFT_Augment_JustSlayer'',
    ''TFT_Augment_KickStart'',
    ''TFT_Augment_LateGameScaling'',
    ''TFT_Augment_LegionOfThrees'',
    ''TFT_Augment_Lineup'',
    ''TFT_Augment_LuxurySubscription'',
    ''TFT_Augment_MagicRoll'',
    ''TFT_Augment_MagicRollMinus'',
    ''TFT_Augment_MarksMan'',
    ''TFT_Augment_MayTheFoursBeWithYou'',
    ''TFT_Augment_MinMaxer'',
    ''TFT_Augment_MirroredMonetization'',
    ''TFT_Augment_Misfits'',
    ''TFT_Augment_MoneyHungry'',
    ''TFT_Augment_MoneyMonsoon'',
    ''TFT_Augment_MuseumHeist'',
    ''TFT_Augment_NoScoutNoPivot'',
    ''TFT_Augment_OneBuffTwoBuff'',
    ''TFT_Augment_PatienceIsAVirtue'',
    ''TFT_Augment_Pilfer'',
    ''TFT_Augment_PlotArmor'',
    ''TFT_Augment_PowerUp'',
    ''TFT_Augment_Replication'',
    ''TFT_Augment_RestartMission'',
    ''TFT_Augment_Retribution'',
    ''TFT_Augment_SavingsAccount'',
    ''TFT_Augment_SeraphimsStaff'',
    ''TFT_Augment_ShimmerscaleEssence'',
    ''TFT_Augment_SideEffects'',
    ''TFT_Augment_SizeMatters'',
    ''TFT_Augment_SliceOfLife'',
    ''TFT_Augment_SmallGrabBag'',
    ''TFT_Augment_SoloLeveling'',
    ''TFT_Augment_SpeedyDoubleKill'',
    ''TFT_Augment_SpreadingRoots'',
    ''TFT_Augment_SpreadingRootsPlus'',
    ''TFT_Augment_SubscriptionService'',
    ''TFT_Augment_Survivor'',
    ''TFT_Augment_SweetTreats'',
    ''TFT_Augment_SwordOverflow'',
    ''TFT_Augment_TacticiansKitchen'',
    ''TFT_Augment_TheBaronsLair'',
    ''TFT_Augment_TheDarkinBlade'',
    ''TFT_Augment_TheGoldenDragon'',
    ''TFT_Augment_TheTower'',
    ''TFT_Augment_TheVidalion'',
    ''TFT_Augment_TragicalBlade'',
    ''TFT_Augment_TraitTree'',
    ''TFT_Augment_TraitTreePlus'',
    ''TFT_Augment_TreasureHunt'',
    ''TFT_Augment_Trifecta1'',
    ''TFT_Augment_Trifecta2'',
    ''TFT_Augment_TwinGuardians'',
    ''TFT_Augment_TwoMuchValue'',
    ''TFT_Augment_TwoTanky'',
    ''TFT_Augment_Unforgotten'',
    ''TFT_Augment_UpwardMobility'',
    ''TFT_Augment_UrfsGambit'',
    ''TFT_Augment_WandOverflow'',
    ''TFT_Augment_WarmogsBuckle'',
    ''TFT_Augment_Warpath'',
    ''TFT_Augment_Waverider'',
    ''TFT_Augment_WeStickTogether'',
    ''TFT_Augment_WinOut'',
    ''TFT_Augment_WorthTheWaitGold'',
    ''TFT_Augment_WorthTheWaitPrismatic'']"

definition AUGMENTS :: "string list" where
  "AUGMENTS = SET_AUGMENT_IDS @ GENERIC_AUGMENT_IDS"

definition SET_AUGMENT_TIERS :: "(string, string) dict" where
  "SET_AUGMENT_TIERS = [
    (''TFT10_Augment_CrashTestDummies'', ''gold''),
    (''TFT10_Augment_GoingLong'', ''gold''),
    (''TFT10_Augment_GoodForSomethingSilver'', ''silver''),
    (''TFT10_Augment_HeroicGrabBag'', ''gold''),
    (''TFT10_Augment_LittleBuddies'', ''gold''),
    (''TFT11_Augment_AtWhatCost'', ''gold''),
    (''TFT11_Augment_BloodBank'', ''gold''),
    (''TFT11_Augment_Buildabud'', ''gold''),
    (''TFT11_Augment_Calltochaos'', ''gold''),
    (''TFT11_Augment_Epoch'', ''gold''),
    (''TFT11_Augment_EpochPlus'', ''gold''),
    (''TFT11_Augment_Prizefighter'', ''gold''),
    (''TFT11_Augment_Reinfourcement'', ''gold''),
    (''TFT11_Augment_Slammin'', ''gold''),
    (''TFT11_Augment_Slammin_Plus'', ''gold''),
    (''TFT11_Augment_TinyButDeadly'', ''gold''),
    (''TFT16_Augment_UltraRapidFire'', ''gold''),
    (''TFT17_Augment_AatroxCarry'', ''gold''),
    (''TFT17_Augment_AhriGodAugment'', ''gold''),
    (''TFT17_Augment_AnimaSquad_Commander'', ''gold''),
    (''TFT17_Augment_ApotheoticForge'', ''gold''),
    (''TFT17_Augment_Arbiter_DivineAmendment'', ''gold''),
    (''TFT17_Augment_AurelionSolGodAugment'', ''gold''),
    (''TFT17_Augment_AurelionSolGodAugment_BoonOfResurrection'', ''gold''),
    (''TFT17_Augment_Concentration'', ''gold''),
    (''TFT17_Augment_DarkStar_WhiteHole'', ''gold''),
    (''TFT17_Augment_EkkoGodAugment'', ''gold''),
    (''TFT17_Augment_EvelynnGodAugment'', ''gold''),
    (''TFT17_Augment_EvelynnGodAugment_BloodPrice'', ''gold''),
    (''TFT17_Augment_GragasCarry'', ''gold''),
    (''TFT17_Augment_InvaderZed'', ''gold''),
    (''TFT17_Augment_IvernMinionCarry'', ''gold''),
    (''TFT17_Augment_JaxCarry'', ''gold''),
    (''TFT17_Augment_KayleGodAugment'', ''gold''),
    (''TFT17_Augment_KayleGodAugment_Scrapper'', ''gold''),
    (''TFT17_Augment_LeonaCarry'', ''gold''),
    (''TFT17_Augment_MordekaiserCarry'', ''gold''),
    (''TFT17_Augment_NasusCarry'', ''gold''),
    (''TFT17_Augment_PoppyCarry'', ''gold''),
    (''TFT17_Augment_PrimordianPrismaticAugment'', ''gold''),
    (''TFT17_Augment_PykeCarry'', ''gold''),
    (''TFT17_Augment_SorakaGodAugment'', ''gold''),
    (''TFT17_Augment_ThreshGodAugment'', ''gold''),
    (''TFT17_Augment_Timebreaker_Timestream'', ''gold''),
    (''TFT17_Augment_TourOfTheGalaxy'', ''gold''),
    (''TFT17_Augment_VarusGodAugment_BoonOfStars'', ''gold''),
    (''TFT17_Augment_YasuoGodAugment_GoldenHex'', ''gold''),
    (''TFT17_Augment_YasuoGodAugment_MoreHexes'', ''gold''),
    (''TFT17_Augment_YasuoGodAugment_PaintedPower'', ''gold''),
    (''TFT6_Augment_BandOfThieves2'', ''gold''),
    (''TFT6_Augment_BandOfThieves2Plus'', ''gold''),
    (''TFT6_Augment_BandOfThieves2PlusPlus'', ''gold''),
    (''TFT6_Augment_CalculatedLoss'', ''gold''),
    (''TFT6_Augment_ClearMind'', ''gold''),
    (''TFT6_Augment_CyberneticImplants2'', ''gold''),
    (''TFT6_Augment_CyberneticUplink2'', ''gold''),
    (''TFT6_Augment_Distancing'', ''silver''),
    (''TFT6_Augment_Distancing2'', ''gold''),
    (''TFT6_Augment_Diversify1'', ''gold''),
    (''TFT6_Augment_Electrocharge1'', ''silver''),
    (''TFT6_Augment_Electrocharge2'', ''gold''),
    (''TFT6_Augment_ForceOfNature'', ''gold''),
    (''TFT6_Augment_ForceOfNaturePlus'', ''gold''),
    (''TFT6_Augment_GachaAddict'', ''gold''),
    (''TFT6_Augment_HyperRoll'', ''gold''),
    (''TFT6_Augment_ItemGrabBag1'', ''gold''),
    (''TFT6_Augment_MakeshiftArmor1'', ''silver''),
    (''TFT6_Augment_MakeshiftArmor2'', ''gold''),
    (''TFT6_Augment_MaxLevel10'', ''gold''),
    (''TFT6_Augment_OneTwoFive'', ''gold''),
    (''TFT6_Augment_PandorasItems'', ''gold''),
    (''TFT6_Augment_PortableForge'', ''gold''),
    (''TFT6_Augment_Recombobulator'', ''gold''),
    (''TFT6_Augment_SalvageBin'', ''gold''),
    (''TFT6_Augment_SecondWind1'', ''gold''),
    (''TFT6_Augment_SecondWind2'', ''gold''),
    (''TFT6_Augment_SunfireBoard'', ''gold''),
    (''TFT6_Augment_TheGoldenEgg'', ''gold''),
    (''TFT6_Augment_ThriftShop'', ''gold''),
    (''TFT6_Augment_TinyTitans'', ''gold''),
    (''TFT6_Augment_TradeSector'', ''gold''),
    (''TFT6_Augment_TradeSector2'', ''gold''),
    (''TFT7_Augment_AFK'', ''gold''),
    (''TFT7_Augment_BandOfThieves1'', ''gold''),
    (''TFT7_Augment_BestFriends1'', ''silver''),
    (''TFT7_Augment_BestFriends2'', ''gold''),
    (''TFT7_Augment_BirthdayPresents'', ''gold''),
    (''TFT7_Augment_ClutteredMind'', ''gold''),
    (''TFT7_Augment_CursedCrown'', ''gold''),
    (''TFT7_Augment_LategameSpecialist'', ''gold''),
    (''TFT7_Augment_LivingForge'', ''gold''),
    (''TFT7_Augment_LuckyGloves'', ''gold''),
    (''TFT7_Augment_LuckyGlovesPlus'', ''gold''),
    (''TFT7_Augment_UrfsGrabBag2'', ''gold''),
    (''TFT8_Augment_SalvageBinPlus'', ''gold''),
    (''TFT9_Augment_ArmyBuilding'', ''gold''),
    (''TFT9_Augment_BardPlaybook1'', ''gold''),
    (''TFT9_Augment_BigGrabBag'', ''gold''),
    (''TFT9_Augment_BuildingACollectionPlusPlus'', ''gold''),
    (''TFT9_Augment_Commander_Ascension'', ''gold''),
    (''TFT9_Augment_Commander_PartialAscension'', ''gold''),
    (''TFT9_Augment_Commander_RollingForDays'', ''silver''),
    (''TFT9_Augment_Commander_TeamingUp1'', ''gold''),
    (''TFT9_Augment_GreaterJeweledLotus'', ''gold''),
    (''TFT9_Augment_HealingOrbsI'', ''silver''),
    (''TFT9_Augment_HealingOrbsII'', ''gold''),
    (''TFT9_Augment_HedgeFund'', ''gold''),
    (''TFT9_Augment_HedgeFundPlus'', ''gold''),
    (''TFT9_Augment_IronAssets'', ''gold''),
    (''TFT9_Augment_JeweledLotus'', ''silver''),
    (''TFT9_Augment_LearningFromExperience2'', ''gold''),
    (''TFT9_Augment_Legend_HighEndSector'', ''gold''),
    (''TFT9_Augment_LongTimeCrafting'', ''gold''),
    (''TFT9_Augment_MissedConnections'', ''gold''),
    (''TFT9_Augment_OneTwosThree'', ''gold''),
    (''TFT9_Augment_PandorasItems2'', ''gold''),
    (''TFT9_Augment_PandorasRadiantBox'', ''prismatic''),
    (''TFT9_Augment_RiskyMoves'', ''gold''),
    (''TFT9_Augment_RollTheDice'', ''gold''),
    (''TFT9_Augment_SilverSpoon'', ''gold''),
    (''TFT9_Augment_TiniestTitanPlus'', ''gold''),
    (''TFT9_Augment_TonsOfStats'', ''gold''),
    (''TFT9_Augment_YouHaveMyBow'', ''gold'')]"

definition GENERIC_AUGMENT_TIERS :: "(string, string) dict" where
  "GENERIC_AUGMENT_TIERS = [
    (''TFT_Augment_AdvancedLoan'', ''gold''),
    (''TFT_Augment_AdvancedLoanPlus'', ''gold''),
    (''TFT_Augment_AnExaltedAdventure'', ''gold''),
    (''TFT_Augment_ArcaneViktory'', ''gold''),
    (''TFT_Augment_AuraFarming'', ''gold''),
    (''TFT_Augment_AwakenedSoul'', ''gold''),
    (''TFT_Augment_BacklineBlueprint'', ''gold''),
    (''TFT_Augment_BeltOverflow'', ''gold''),
    (''TFT_Augment_BirthdayReunion'', ''gold''),
    (''TFT_Augment_BodyguardTraining'', ''gold''),
    (''TFT_Augment_BoosterPack'', ''gold''),
    (''TFT_Augment_BoosterPackPlus'', ''gold''),
    (''TFT_Augment_BoxingLessons'', ''gold''),
    (''TFT_Augment_BranchingOut'', ''gold''),
    (''TFT_Augment_BranchingOutPlus'', ''gold''),
    (''TFT_Augment_BronzeForLife2'', ''gold''),
    (''TFT_Augment_BronzeForLifeI'', ''silver''),
    (''TFT_Augment_ChargeTransfer1'', ''silver''),
    (''TFT_Augment_ChargeTransfer2'', ''gold''),
    (''TFT_Augment_ClimbTheLadder1'', ''silver''),
    (''TFT_Augment_ClimbTheLadder2'', ''gold''),
    (''TFT_Augment_ClockworkAccelerator'', ''gold''),
    (''TFT_Augment_CognitiveOverload'', ''gold''),
    (''TFT_Augment_CognitiveTax'', ''gold''),
    (''TFT_Augment_CognitiveTaxPlus'', ''gold''),
    (''TFT_Augment_ComebackStory'', ''gold''),
    (''TFT_Augment_ComponentQuestBow'', ''gold''),
    (''TFT_Augment_ComponentQuestRod'', ''gold''),
    (''TFT_Augment_ComponentQuestSword'', ''gold''),
    (''TFT_Augment_ComponentQuestTear'', ''gold''),
    (''TFT_Augment_ConstructACompanion'', ''gold''),
    (''TFT_Augment_Corrosion'', ''gold''),
    (''TFT_Augment_CosmicRestart'', ''gold''),
    (''TFT_Augment_CraftedCrafting'', ''gold''),
    (''TFT_Augment_CryMeARiver'', ''gold''),
    (''TFT_Augment_DeadlierCaps'', ''gold''),
    (''TFT_Augment_Dhampyr1'', ''silver''),
    (''TFT_Augment_Dummify'', ''gold''),
    (''TFT_Augment_DuoQueue'', ''gold''),
    (''TFT_Augment_EarlyLearning'', ''gold''),
    (''TFT_Augment_EpicRolldown'', ''gold''),
    (''TFT_Augment_ExclusiveCustomization'', ''gold''),
    (''TFT_Augment_ExclusiveCustomization2'', ''gold''),
    (''TFT_Augment_ExpectedUnexpectedness'', ''gold''),
    (''TFT_Augment_Expedition'', ''gold''),
    (''TFT_Augment_ExplosiveGrowth'', ''gold''),
    (''TFT_Augment_ExplosiveGrowthPlus'', ''gold''),
    (''TFT_Augment_FeedTheFlames'', ''gold''),
    (''TFT_Augment_FeelingLucky'', ''gold''),
    (''TFT_Augment_FindYourCenter'', ''gold''),
    (''TFT_Augment_FiresalePlus'', ''gold''),
    (''TFT_Augment_Flexible'', ''gold''),
    (''TFT_Augment_ForgeAFriend'', ''gold''),
    (''TFT_Augment_ForgeRod'', ''gold''),
    (''TFT_Augment_ForgeSword'', ''gold''),
    (''TFT_Augment_ForgedInStrength'', ''gold''),
    (''TFT_Augment_ForwardThinking'', ''gold''),
    (''TFT_Augment_FrontlineFoundation'', ''gold''),
    (''TFT_Augment_FuriousBlows'', ''gold''),
    (''TFT_Augment_GainGold'', ''gold''),
    (''TFT_Augment_GiantAndMighty'', ''gold''),
    (''TFT_Augment_GildedSteel'', ''gold''),
    (''TFT_Augment_GlassCannonI'', ''silver''),
    (''TFT_Augment_GlassCannonII'', ''gold''),
    (''TFT_Augment_GoldenGamble'', ''gold''),
    (''TFT_Augment_GoldenGamblePlus'', ''gold''),
    (''TFT_Augment_GoldenGamblePlusPlus'', ''gold''),
    (''TFT_Augment_GroupHug1'', ''silver''),
    (''TFT_Augment_GroupHug2'', ''gold''),
    (''TFT_Augment_GuardbreakerSpirit'', ''gold''),
    (''TFT_Augment_HardCommit'', ''gold''),
    (''TFT_Augment_HeavyIsTheCrown'', ''gold''),
    (''TFT_Augment_HeroicGrabBagPlus'', ''gold''),
    (''TFT_Augment_HeroicGrabBagPlusPlus'', ''gold''),
    (''TFT_Augment_HighVoltage'', ''gold''),
    (''TFT_Augment_HoldTheLine'', ''gold''),
    (''TFT_Augment_HomeCooking'', ''gold''),
    (''TFT_Augment_InfinityProtection'', ''gold''),
    (''TFT_Augment_InvestedPlus'', ''gold''),
    (''TFT_Augment_InvestedPlusPlus'', ''gold''),
    (''TFT_Augment_ItemGargoyleStoneplate'', ''gold''),
    (''TFT_Augment_ItemSpiritVisage'', ''gold''),
    (''TFT_Augment_JustSlayer'', ''gold''),
    (''TFT_Augment_KickStart'', ''gold''),
    (''TFT_Augment_LateGameScaling'', ''gold''),
    (''TFT_Augment_LegionOfThrees'', ''gold''),
    (''TFT_Augment_Lineup'', ''gold''),
    (''TFT_Augment_LuxurySubscription'', ''gold''),
    (''TFT_Augment_MagicRoll'', ''gold''),
    (''TFT_Augment_MagicRollMinus'', ''gold''),
    (''TFT_Augment_MarksMan'', ''gold''),
    (''TFT_Augment_MayTheFoursBeWithYou'', ''gold''),
    (''TFT_Augment_MinMaxer'', ''gold''),
    (''TFT_Augment_MirroredMonetization'', ''gold''),
    (''TFT_Augment_Misfits'', ''gold''),
    (''TFT_Augment_MoneyHungry'', ''gold''),
    (''TFT_Augment_MoneyMonsoon'', ''gold''),
    (''TFT_Augment_MuseumHeist'', ''gold''),
    (''TFT_Augment_NoScoutNoPivot'', ''gold''),
    (''TFT_Augment_OneBuffTwoBuff'', ''gold''),
    (''TFT_Augment_PatienceIsAVirtue'', ''gold''),
    (''TFT_Augment_Pilfer'', ''gold''),
    (''TFT_Augment_PlotArmor'', ''gold''),
    (''TFT_Augment_PowerUp'', ''gold''),
    (''TFT_Augment_Replication'', ''gold''),
    (''TFT_Augment_RestartMission'', ''gold''),
    (''TFT_Augment_Retribution'', ''gold''),
    (''TFT_Augment_SavingsAccount'', ''gold''),
    (''TFT_Augment_SeraphimsStaff'', ''gold''),
    (''TFT_Augment_ShimmerscaleEssence'', ''gold''),
    (''TFT_Augment_SideEffects'', ''gold''),
    (''TFT_Augment_SizeMatters'', ''gold''),
    (''TFT_Augment_SliceOfLife'', ''gold''),
    (''TFT_Augment_SmallGrabBag'', ''gold''),
    (''TFT_Augment_SoloLeveling'', ''gold''),
    (''TFT_Augment_SpeedyDoubleKill'', ''gold''),
    (''TFT_Augment_SpreadingRoots'', ''gold''),
    (''TFT_Augment_SpreadingRootsPlus'', ''gold''),
    (''TFT_Augment_SubscriptionService'', ''gold''),
    (''TFT_Augment_Survivor'', ''gold''),
    (''TFT_Augment_SweetTreats'', ''gold''),
    (''TFT_Augment_SwordOverflow'', ''gold''),
    (''TFT_Augment_TacticiansKitchen'', ''gold''),
    (''TFT_Augment_TheBaronsLair'', ''gold''),
    (''TFT_Augment_TheDarkinBlade'', ''gold''),
    (''TFT_Augment_TheGoldenDragon'', ''gold''),
    (''TFT_Augment_TheTower'', ''gold''),
    (''TFT_Augment_TheVidalion'', ''gold''),
    (''TFT_Augment_TragicalBlade'', ''gold''),
    (''TFT_Augment_TraitTree'', ''gold''),
    (''TFT_Augment_TraitTreePlus'', ''gold''),
    (''TFT_Augment_TreasureHunt'', ''gold''),
    (''TFT_Augment_Trifecta1'', ''silver''),
    (''TFT_Augment_Trifecta2'', ''gold''),
    (''TFT_Augment_TwinGuardians'', ''gold''),
    (''TFT_Augment_TwoMuchValue'', ''gold''),
    (''TFT_Augment_TwoTanky'', ''gold''),
    (''TFT_Augment_Unforgotten'', ''gold''),
    (''TFT_Augment_UpwardMobility'', ''gold''),
    (''TFT_Augment_UrfsGambit'', ''gold''),
    (''TFT_Augment_WandOverflow'', ''gold''),
    (''TFT_Augment_WarmogsBuckle'', ''gold''),
    (''TFT_Augment_Warpath'', ''gold''),
    (''TFT_Augment_Waverider'', ''gold''),
    (''TFT_Augment_WeStickTogether'', ''gold''),
    (''TFT_Augment_WinOut'', ''gold''),
    (''TFT_Augment_WorthTheWaitGold'', ''gold''),
    (''TFT_Augment_WorthTheWaitPrismatic'', ''gold'')]"

definition AUGMENT_TIERS :: "(string, string) dict" where
  "AUGMENT_TIERS = SET_AUGMENT_TIERS @ GENERIC_AUGMENT_TIERS"

definition SET_AUGMENT_CATEGORIES :: "(string, string) dict" where
  "SET_AUGMENT_CATEGORIES = [
    (''TFT10_Augment_CrashTestDummies'', ''standard''),
    (''TFT10_Augment_GoingLong'', ''standard''),
    (''TFT10_Augment_GoodForSomethingSilver'', ''standard''),
    (''TFT10_Augment_HeroicGrabBag'', ''standard''),
    (''TFT10_Augment_LittleBuddies'', ''standard''),
    (''TFT11_Augment_AtWhatCost'', ''standard''),
    (''TFT11_Augment_BloodBank'', ''standard''),
    (''TFT11_Augment_Buildabud'', ''standard''),
    (''TFT11_Augment_Calltochaos'', ''standard''),
    (''TFT11_Augment_Epoch'', ''standard''),
    (''TFT11_Augment_EpochPlus'', ''standard''),
    (''TFT11_Augment_Prizefighter'', ''standard''),
    (''TFT11_Augment_Reinfourcement'', ''standard''),
    (''TFT11_Augment_Slammin'', ''standard''),
    (''TFT11_Augment_Slammin_Plus'', ''standard''),
    (''TFT11_Augment_TinyButDeadly'', ''standard''),
    (''TFT16_Augment_UltraRapidFire'', ''standard''),
    (''TFT17_Augment_AatroxCarry'', ''standard''),
    (''TFT17_Augment_AhriGodAugment'', ''god''),
    (''TFT17_Augment_AnimaSquad_Commander'', ''standard''),
    (''TFT17_Augment_ApotheoticForge'', ''standard''),
    (''TFT17_Augment_Arbiter_DivineAmendment'', ''standard''),
    (''TFT17_Augment_AurelionSolGodAugment'', ''god''),
    (''TFT17_Augment_AurelionSolGodAugment_BoonOfResurrection'', ''god''),
    (''TFT17_Augment_Concentration'', ''standard''),
    (''TFT17_Augment_DarkStar_WhiteHole'', ''standard''),
    (''TFT17_Augment_EkkoGodAugment'', ''god''),
    (''TFT17_Augment_EvelynnGodAugment'', ''god''),
    (''TFT17_Augment_EvelynnGodAugment_BloodPrice'', ''god''),
    (''TFT17_Augment_GragasCarry'', ''standard''),
    (''TFT17_Augment_InvaderZed'', ''standard''),
    (''TFT17_Augment_IvernMinionCarry'', ''standard''),
    (''TFT17_Augment_JaxCarry'', ''standard''),
    (''TFT17_Augment_KayleGodAugment'', ''god''),
    (''TFT17_Augment_KayleGodAugment_Scrapper'', ''god''),
    (''TFT17_Augment_LeonaCarry'', ''standard''),
    (''TFT17_Augment_MordekaiserCarry'', ''standard''),
    (''TFT17_Augment_NasusCarry'', ''standard''),
    (''TFT17_Augment_PoppyCarry'', ''standard''),
    (''TFT17_Augment_PrimordianPrismaticAugment'', ''standard''),
    (''TFT17_Augment_PykeCarry'', ''standard''),
    (''TFT17_Augment_SorakaGodAugment'', ''god''),
    (''TFT17_Augment_ThreshGodAugment'', ''god''),
    (''TFT17_Augment_Timebreaker_Timestream'', ''standard''),
    (''TFT17_Augment_TourOfTheGalaxy'', ''standard''),
    (''TFT17_Augment_VarusGodAugment_BoonOfStars'', ''god''),
    (''TFT17_Augment_YasuoGodAugment_GoldenHex'', ''god''),
    (''TFT17_Augment_YasuoGodAugment_MoreHexes'', ''god''),
    (''TFT17_Augment_YasuoGodAugment_PaintedPower'', ''god''),
    (''TFT6_Augment_BandOfThieves2'', ''standard''),
    (''TFT6_Augment_BandOfThieves2Plus'', ''standard''),
    (''TFT6_Augment_BandOfThieves2PlusPlus'', ''standard''),
    (''TFT6_Augment_CalculatedLoss'', ''standard''),
    (''TFT6_Augment_ClearMind'', ''standard''),
    (''TFT6_Augment_CyberneticImplants2'', ''standard''),
    (''TFT6_Augment_CyberneticUplink2'', ''standard''),
    (''TFT6_Augment_Distancing'', ''standard''),
    (''TFT6_Augment_Distancing2'', ''standard''),
    (''TFT6_Augment_Diversify1'', ''standard''),
    (''TFT6_Augment_Electrocharge1'', ''standard''),
    (''TFT6_Augment_Electrocharge2'', ''standard''),
    (''TFT6_Augment_ForceOfNature'', ''standard''),
    (''TFT6_Augment_ForceOfNaturePlus'', ''standard''),
    (''TFT6_Augment_GachaAddict'', ''standard''),
    (''TFT6_Augment_HyperRoll'', ''standard''),
    (''TFT6_Augment_ItemGrabBag1'', ''standard''),
    (''TFT6_Augment_MakeshiftArmor1'', ''standard''),
    (''TFT6_Augment_MakeshiftArmor2'', ''standard''),
    (''TFT6_Augment_MaxLevel10'', ''standard''),
    (''TFT6_Augment_OneTwoFive'', ''standard''),
    (''TFT6_Augment_PandorasItems'', ''standard''),
    (''TFT6_Augment_PortableForge'', ''standard''),
    (''TFT6_Augment_Recombobulator'', ''standard''),
    (''TFT6_Augment_SalvageBin'', ''standard''),
    (''TFT6_Augment_SecondWind1'', ''standard''),
    (''TFT6_Augment_SecondWind2'', ''standard''),
    (''TFT6_Augment_SunfireBoard'', ''standard''),
    (''TFT6_Augment_TheGoldenEgg'', ''standard''),
    (''TFT6_Augment_ThriftShop'', ''standard''),
    (''TFT6_Augment_TinyTitans'', ''standard''),
    (''TFT6_Augment_TradeSector'', ''standard''),
    (''TFT6_Augment_TradeSector2'', ''standard''),
    (''TFT7_Augment_AFK'', ''standard''),
    (''TFT7_Augment_BandOfThieves1'', ''standard''),
    (''TFT7_Augment_BestFriends1'', ''standard''),
    (''TFT7_Augment_BestFriends2'', ''standard''),
    (''TFT7_Augment_BirthdayPresents'', ''standard''),
    (''TFT7_Augment_ClutteredMind'', ''standard''),
    (''TFT7_Augment_CursedCrown'', ''standard''),
    (''TFT7_Augment_LategameSpecialist'', ''standard''),
    (''TFT7_Augment_LivingForge'', ''standard''),
    (''TFT7_Augment_LuckyGloves'', ''standard''),
    (''TFT7_Augment_LuckyGlovesPlus'', ''standard''),
    (''TFT7_Augment_UrfsGrabBag2'', ''standard''),
    (''TFT8_Augment_SalvageBinPlus'', ''standard''),
    (''TFT9_Augment_ArmyBuilding'', ''standard''),
    (''TFT9_Augment_BardPlaybook1'', ''standard''),
    (''TFT9_Augment_BigGrabBag'', ''standard''),
    (''TFT9_Augment_BuildingACollectionPlusPlus'', ''standard''),
    (''TFT9_Augment_Commander_Ascension'', ''standard''),
    (''TFT9_Augment_Commander_PartialAscension'', ''standard''),
    (''TFT9_Augment_Commander_RollingForDays'', ''standard''),
    (''TFT9_Augment_Commander_TeamingUp1'', ''standard''),
    (''TFT9_Augment_GreaterJeweledLotus'', ''standard''),
    (''TFT9_Augment_HealingOrbsI'', ''standard''),
    (''TFT9_Augment_HealingOrbsII'', ''standard''),
    (''TFT9_Augment_HedgeFund'', ''standard''),
    (''TFT9_Augment_HedgeFundPlus'', ''standard''),
    (''TFT9_Augment_IronAssets'', ''standard''),
    (''TFT9_Augment_JeweledLotus'', ''standard''),
    (''TFT9_Augment_LearningFromExperience2'', ''standard''),
    (''TFT9_Augment_Legend_HighEndSector'', ''standard''),
    (''TFT9_Augment_LongTimeCrafting'', ''standard''),
    (''TFT9_Augment_MissedConnections'', ''standard''),
    (''TFT9_Augment_OneTwosThree'', ''standard''),
    (''TFT9_Augment_PandorasItems2'', ''standard''),
    (''TFT9_Augment_PandorasRadiantBox'', ''standard''),
    (''TFT9_Augment_RiskyMoves'', ''standard''),
    (''TFT9_Augment_RollTheDice'', ''standard''),
    (''TFT9_Augment_SilverSpoon'', ''standard''),
    (''TFT9_Augment_TiniestTitanPlus'', ''standard''),
    (''TFT9_Augment_TonsOfStats'', ''standard''),
    (''TFT9_Augment_YouHaveMyBow'', ''standard'')]"

definition GENERIC_AUGMENT_CATEGORIES :: "(string, string) dict" where
  "GENERIC_AUGMENT_CATEGORIES = [
    (''TFT_Augment_AdvancedLoan'', ''standard''),
    (''TFT_Augment_AdvancedLoanPlus'', ''standard''),
    (''TFT_Augment_AnExaltedAdventure'', ''standard''),
    (''TFT_Augment_ArcaneViktory'', ''standard''),
    (''TFT_Augment_AuraFarming'', ''standard''),
    (''TFT_Augment_AwakenedSoul'', ''standard''),
    (''TFT_Augment_BacklineBlueprint'', ''standard''),
    (''TFT_Augment_BeltOverflow'', ''standard''),
    (''TFT_Augment_BirthdayReunion'', ''standard''),
    (''TFT_Augment_BodyguardTraining'', ''standard''),
    (''TFT_Augment_BoosterPack'', ''standard''),
    (''TFT_Augment_BoosterPackPlus'', ''standard''),
    (''TFT_Augment_BoxingLessons'', ''standard''),
    (''TFT_Augment_BranchingOut'', ''standard''),
    (''TFT_Augment_BranchingOutPlus'', ''standard''),
    (''TFT_Augment_BronzeForLife2'', ''standard''),
    (''TFT_Augment_BronzeForLifeI'', ''standard''),
    (''TFT_Augment_ChargeTransfer1'', ''standard''),
    (''TFT_Augment_ChargeTransfer2'', ''standard''),
    (''TFT_Augment_ClimbTheLadder1'', ''standard''),
    (''TFT_Augment_ClimbTheLadder2'', ''standard''),
    (''TFT_Augment_ClockworkAccelerator'', ''standard''),
    (''TFT_Augment_CognitiveOverload'', ''standard''),
    (''TFT_Augment_CognitiveTax'', ''standard''),
    (''TFT_Augment_CognitiveTaxPlus'', ''standard''),
    (''TFT_Augment_ComebackStory'', ''standard''),
    (''TFT_Augment_ComponentQuestBow'', ''standard''),
    (''TFT_Augment_ComponentQuestRod'', ''standard''),
    (''TFT_Augment_ComponentQuestSword'', ''standard''),
    (''TFT_Augment_ComponentQuestTear'', ''standard''),
    (''TFT_Augment_ConstructACompanion'', ''standard''),
    (''TFT_Augment_Corrosion'', ''standard''),
    (''TFT_Augment_CosmicRestart'', ''standard''),
    (''TFT_Augment_CraftedCrafting'', ''standard''),
    (''TFT_Augment_CryMeARiver'', ''standard''),
    (''TFT_Augment_DeadlierCaps'', ''standard''),
    (''TFT_Augment_Dhampyr1'', ''standard''),
    (''TFT_Augment_Dummify'', ''standard''),
    (''TFT_Augment_DuoQueue'', ''standard''),
    (''TFT_Augment_EarlyLearning'', ''standard''),
    (''TFT_Augment_EpicRolldown'', ''standard''),
    (''TFT_Augment_ExclusiveCustomization'', ''standard''),
    (''TFT_Augment_ExclusiveCustomization2'', ''standard''),
    (''TFT_Augment_ExpectedUnexpectedness'', ''standard''),
    (''TFT_Augment_Expedition'', ''standard''),
    (''TFT_Augment_ExplosiveGrowth'', ''standard''),
    (''TFT_Augment_ExplosiveGrowthPlus'', ''standard''),
    (''TFT_Augment_FeedTheFlames'', ''standard''),
    (''TFT_Augment_FeelingLucky'', ''standard''),
    (''TFT_Augment_FindYourCenter'', ''standard''),
    (''TFT_Augment_FiresalePlus'', ''standard''),
    (''TFT_Augment_Flexible'', ''standard''),
    (''TFT_Augment_ForgeAFriend'', ''standard''),
    (''TFT_Augment_ForgeRod'', ''standard''),
    (''TFT_Augment_ForgeSword'', ''standard''),
    (''TFT_Augment_ForgedInStrength'', ''standard''),
    (''TFT_Augment_ForwardThinking'', ''standard''),
    (''TFT_Augment_FrontlineFoundation'', ''standard''),
    (''TFT_Augment_FuriousBlows'', ''standard''),
    (''TFT_Augment_GainGold'', ''standard''),
    (''TFT_Augment_GiantAndMighty'', ''standard''),
    (''TFT_Augment_GildedSteel'', ''standard''),
    (''TFT_Augment_GlassCannonI'', ''standard''),
    (''TFT_Augment_GlassCannonII'', ''standard''),
    (''TFT_Augment_GoldenGamble'', ''standard''),
    (''TFT_Augment_GoldenGamblePlus'', ''standard''),
    (''TFT_Augment_GoldenGamblePlusPlus'', ''standard''),
    (''TFT_Augment_GroupHug1'', ''standard''),
    (''TFT_Augment_GroupHug2'', ''standard''),
    (''TFT_Augment_GuardbreakerSpirit'', ''standard''),
    (''TFT_Augment_HardCommit'', ''standard''),
    (''TFT_Augment_HeavyIsTheCrown'', ''standard''),
    (''TFT_Augment_HeroicGrabBagPlus'', ''standard''),
    (''TFT_Augment_HeroicGrabBagPlusPlus'', ''standard''),
    (''TFT_Augment_HighVoltage'', ''standard''),
    (''TFT_Augment_HoldTheLine'', ''standard''),
    (''TFT_Augment_HomeCooking'', ''standard''),
    (''TFT_Augment_InfinityProtection'', ''standard''),
    (''TFT_Augment_InvestedPlus'', ''standard''),
    (''TFT_Augment_InvestedPlusPlus'', ''standard''),
    (''TFT_Augment_ItemGargoyleStoneplate'', ''standard''),
    (''TFT_Augment_ItemSpiritVisage'', ''standard''),
    (''TFT_Augment_JustSlayer'', ''standard''),
    (''TFT_Augment_KickStart'', ''standard''),
    (''TFT_Augment_LateGameScaling'', ''standard''),
    (''TFT_Augment_LegionOfThrees'', ''standard''),
    (''TFT_Augment_Lineup'', ''standard''),
    (''TFT_Augment_LuxurySubscription'', ''standard''),
    (''TFT_Augment_MagicRoll'', ''standard''),
    (''TFT_Augment_MagicRollMinus'', ''standard''),
    (''TFT_Augment_MarksMan'', ''standard''),
    (''TFT_Augment_MayTheFoursBeWithYou'', ''standard''),
    (''TFT_Augment_MinMaxer'', ''standard''),
    (''TFT_Augment_MirroredMonetization'', ''standard''),
    (''TFT_Augment_Misfits'', ''standard''),
    (''TFT_Augment_MoneyHungry'', ''standard''),
    (''TFT_Augment_MoneyMonsoon'', ''standard''),
    (''TFT_Augment_MuseumHeist'', ''standard''),
    (''TFT_Augment_NoScoutNoPivot'', ''standard''),
    (''TFT_Augment_OneBuffTwoBuff'', ''standard''),
    (''TFT_Augment_PatienceIsAVirtue'', ''standard''),
    (''TFT_Augment_Pilfer'', ''standard''),
    (''TFT_Augment_PlotArmor'', ''standard''),
    (''TFT_Augment_PowerUp'', ''standard''),
    (''TFT_Augment_Replication'', ''standard''),
    (''TFT_Augment_RestartMission'', ''standard''),
    (''TFT_Augment_Retribution'', ''standard''),
    (''TFT_Augment_SavingsAccount'', ''standard''),
    (''TFT_Augment_SeraphimsStaff'', ''standard''),
    (''TFT_Augment_ShimmerscaleEssence'', ''standard''),
    (''TFT_Augment_SideEffects'', ''standard''),
    (''TFT_Augment_SizeMatters'', ''standard''),
    (''TFT_Augment_SliceOfLife'', ''standard''),
    (''TFT_Augment_SmallGrabBag'', ''standard''),
    (''TFT_Augment_SoloLeveling'', ''standard''),
    (''TFT_Augment_SpeedyDoubleKill'', ''standard''),
    (''TFT_Augment_SpreadingRoots'', ''standard''),
    (''TFT_Augment_SpreadingRootsPlus'', ''standard''),
    (''TFT_Augment_SubscriptionService'', ''standard''),
    (''TFT_Augment_Survivor'', ''standard''),
    (''TFT_Augment_SweetTreats'', ''standard''),
    (''TFT_Augment_SwordOverflow'', ''standard''),
    (''TFT_Augment_TacticiansKitchen'', ''standard''),
    (''TFT_Augment_TheBaronsLair'', ''standard''),
    (''TFT_Augment_TheDarkinBlade'', ''standard''),
    (''TFT_Augment_TheGoldenDragon'', ''standard''),
    (''TFT_Augment_TheTower'', ''standard''),
    (''TFT_Augment_TheVidalion'', ''standard''),
    (''TFT_Augment_TragicalBlade'', ''standard''),
    (''TFT_Augment_TraitTree'', ''standard''),
    (''TFT_Augment_TraitTreePlus'', ''standard''),
    (''TFT_Augment_TreasureHunt'', ''standard''),
    (''TFT_Augment_Trifecta1'', ''standard''),
    (''TFT_Augment_Trifecta2'', ''standard''),
    (''TFT_Augment_TwinGuardians'', ''standard''),
    (''TFT_Augment_TwoMuchValue'', ''standard''),
    (''TFT_Augment_TwoTanky'', ''standard''),
    (''TFT_Augment_Unforgotten'', ''standard''),
    (''TFT_Augment_UpwardMobility'', ''standard''),
    (''TFT_Augment_UrfsGambit'', ''standard''),
    (''TFT_Augment_WandOverflow'', ''standard''),
    (''TFT_Augment_WarmogsBuckle'', ''standard''),
    (''TFT_Augment_Warpath'', ''standard''),
    (''TFT_Augment_Waverider'', ''standard''),
    (''TFT_Augment_WeStickTogether'', ''standard''),
    (''TFT_Augment_WinOut'', ''standard''),
    (''TFT_Augment_WorthTheWaitGold'', ''standard''),
    (''TFT_Augment_WorthTheWaitPrismatic'', ''standard'')]"

definition AUGMENT_CATEGORIES :: "(string, string) dict" where
  "AUGMENT_CATEGORIES = SET_AUGMENT_CATEGORIES @ GENERIC_AUGMENT_CATEGORIES"

section \<open>Facts about the tables\<close>

lemma augments_ascending: "successively (<) AUGMENTS"
  by code_simp

lemma augments_distinct: "distinct AUGMENTS"
proof -
  have "sorted_wrt (<) AUGMENTS"
    using augments_ascending by (simp add: successively_conv_sorted_wrt transp_on_less)
  then show ?thesis by (simp add: strict_sorted_iff)
qed

lemma augment_tiers_keys: "map fst AUGMENT_TIERS = AUGMENTS"
  by (simp add: AUGMENT_TIERS_def SET_AUGMENT_TIERS_def GENERIC_AUGMENT_TIERS_def
      AUGMENTS_def SET_AUGMENT_IDS_def GENERIC_AUGMENT_IDS_def)

lemma augment_categories_keys: "map fst AUGMENT_CATEGORIES = AUGMENTS"
  by (simp add: AUGMENT_CATEGORIES_def SET_AUGMENT_CATEGORIES_def GENERIC_AUGMENT_CATEGORIES_def
      AUGMENTS_def SET_AUGMENT_IDS_def GENERIC_AUGMENT_IDS_def)

end
