(* ===== verification/Cache.thy ===== *)
theory Cache
  imports Prelude
begin

text \<open>
  The TTL cache of the API, \<open>api/cache.py\<close>. The critical sections under the lock are atomic;
  \<open>compute\<close> runs outside the lock, so requests interleave there. The operations come first,
  then the step relation of any number of concurrent requests against a changing store.
\<close>

section \<open>State and operations\<close>

record ('k, 'v) ttl_cache =
  ttl :: py_float
  c_entries :: "('k, py_float \<times> 'v) dict"

definition new_cache :: "py_float \<Rightarrow> ('k, 'v) ttl_cache" where
  "new_cache t = \<lparr>ttl = t, c_entries = []\<rparr>"

text \<open>First critical section: the fresh entry for the key, if any.\<close>

definition cache_lookup :: "'k \<Rightarrow> py_float \<Rightarrow> ('k, 'v) ttl_cache \<Rightarrow> 'v option" where
  "cache_lookup key now c =
     (case map_of (c_entries c) key of
        None \<Rightarrow> None
      | Some hit \<Rightarrow> if now - fst hit < ttl c then Some (snd hit) else None)"

text \<open>Second critical section.\<close>

definition cache_store :: "'k \<Rightarrow> py_float \<Rightarrow> 'v \<Rightarrow> ('k, 'v) ttl_cache \<Rightarrow> ('k, 'v) ttl_cache" where
  "cache_store key now v c = c\<lparr>c_entries := AList.update key (now, v) (c_entries c)\<rparr>"

definition invalidate :: "('k, 'v) ttl_cache \<Rightarrow> ('k, 'v) ttl_cache" where
  "invalidate c = c\<lparr>c_entries := []\<rparr>"

text \<open>A call that no other request interleaves with; \<open>compute\<close> may raise (\<open>None\<close>).\<close>

definition get_or_compute ::
    "'k \<Rightarrow> (unit \<Rightarrow> 'v option) \<Rightarrow> py_float \<Rightarrow> ('k, 'v) ttl_cache \<Rightarrow> 'v option \<times> ('k, 'v) ttl_cache" where
  "get_or_compute key compute now c =
     (case cache_lookup key now c of
        Some v \<Rightarrow> (Some v, c)
      | None \<Rightarrow> (case compute () of None \<Rightarrow> (None, c) | Some v \<Rightarrow> (Some v, cache_store key now v c)))"

section \<open>Concurrent requests\<close>

datatype ('k, 'v) pending_call =
    Computing 'k py_float \<comment> \<open>after the first section; the request's key and its \<open>now\<close>\<close>
  | Computed 'k py_float 'v \<comment> \<open>\<open>compute\<close> has returned\<close>

record ('k, 'v) system =
  sys_clock :: py_float
  cache :: "('k, 'v) ttl_cache"
  calls :: "nat \<Rightarrow> ('k, 'v) pending_call option"

datatype ('k, 'v) cache_event = Silent | Returned 'k py_float 'v \<comment> \<open>key, time of the request, value\<close>

definition init_system :: "py_float \<Rightarrow> ('k, 'v) system" where
  "init_system t = \<lparr>sys_clock = 0, cache = new_cache t, calls = (\<lambda>_. None)\<rparr>"

text \<open>
  \<open>world t k\<close> is what \<open>compute\<close> for key \<open>k\<close> reads from the metastore at time \<open>t\<close>; the read
  happens at some moment between the start and the end of \<open>compute\<close>.
\<close>

inductive cache_step ::
    "(py_float \<Rightarrow> 'k \<Rightarrow> 'v) \<Rightarrow> ('k, 'v) system \<Rightarrow> ('k, 'v) cache_event \<Rightarrow> ('k, 'v) system \<Rightarrow> bool"
  for world where
  tick: "sys_clock s \<le> t \<Longrightarrow> cache_step world s Silent (s\<lparr>sys_clock := t\<rparr>)"
| hit: "cache_lookup k (sys_clock s) (cache s) = Some v \<Longrightarrow>
    cache_step world s (Returned k (sys_clock s) v) s"
| miss: "cache_lookup k (sys_clock s) (cache s) = None \<Longrightarrow> calls s i = None \<Longrightarrow>
    cache_step world s Silent (s\<lparr>calls := (calls s)(i := Some (Computing k (sys_clock s)))\<rparr>)"
| compute: "calls s i = Some (Computing k now) \<Longrightarrow>
    cache_step world s Silent (s\<lparr>calls := (calls s)(i := Some (Computed k now (world (sys_clock s) k)))\<rparr>)"
| finish: "calls s i = Some (Computed k now v) \<Longrightarrow>
    cache_step world s (Returned k now v)
      (s\<lparr>cache := cache_store k now v (cache s), calls := (calls s)(i := None)\<rparr>)"
| raise: "calls s i = Some (Computing k now) \<Longrightarrow>
    cache_step world s Silent (s\<lparr>calls := (calls s)(i := None)\<rparr>)"
| drop_all: "cache_step world s Silent (s\<lparr>cache := invalidate (cache s)\<rparr>)"

inductive cache_run ::
    "(py_float \<Rightarrow> 'k \<Rightarrow> 'v) \<Rightarrow> ('k, 'v) system \<Rightarrow> ('k, 'v) cache_event list \<Rightarrow> ('k, 'v) system \<Rightarrow> bool"
  for world where
  stop: "cache_run world s [] s"
| go: "cache_run world s es s' \<Longrightarrow> cache_step world s' e s'' \<Longrightarrow> cache_run world s (es @ [e]) s''"

section \<open>Lemmas\<close>

definition read_between :: "(py_float \<Rightarrow> 'k \<Rightarrow> 'v) \<Rightarrow> 'k \<Rightarrow> 'v \<Rightarrow> py_float \<Rightarrow> py_float \<Rightarrow> bool" where
  "read_between world k v a b \<longleftrightarrow> (\<exists>r. a \<le> r \<and> r \<le> b \<and> v = world r k)"

lemma read_between_mono: "read_between world k v a b \<Longrightarrow> b \<le> b' \<Longrightarrow> read_between world k v a b'"
  unfolding read_between_def by force

definition sys_inv :: "(py_float \<Rightarrow> 'k \<Rightarrow> 'v) \<Rightarrow> py_float \<Rightarrow> ('k, 'v) system \<Rightarrow> bool" where
  "sys_inv world T s \<longleftrightarrow>
     ttl (cache s) = T
     \<and> (\<forall>k t v. map_of (c_entries (cache s)) k = Some (t, v) \<longrightarrow> read_between world k v t (sys_clock s))
     \<and> (\<forall>i k now. calls s i = Some (Computing k now) \<longrightarrow> now \<le> sys_clock s)
     \<and> (\<forall>i k now v. calls s i = Some (Computed k now v) \<longrightarrow> read_between world k v now (sys_clock s))"

lemma sys_inv_init: "sys_inv world T (init_system T)"
  by (simp add: sys_inv_def init_system_def new_cache_def)

lemma sys_inv_step:
  assumes "cache_step world s e s'" and "sys_inv world T s"
  shows "sys_inv world T s'"
  using assms
proof (cases rule: cache_step.cases)
  case (tick t)
  then show ?thesis
    using assms(2) unfolding sys_inv_def
    by (fastforce intro: read_between_mono order_trans [of _ "sys_clock s" t])
next
  case (compute i k now)
  have "now \<le> sys_clock s" using compute assms(2) unfolding sys_inv_def by blast
  then have "read_between world k (world (sys_clock s) k) now (sys_clock s)" by (auto simp: read_between_def)
  then show ?thesis using compute assms(2) by (auto simp: sys_inv_def)
qed (auto simp: sys_inv_def cache_store_def invalidate_def split: if_splits)

lemma sys_inv_run: "cache_run world (init_system T) es s \<Longrightarrow> sys_inv world T s"
proof (induction "init_system T :: ('a, 'b) system" es s rule: cache_run.induct)
  case stop
  show ?case by (rule sys_inv_init)
next
  case (go es s' e s'')
  from go(3,2) show ?case by (rule sys_inv_step)
qed

lemma returned_fresh:
  assumes "cache_step world s (Returned k now v) s'" and "sys_inv world T s" and "0 < T"
  shows "\<exists>r. now - T < r \<and> r \<le> sys_clock s' \<and> v = world r k"
  using assms(1)
proof (cases rule: cache_step.cases)
  case hit
  then obtain t where t: "map_of (c_entries (cache s)) k = Some (t, v)" "sys_clock s - t < T"
    using assms(2) by (auto simp: cache_lookup_def sys_inv_def split: option.splits if_splits)
  then have "read_between world k v t (sys_clock s)"
    using assms(2) unfolding sys_inv_def by blast
  then obtain r where "t \<le> r" "r \<le> sys_clock s" "v = world r k" unfolding read_between_def by blast
  with t hit show ?thesis by (intro exI [of _ r]) simp
next
  case (finish i)
  then have "read_between world k v now (sys_clock s)"
    using assms(2) unfolding sys_inv_def by blast
  then obtain r where "now \<le> r" "r \<le> sys_clock s" "v = world r k" unfolding read_between_def by blast
  with finish assms(3) show ?thesis by (intro exI [of _ r]) simp
qed

section \<open>Properties\<close>

text \<open>
  C15. Bounded staleness under concurrency. However requests interleave, and whenever the cache
  is invalidated, every value a request returns was read from the metastore less than one TTL
  before the request was made, or later.
\<close>

theorem cache_staleness:
  assumes "cache_run world (init_system T) es s" and "0 < T"
    and "cache_step world s (Returned k now v) s'"
  shows "\<exists>r. now - T < r \<and> r \<le> sys_clock s' \<and> v = world r k"
  using returned_fresh [OF assms(3) sys_inv_run [OF assms(1)] assms(2)] .

text \<open>The world of the witness: the value of every key is the time itself.\<close>

definition clock_world :: "py_float \<Rightarrow> string \<Rightarrow> py_float" where
  "clock_world t k = t"

theorem cache_staleness_witness:
  "\<exists>s s'. cache_run clock_world (init_system 60) [Silent, Silent, Returned ''k'' 0 0, Silent] s
     \<and> cache_step clock_world s (Returned ''k'' 59 0) s'
     \<and> (\<exists>r. 59 - 60 < r \<and> r \<le> sys_clock s' \<and> 0 = clock_world r ''k'')"
proof -
  let ?s0 = "init_system 60 :: (string, py_float) system"
  let ?s1 = "?s0\<lparr>calls := (calls ?s0)(0 := Some (Computing ''k'' (sys_clock ?s0)))\<rparr>"
  let ?s2 = "?s1\<lparr>calls := (calls ?s1)(0 := Some (Computed ''k'' 0 (clock_world (sys_clock ?s1) ''k'')))\<rparr>"
  let ?s3 = "?s2\<lparr>cache := cache_store ''k'' 0 0 (cache ?s2), calls := (calls ?s2)(0 := None)\<rparr>"
  let ?s4 = "?s3\<lparr>sys_clock := 59\<rparr>"
  have a: "cache_step clock_world ?s0 Silent ?s1"
    by (rule miss) (simp_all add: init_system_def new_cache_def cache_lookup_def)
  have b: "cache_step clock_world ?s1 Silent ?s2"
    by (rule compute) (simp add: init_system_def)
  have c: "cache_step clock_world ?s2 (Returned ''k'' 0 0) ?s3"
    by (rule finish) (simp add: init_system_def clock_world_def)
  have d: "cache_step clock_world ?s3 Silent ?s4"
    by (rule tick) (simp add: init_system_def)
  have run: "cache_run clock_world ?s0 [Silent, Silent, Returned ''k'' 0 0, Silent] ?s4"
    using cache_run.go [OF cache_run.go [OF cache_run.go [OF cache_run.go [OF cache_run.stop a] b] c] d]
    by (simp only: append.simps)
  have "sys_clock ?s4 = 59" by simp
  moreover have "cache_step clock_world ?s4 (Returned ''k'' (sys_clock ?s4) 0) ?s4"
    by (rule hit) (simp add: init_system_def new_cache_def cache_lookup_def cache_store_def)
  ultimately have st: "cache_step clock_world ?s4 (Returned ''k'' 59 0) ?s4" by simp
  have "\<exists>r. 59 - 60 < r \<and> r \<le> sys_clock ?s4 \<and> 0 = clock_world r ''k''"
    by (rule cache_staleness [OF run _ st]) simp
  with run st show ?thesis by blast
qed

end
