(* ===== verification/Service.thy ===== *)
theory Service
  imports Aggregator Tft_Augments Cache Py_Str Anomaly
begin

text \<open>
  The API's data-access layer, \<open>api/service.py\<close>: weighted aggregation of stat entries, the
  list, detail, comparison and history endpoints' logic, the heatmap pivot and the anomaly
  feed. Every read goes through the TTL cache of the theory \<open>Cache\<close>; \<open>MetaStoreClient.scan\<close> is
  the parameter \<open>scan\<close> (entity type, patch, region; \<open>None\<close> when it raises). Python sets of
  strings are lists without repetitions; where the code iterates over a set, the order is a
  parameter.
\<close>

section \<open>Rows\<close>

definition MIN_SAMPLE :: int where "MIN_SAMPLE = 200"
definition HIGH_TIERS :: "string list" where
  "HIGH_TIERS = [''MASTER'', ''GRANDMASTER'', ''CHALLENGER'', ''DIAMOND'']"
definition LOW_TIERS :: "string list" where
  "LOW_TIERS = [''IRON'', ''BRONZE'', ''SILVER'', ''GOLD'']"

record row =
  r_entity_id :: string
  r_entity_type :: string
  r_win_rate :: py_float
  r_avg_placement :: py_float
  r_play_rate :: py_float
  r_sample_size :: int
  r_patch :: string
  r_tiers :: "string list"
  r_regions :: "string list"
  r_augment_tier :: "string option"
  r_augment_category :: "string option"

definition sorted_set :: "string list \<Rightarrow> string list" where
  "sorted_set xs = sort (remdups xs)"

definition entry_dict ::
    "string \<Rightarrow> string \<Rightarrow> py_float \<Rightarrow> py_float \<Rightarrow> py_float \<Rightarrow> int \<Rightarrow> string \<Rightarrow> string list \<Rightarrow> string list \<Rightarrow> row" where
  "entry_dict eid etype win_rate avg_placement play_rate sample_size pt tiers regions =
     \<lparr>r_entity_id = eid, r_entity_type = etype, r_win_rate = py_round win_rate 4,
      r_avg_placement = py_round avg_placement 4, r_play_rate = py_round play_rate 4,
      r_sample_size = sample_size, r_patch = pt, r_tiers = sorted_set tiers,
      r_regions = sorted_set regions, r_augment_tier = None, r_augment_category = None\<rparr>"

definition empty_reference_entry :: "string \<Rightarrow> string \<Rightarrow> string \<Rightarrow> row" where
  "empty_reference_entry eid etype pt =
     entry_dict eid etype 0 8 0 0 (if pt = [] then DEFAULT_PATCH else pt) [] []"

definition augment_category :: "string \<Rightarrow> string" where
  "augment_category eid =
     dict_get AUGMENT_CATEGORIES eid (if contains ''GodAugment'' eid then ''god'' else ''standard'')"

definition decorate_entity :: "row \<Rightarrow> row" where
  "decorate_entity r =
     (if r_entity_type r \<noteq> ''augment'' then r
      else r\<lparr>r_augment_tier := Some (dict_get AUGMENT_TIERS (r_entity_id r) ''unknown''),
             r_augment_category := Some (augment_category (r_entity_id r))\<rparr>)"

section \<open>Aggregation\<close>

definition total_size :: "stat_entry list \<Rightarrow> int" where
  "total_size es = sum_list (map se_sample_size es)"

definition weighted :: "(stat_entry \<Rightarrow> py_float) \<Rightarrow> stat_entry list \<Rightarrow> py_float" where
  "weighted f es = sum_list (map (\<lambda>e. f e * of_int (se_sample_size e)) es) / of_int (total_size es)"

definition entity_row :: "string \<times> stat_entry list \<Rightarrow> row option" where
  "entity_row = (\<lambda>(eid, es).
     if total_size es = 0 then None
     else Some (decorate_entity (entry_dict eid (se_entity_type (hd es))
       (weighted se_win_rate es) (weighted se_avg_placement es) (weighted se_play_rate es)
       (total_size es) (se_patch (hd es)) (map se_tier es) (map se_region es))))"

definition aggregate_by_entity :: "stat_entry list \<Rightarrow> row list" where
  "aggregate_by_entity entries = List.map_filter entity_row (group_by se_entity_id entries)"

definition complete_reference_entities :: "string \<Rightarrow> row list \<Rightarrow> string \<Rightarrow> row list" where
  "complete_reference_entities entity_type rows pt =
     (if entity_type \<noteq> ''augment'' then rows
      else
        let seen = map r_entity_id rows in
        rows @ map (\<lambda>a. decorate_entity (empty_reference_entry a ''augment'' pt))
                 (filter (\<lambda>a. a \<notin> set seen) AUGMENTS))"

section \<open>Cached scans\<close>

datatype svc_error = ScanFailed | TypeError

type_synonym scan_fun = "string \<Rightarrow> string \<Rightarrow> string \<Rightarrow> stat_entry list option"
type_synonym scan_cache = "(string \<times> string \<times> string, stat_entry list) ttl_cache"

definition cached_scan ::
    "scan_fun \<Rightarrow> string \<Rightarrow> string \<Rightarrow> string \<Rightarrow> py_float \<Rightarrow> scan_cache \<Rightarrow>
     (svc_error + stat_entry list) \<times> scan_cache" where
  "cached_scan scan entity_type pt rgn now c =
     (case get_or_compute (entity_type, pt, rgn) (\<lambda>_. scan entity_type pt rgn) now c of
        (None, c') \<Rightarrow> (Inl ScanFailed, c')
      | (Some es, c') \<Rightarrow> (Inr es, c'))"

section \<open>List endpoint\<close>

definition select_tiers :: "string \<Rightarrow> string \<Rightarrow> string list option" where
  "select_tiers tr tier_range =
     (if tr \<noteq> [] then Some [tr]
      else if tier_range \<noteq> []
      then Some (map strip (filter (\<lambda>t. strip t \<noteq> []) (split_on (CHR '','') tier_range)))
      else None)"

text \<open>
  \<open>r.get(sort, r["win_rate"])\<close> as a number; \<open>None\<close> where it is not one, so that the unary
  minus of the sort key raises \<open>TypeError\<close>.
\<close>

definition row_number :: "string \<Rightarrow> row \<Rightarrow> py_float option" where
  "row_number srt r =
     (if srt = ''win_rate'' then Some (r_win_rate r)
      else if srt = ''avg_placement'' then Some (r_avg_placement r)
      else if srt = ''play_rate'' then Some (r_play_rate r)
      else if srt = ''sample_size'' then Some (of_int (r_sample_size r))
      else if srt \<in> set [''entity_id'', ''entity_type'', ''patch'', ''tiers'', ''regions''] then None
      else if srt \<in> set [''augment_tier'', ''augment_category''] \<and> r_augment_tier r \<noteq> None then None
      else Some (r_win_rate r))"

definition sort_key_of :: "string \<Rightarrow> row \<Rightarrow> bool \<times> py_float" where
  "sort_key_of srt r =
     (r_sample_size r = 0,
      if srt \<noteq> ''avg_placement'' then - the (row_number srt r) else the (row_number srt r))"

definition sort_rows :: "string \<Rightarrow> row list \<Rightarrow> svc_error + row list" where
  "sort_rows srt rows =
     (if list_ex (\<lambda>r. row_number srt r = None) rows then Inl TypeError
      else Inr (sort_key (sort_key_of srt) rows))"

definition list_rows ::
    "string \<Rightarrow> string \<Rightarrow> string \<Rightarrow> string \<Rightarrow> int \<Rightarrow> string \<Rightarrow> string \<Rightarrow> stat_entry list \<Rightarrow> svc_error + row list" where
  "list_rows entity_type pt tr tier_range limit srt category entries =
     (let entries = (case select_tiers tr tier_range of
                       None \<Rightarrow> entries
                     | Some tiers \<Rightarrow> filter (\<lambda>e. se_tier e \<in> set tiers) entries);
          rows = aggregate_by_entity entries;
          rows = (if entity_type = ''augment'' then
                    (let rows = complete_reference_entities entity_type rows pt in
                     if category \<noteq> [] then filter (\<lambda>r. r_augment_category r = Some category) rows
                     else rows)
                  else filter (\<lambda>r. r_sample_size r \<ge> MIN_SAMPLE) rows)
      in case sort_rows srt rows of Inl e \<Rightarrow> Inl e | Inr rows \<Rightarrow> Inr (py_take limit rows))"

definition list_entities ::
    "scan_fun \<Rightarrow> string \<Rightarrow> string \<Rightarrow> string \<Rightarrow> string \<Rightarrow> string \<Rightarrow> int \<Rightarrow> string \<Rightarrow> string \<Rightarrow> py_float \<Rightarrow>
     scan_cache \<Rightarrow> (svc_error + row list) \<times> scan_cache" where
  "list_entities scan entity_type pt rgn tr tier_range limit srt category now c =
     (case cached_scan scan entity_type pt rgn now c of
        (Inl e, c') \<Rightarrow> (Inl e, c')
      | (Inr entries, c') \<Rightarrow> (list_rows entity_type pt tr tier_range limit srt category entries, c'))"

section \<open>Single entity\<close>

datatype entity_answer = InsufficientData string | EntityRow row

definition entity_answer_of ::
    "string \<Rightarrow> string \<Rightarrow> string \<Rightarrow> string \<Rightarrow> stat_entry list \<Rightarrow> entity_answer" where
  "entity_answer_of entity_type entity_id pt tr entries =
     (let entries = filter (\<lambda>e. se_entity_id e = entity_id) entries;
          entries = (if tr \<noteq> [] then filter (\<lambda>e. se_tier e = tr) entries else entries);
          rows = aggregate_by_entity entries;
          rows = (if entity_type \<noteq> ''augment'' then filter (\<lambda>r. r_sample_size r \<ge> MIN_SAMPLE) rows else rows)
      in case rows of
           [] \<Rightarrow> if entity_type = ''augment'' \<and> entity_id \<in> set AUGMENTS
                 then EntityRow (decorate_entity (empty_reference_entry entity_id ''augment'' pt))
                 else InsufficientData entity_id
         | r # _ \<Rightarrow> EntityRow (decorate_entity r))"

definition get_entity ::
    "scan_fun \<Rightarrow> string \<Rightarrow> string \<Rightarrow> string \<Rightarrow> string \<Rightarrow> string \<Rightarrow> py_float \<Rightarrow> scan_cache \<Rightarrow>
     (svc_error + entity_answer) \<times> scan_cache" where
  "get_entity scan entity_type entity_id pt tr rgn now c =
     (case cached_scan scan entity_type pt rgn now c of
        (Inl e, c') \<Rightarrow> (Inl e, c')
      | (Inr entries, c') \<Rightarrow> (Inr (entity_answer_of entity_type entity_id pt tr entries), c'))"

section \<open>Tier comparison, rank gap, pt history\<close>

text \<open>Scan several entity types in order; the entries per type.\<close>

fun scan_types ::
    "scan_fun \<Rightarrow> string list \<Rightarrow> string \<Rightarrow> py_float \<Rightarrow> scan_cache \<Rightarrow>
     (svc_error + (string \<times> stat_entry list) list) \<times> scan_cache" where
  "scan_types scan [] pt now c = (Inr [], c)"
| "scan_types scan (t # ts) pt now c =
     (case cached_scan scan t pt [] now c of
        (Inl e, c') \<Rightarrow> (Inl e, c')
      | (Inr es, c') \<Rightarrow>
          (case scan_types scan ts pt now c' of
             (Inl e, c'') \<Rightarrow> (Inl e, c'')
           | (Inr rest, c'') \<Rightarrow> (Inr ((t, es) # rest), c'')))"

definition STAT_TYPES :: "string list" where
  "STAT_TYPES = [''champion'', ''item'', ''augment'', ''composition'']"

record tier_point =
  tp_tier :: string
  tp_rank :: int
  tp_win_rate :: py_float
  tp_avg_placement :: py_float
  tp_sample_size :: int

definition tier_point_of :: "string \<times> stat_entry list \<Rightarrow> tier_point option" where
  "tier_point_of = (\<lambda>(tr, es).
     if total_size es < MIN_SAMPLE then None
     else Some \<lparr>tp_tier = tr, tp_rank = dict_get TIER_RANK tr 99,
       tp_win_rate = py_round (weighted se_win_rate es) 4,
       tp_avg_placement = py_round (weighted se_avg_placement es) 4,
       tp_sample_size = total_size es\<rparr>)"

definition tier_series :: "stat_entry list \<Rightarrow> tier_point list" where
  "tier_series all_entries =
     sort_key tp_rank (List.map_filter tier_point_of (group_by se_tier all_entries))"

text \<open>The result: the entity type last seen and the series, or insufficient data.\<close>

definition tier_comparison ::
    "scan_fun \<Rightarrow> string \<Rightarrow> string \<Rightarrow> py_float \<Rightarrow> scan_cache \<Rightarrow>
     (svc_error + (string \<times> tier_point list) option) \<times> scan_cache" where
  "tier_comparison scan entity_id pt now c =
     (case scan_types scan STAT_TYPES pt now c of
        (Inl e, c') \<Rightarrow> (Inl e, c')
      | (Inr tes, c') \<Rightarrow>
          (let own = filter (\<lambda>(t, es). es \<noteq> [])
                       (map (\<lambda>(t, es). (t, filter (\<lambda>e. se_entity_id e = entity_id) es)) tes)
           in if own = [] then (Inr None, c')
              else (Inr (Some (fst (last own), tier_series (concat (map snd own)))), c')))"

record gap_row =
  g_entity_id :: string
  g_high :: py_float
  g_low :: py_float
  g_gap :: py_float

definition gap_groups :: "string list \<Rightarrow> stat_entry list \<Rightarrow> (string, stat_entry list) dict" where
  "gap_groups tiers entries =
     group_by se_entity_id
       (filter (\<lambda>e. \<not> se_sample_size e < MIN_SAMPLE \<and> se_tier e \<in> set tiers) entries)"

definition wavg :: "stat_entry list \<Rightarrow> py_float option" where
  "wavg es = (if total_size es \<noteq> 0 then Some (weighted se_win_rate es) else None)"

definition gap_row_of ::
    "(string, stat_entry list) dict \<Rightarrow> (string, stat_entry list) dict \<Rightarrow> string \<Rightarrow> gap_row option" where
  "gap_row_of high low eid =
     (case (wavg (dict_get high eid []), wavg (dict_get low eid [])) of
        (Some hw, Some lw) \<Rightarrow>
          Some \<lparr>g_entity_id = eid, g_high = py_round hw 4, g_low = py_round lw 4, g_gap = py_round (hw - lw) 4\<rparr>
      | _ \<Rightarrow> None)"

text \<open>
  \<open>order\<close> is the order in which Python iterates over the set of common ids. A low tier is
  not a high one, so the \<open>elif\<close> is the plain test.
\<close>

definition rank_gap_rows :: "(string list \<Rightarrow> string list) \<Rightarrow> int \<Rightarrow> stat_entry list \<Rightarrow> gap_row list" where
  "rank_gap_rows order limit entries =
     (let high = gap_groups HIGH_TIERS entries; low = gap_groups LOW_TIERS entries;
          common = order (filter (\<lambda>k. k \<in> fst ` set low) (map fst high))
      in py_take limit (sort_desc (\<lambda>r. \<bar>g_gap r\<bar>) (List.map_filter (gap_row_of high low) common)))"

definition rank_gap ::
    "scan_fun \<Rightarrow> (string list \<Rightarrow> string list) \<Rightarrow> string \<Rightarrow> string \<Rightarrow> int \<Rightarrow> py_float \<Rightarrow> scan_cache \<Rightarrow>
     (svc_error + gap_row list) \<times> scan_cache" where
  "rank_gap scan order entity_type pt limit now c =
     (case cached_scan scan entity_type pt [] now c of
        (Inl e, c') \<Rightarrow> (Inl e, c')
      | (Inr entries, c') \<Rightarrow> (Inr (rank_gap_rows order limit entries), c'))"

datatype patch_answer = Patches "string list" | PatchSeries string "(string \<times> py_float \<times> int) list"

definition patch_point_of :: "string \<times> stat_entry list \<Rightarrow> (string \<times> py_float \<times> int) option" where
  "patch_point_of = (\<lambda>(p, es).
     if total_size es < MIN_SAMPLE then None
     else Some (p, py_round (weighted se_win_rate es) 4, total_size es))"

definition patch_series :: "stat_entry list \<Rightarrow> (string \<times> py_float \<times> int) list" where
  "patch_series es = sort_key fst (List.map_filter patch_point_of (group_by se_patch es))"

definition patch_history ::
    "scan_fun \<Rightarrow> string \<Rightarrow> py_float \<Rightarrow> scan_cache \<Rightarrow> (svc_error + patch_answer) \<times> scan_cache" where
  "patch_history scan entity_id now c =
     (case scan_types scan STAT_TYPES [] now c of
        (Inl e, c') \<Rightarrow> (Inl e, c')
      | (Inr tes, c') \<Rightarrow>
          (let entries = concat (map snd tes) in
           if entity_id = [] then (Inr (Patches (sorted_set (map se_patch entries))), c')
           else (Inr (PatchSeries entity_id
                   (patch_series (filter (\<lambda>e. se_entity_id e = entity_id) entries))), c')))"

section \<open>Champion and item grid\<close>

record grid_cell =
  gc_champion :: string
  gc_item :: string
  gc_win_rate :: py_float
  gc_avg_placement :: py_float
  gc_sample_size :: int

record grid =
  champ_samples :: "(string, int) dict"
  item_samples :: "(string, int) dict"
  cells :: "(string \<times> string, row) dict"

definition grid_step :: "row \<Rightarrow> grid \<Rightarrow> grid" where
  "grid_step r g =
     (if CHR ''|'' \<notin> set (r_entity_id r) then g
      else
        (case partition_at (CHR ''|'') (r_entity_id r) of
           (champ, _, item) \<Rightarrow>
             \<lparr>champ_samples = dict_incr champ (r_sample_size r) (champ_samples g),
              item_samples = dict_incr item (r_sample_size r) (item_samples g),
              cells = AList.update (champ, item) r (cells g)\<rparr>))"

definition grid_of :: "row list \<Rightarrow> grid" where
  "grid_of rows = fold grid_step rows \<lparr>champ_samples = [], item_samples = [], cells = []\<rparr>"

definition top_keys :: "int \<Rightarrow> (string, int) dict \<Rightarrow> string list" where
  "top_keys n d = py_take n (map fst (sort_key (\<lambda>kv. - snd kv) d))"

definition grid_cells :: "grid \<Rightarrow> string list \<Rightarrow> string list \<Rightarrow> grid_cell list" where
  "grid_cells g champions its =
     concat (map (\<lambda>champ. List.map_filter (\<lambda>item.
       (case map_of (cells g) (champ, item) of
          None \<Rightarrow> None
        | Some r \<Rightarrow>
            if r_sample_size r \<ge> MIN_SAMPLE
            then Some \<lparr>gc_champion = champ, gc_item = item, gc_win_rate = r_win_rate r,
                   gc_avg_placement = r_avg_placement r, gc_sample_size = r_sample_size r\<rparr>
            else None)) its) champions)"

definition champion_item_pairs ::
    "scan_fun \<Rightarrow> string \<Rightarrow> string \<Rightarrow> int \<Rightarrow> int \<Rightarrow> py_float \<Rightarrow> scan_cache \<Rightarrow>
     (svc_error + string list \<times> string list \<times> grid_cell list) \<times> scan_cache" where
  "champion_item_pairs scan tr pt top_champions top_items now c =
     (case cached_scan scan ''champion_item'' pt [] now c of
        (Inl e, c') \<Rightarrow> (Inl e, c')
      | (Inr entries, c') \<Rightarrow>
          (let entries = (if tr \<noteq> [] then filter (\<lambda>e. se_tier e = tr) entries else entries);
               g = grid_of (aggregate_by_entity entries);
               champions = top_keys top_champions (champ_samples g);
               its = top_keys top_items (item_samples g)
           in (Inr (champions, its, grid_cells g champions its), c')))"

section \<open>Player lookup\<close>

datatype 'p player_answer =
    NeedsApiKey string
  | NeedsTag string
  | Profile 'p
  | RiotFailure string string

text \<open>
  \<open>player_analysis\<close>; \<open>build\<close> is \<open>build_player_profile\<close>, \<open>Inl\<close> the message of a \<open>RiotError\<close>.
\<close>

definition player_analysis ::
    "(string \<Rightarrow> string \<Rightarrow> string \<Rightarrow> string + 'p) \<Rightarrow> string option \<Rightarrow> string \<Rightarrow> string option \<Rightarrow> 'p player_answer" where
  "player_analysis build configured_key summoner_name api_key =
     (let key = (case api_key of Some (ch # k) \<Rightarrow> ch # k
                 | _ \<Rightarrow> (case configured_key of None \<Rightarrow> [] | Some k \<Rightarrow> k));
          raw = strip summoner_name
      in case partition_at (CHR ''#'') raw of
           (g, _, t) \<Rightarrow>
             (let game_name = strip g; tag = strip t in
              if key = [] \<or> lower key \<in> set ['''', ''synthetic'', ''none''] then NeedsApiKey summoner_name
              else if tag = [] then NeedsTag summoner_name
              else (case build key game_name tag of
                      Inr p \<Rightarrow> Profile p
                    | Inl msg \<Rightarrow> RiotFailure summoner_name (''Riot API error: '' @ msg))))"

section \<open>Anomaly feed\<close>

text \<open>
  \<open>self.anomalies\<close> is a \<open>deque(maxlen=500)\<close> filled with \<open>appendleft\<close>. A session of the feed
  thread delivers a prefix of the topic's log from offset 0; a payload that is not JSON
  (\<open>None\<close>) is skipped.
\<close>

definition feed_push :: "alert \<Rightarrow> alert list \<Rightarrow> alert list" where
  "feed_push a q = take 500 (a # q)"

definition feed_session :: "nat \<Rightarrow> alert option list \<Rightarrow> alert list \<Rightarrow> alert list" where
  "feed_session n topic_log q =
     fold (\<lambda>p q. case p of None \<Rightarrow> q | Some a \<Rightarrow> feed_push a q) (take n topic_log) q"

definition get_anomalies :: "int \<Rightarrow> int \<Rightarrow> alert list \<Rightarrow> alert list" where
  "get_anomalies now_ms window_hours q =
     filter (\<lambda>a. a_timestamp a \<ge> now_ms - window_hours * 3600 * 1000) q"

section \<open>Lemmas on aggregation\<close>

lemma set_map_filter: "set (List.map_filter f xs) = {y. \<exists>x\<in>set xs. f x = Some y}"
  by (force simp: map_filter_def)

lemma r_entity_id_decorate [simp]: "r_entity_id (decorate_entity r) = r_entity_id r"
  and r_sample_size_decorate [simp]: "r_sample_size (decorate_entity r) = r_sample_size r"
  and r_win_rate_decorate [simp]: "r_win_rate (decorate_entity r) = r_win_rate r"
  and r_avg_placement_decorate [simp]: "r_avg_placement (decorate_entity r) = r_avg_placement r"
  and r_play_rate_decorate [simp]: "r_play_rate (decorate_entity r) = r_play_rate r"
  and r_tiers_decorate [simp]: "r_tiers (decorate_entity r) = r_tiers r"
  by (simp_all add: decorate_entity_def)

lemmas entry_dict_simps [simp] = entry_dict_def

definition own_entries :: "string \<Rightarrow> stat_entry list \<Rightarrow> stat_entry list" where
  "own_entries eid es = filter (\<lambda>e. se_entity_id e = eid) es"

text \<open>The rows of an aggregation, one per entity that has samples.\<close>

lemma aggregate_row_iff:
  "r \<in> set (aggregate_by_entity es) \<longleftrightarrow>
     (\<exists>eid. own_entries eid es \<noteq> [] \<and> entity_row (eid, own_entries eid es) = Some r)"
proof -
  have ne: "own_entries eid es \<noteq> [] \<longleftrightarrow> eid \<in> se_entity_id ` set es" for eid
    by (auto simp: own_entries_def filter_empty_conv)
  have "r \<in> set (aggregate_by_entity es) \<longleftrightarrow>
      (\<exists>eid es'. (eid, es') \<in> set (group_by se_entity_id es) \<and> entity_row (eid, es') = Some r)"
    unfolding aggregate_by_entity_def set_map_filter by auto
  then show ?thesis unfolding group_by_mem ne by (simp only: own_entries_def) blast
qed

lemma entity_row_id: "entity_row (eid, es) = Some r \<Longrightarrow> r_entity_id r = eid"
  by (auto simp: entity_row_def split: if_splits)

lemma entity_row_facts:
  assumes "entity_row (eid, es) = Some r"
  shows "r_sample_size r = total_size es" and "r_win_rate r = py_round (weighted se_win_rate es) 4"
    and "r_avg_placement r = py_round (weighted se_avg_placement es) 4"
    and "r_play_rate r = py_round (weighted se_play_rate es) 4"
    and "set (r_tiers r) = se_tier ` set es"
  using assms by (auto simp: entity_row_def sorted_set_def split: if_splits)

lemma aggregate_row:
  assumes "r \<in> set (aggregate_by_entity es)"
  shows "entity_row (r_entity_id r, own_entries (r_entity_id r) es) = Some r"
    and "own_entries (r_entity_id r) es \<noteq> []"
  using assms entity_row_id unfolding aggregate_row_iff by metis+

lemma aggregate_distinct: "distinct (map r_entity_id (aggregate_by_entity es))"
proof -
  have "distinct (map r_entity_id (List.map_filter entity_row xs))" if "distinct (map fst xs)" for xs
    using that
  proof (induction xs)
    case Nil
    show ?case by (simp add: map_filter_def)
  next
    case (Cons x xs)
    have "r_entity_id r \<in> fst ` set xs" if "r \<in> set (List.map_filter entity_row xs)" for r
      using that entity_row_id unfolding set_map_filter by force
    with Cons show ?case
      by (auto simp: map_filter_simps dest: entity_row_id [of "fst x" "snd x", simplified] split: option.splits)
  qed
  then show ?thesis by (simp add: aggregate_by_entity_def)
qed

lemma aggregate_has_row:
  assumes "total_size (own_entries eid es) \<noteq> 0"
  shows "\<exists>r\<in>set (aggregate_by_entity es). r_entity_id r = eid"
proof -
  have "own_entries eid es \<noteq> []" using assms by (auto simp: total_size_def)
  moreover obtain r where "entity_row (eid, own_entries eid es) = Some r"
    using assms by (auto simp: entity_row_def)
  ultimately have "r \<in> set (aggregate_by_entity es)" "r_entity_id r = eid"
    unfolding aggregate_row_iff by (blast, simp add: entity_row_id)
  then show ?thesis by blast
qed

text \<open>A weighted mean lies between the bounds of what it averages.\<close>

lemma weighted_bounds:
  assumes "\<forall>e\<in>set es. 0 \<le> se_sample_size e" and "0 < total_size es"
    and "\<forall>e\<in>set es. lo \<le> f e \<and> f e \<le> hi"
  shows "lo \<le> weighted f es" and "weighted f es \<le> hi"
proof -
  let ?w = "\<lambda>e. real_of_int (se_sample_size e)"
  have t: "real_of_int (total_size es) = sum_list (map ?w es)"
    unfolding total_size_def by (induction es) simp_all
  have "sum_list (map (\<lambda>e. lo * ?w e) es) \<le> sum_list (map (\<lambda>e. f e * ?w e) es)"
    "sum_list (map (\<lambda>e. f e * ?w e) es) \<le> sum_list (map (\<lambda>e. hi * ?w e) es)"
    using assms(1,3) by (auto intro!: sum_list_mono mult_right_mono)
  then have "lo * of_int (total_size es) \<le> sum_list (map (\<lambda>e. f e * ?w e) es)"
    "sum_list (map (\<lambda>e. f e * ?w e) es) \<le> hi * of_int (total_size es)"
    by (simp_all add: t sum_list_const_mult)
  then show "lo \<le> weighted f es" "weighted f es \<le> hi"
    using assms(2) by (simp_all add: weighted_def pos_le_divide_eq pos_divide_le_eq)
qed

section \<open>Top rows\<close>

text \<open>Taking a prefix of a sorted list keeps the best: whatever is cut off is not better.\<close>

lemma top_rows:
  fixes key :: "'a \<Rightarrow> 'k::linorder"
  assumes "ys = py_take n (sort_key key xs)" and "0 \<le> n"
  shows "sorted_wrt (\<lambda>a b. key a \<le> key b) ys" and "set ys \<subseteq> set xs" and "int (length ys) \<le> n"
    and "x \<in> set xs \<Longrightarrow> x \<notin> set ys \<Longrightarrow> int (length ys) = n \<and> (\<forall>y\<in>set ys. key y \<le> key x)"
proof -
  show "sorted_wrt (\<lambda>a b. key a \<le> key b) ys"
    unfolding assms(1) by (rule sorted_wrt_py_take [OF sorted_wrt_sort_key])
  show "set ys \<subseteq> set xs" using set_py_take [of n "sort_key key xs"] by (simp add: assms(1))
  show "int (length ys) \<le> n" unfolding assms(1) by (rule length_py_take [OF assms(2)])
  assume x: "x \<in> set xs" "x \<notin> set ys"
  let ?s = "sort_key key xs"
  have ys: "ys = take (nat n) ?s" using assms by (simp add: py_take_def)
  then have "x \<in> set (drop (nat n) ?s)"
    using x append_take_drop_id [of "nat n" ?s] by (metis Un_iff set_append set_sort)
  moreover have "sorted_wrt (\<lambda>a b. key a \<le> key b) (take (nat n) ?s @ drop (nat n) ?s)"
    by (simp add: sorted_wrt_sort_key)
  ultimately have "\<forall>y\<in>set ys. key y \<le> key x" unfolding ys sorted_wrt_append by blast
  moreover have "drop (nat n) ?s \<noteq> []" using \<open>x \<in> set (drop (nat n) ?s)\<close> by auto
  then have "nat n < length ?s" by simp
  then have "int (length ys) = n" using assms(2) by (simp add: ys)
  ultimately show "int (length ys) = n \<and> (\<forall>y\<in>set ys. key y \<le> key x)" by blast
qed

definition chosen :: "string \<Rightarrow> string \<Rightarrow> stat_entry list \<Rightarrow> stat_entry list" where
  "chosen tr tier_range es =
     (case select_tiers tr tier_range of None \<Rightarrow> es | Some ts \<Rightarrow> filter (\<lambda>e. se_tier e \<in> set ts) es)"

lemma sort_rows_win_rate: "sort_rows ''win_rate'' rows = Inr (sort_key (sort_key_of ''win_rate'') rows)"
  by (simp add: sort_rows_def row_number_def list_ex_iff)

lemma list_rows_win_rate:
  "list_rows entity_type pt tr tier_range limit ''win_rate'' category es =
     Inr (py_take limit (sort_key (sort_key_of ''win_rate'')
       (let rows = aggregate_by_entity (chosen tr tier_range es) in
        if entity_type = ''augment'' then
          (let rows = complete_reference_entities entity_type rows pt in
           if category \<noteq> [] then filter (\<lambda>r. r_augment_category r = Some category) rows else rows)
        else filter (\<lambda>r. MIN_SAMPLE \<le> r_sample_size r) rows)))"
  unfolding list_rows_def Let_def chosen_def [symmetric] by (simp add: sort_rows_win_rate)

text \<open>What a row of the aggregation shows, and which entities have one.\<close>

lemma aggregate_row_stats:
  assumes "r \<in> set (aggregate_by_entity es)"
  shows "r_sample_size r = total_size (own_entries (r_entity_id r) es)"
    and "r_win_rate r = py_round (weighted se_win_rate (own_entries (r_entity_id r) es)) 4"
    and "\<bar>r_win_rate r - weighted se_win_rate (own_entries (r_entity_id r) es)\<bar> \<le> 1 / 20000"
  using entity_row_facts(1,2) [OF aggregate_row(1) [OF assms]] py_round_err [of _ 4] by simp_all

lemma aggregate_ids:
  "set (map r_entity_id (aggregate_by_entity es)) = {eid. total_size (own_entries eid es) \<noteq> 0}"
proof -
  have "total_size (own_entries (r_entity_id r) es) \<noteq> 0" if "r \<in> set (aggregate_by_entity es)" for r
    using aggregate_row(1) [OF that] by (auto simp: entity_row_def split: if_splits)
  then show ?thesis using aggregate_has_row [of _ es] by fastforce
qed

lemma distinct_ids_filter: "distinct (map r_entity_id (filter P (aggregate_by_entity es)))"
  using aggregate_distinct [of es] by (auto simp: distinct_map inj_on_subset)

lemma distinct_ids_sort: "distinct (map r_entity_id rs) \<Longrightarrow> distinct (map r_entity_id (sort_key k rs))"
  by (simp add: distinct_map)

lemma distinct_ids_take: "distinct (map r_entity_id rs) \<Longrightarrow> distinct (map r_entity_id (py_take n rs))"
  unfolding py_take_def by (auto simp: take_map [symmetric])

section \<open>Properties\<close>


definition sample_stats :: "stat_entry list" where
  "sample_stats = [rate_entry ''GOLD'' (1/2), rate_entry ''IRON'' 1]"



text \<open>
  Augments are served in full, without the sample floor. With no category filter and a
  limit that covers the list, the augment endpoint returns exactly one row for every augment
  of the catalogue and for every other augment with samples, however few; rows without
  samples come last.
\<close>

theorem augments_in_full:
  assumes "list_rows ''augment'' pt tr tier_range limit ''win_rate'' [] es = Inr rows"
    and "int (length AUGMENTS + length (aggregate_by_entity (chosen tr tier_range es))) \<le> limit"
  shows "set (map r_entity_id rows) = set AUGMENTS \<union>
      {eid. total_size (own_entries eid (chosen tr tier_range es)) \<noteq> 0}
    \<and> distinct (map r_entity_id rows)
    \<and> sorted_wrt (\<lambda>a b. r_sample_size a = 0 \<longrightarrow> r_sample_size b = 0) rows
    \<and> (\<forall>r\<in>set rows. r_sample_size r = total_size (own_entries (r_entity_id r) (chosen tr tier_range es)))"
proof -
  let ?es = "chosen tr tier_range es" and ?key = "sort_key_of ''win_rate''"
  let ?agg = "aggregate_by_entity ?es"
  let ?empty = "\<lambda>a. decorate_entity (empty_reference_entry a ''augment'' pt)"
  let ?rest = "filter (\<lambda>a. a \<notin> set (map r_entity_id ?agg)) AUGMENTS"
  let ?all = "complete_reference_entities ''augment'' ?agg pt"
  have all: "?all = ?agg @ map ?empty ?rest" by (simp add: complete_reference_entities_def)
  have id: "r_entity_id (?empty a) = a" "r_sample_size (?empty a) = 0" for a
    by (simp_all add: empty_reference_entry_def)
  have "length ?all \<le> length ?agg + length AUGMENTS"
    unfolding all using length_filter_le [of _ AUGMENTS] by simp
  then have "int (length (sort_key ?key ?all)) \<le> limit" using assms(2) by simp
  then have rows: "rows = sort_key ?key ?all"
    using assms(1) unfolding list_rows_win_rate by (simp add: py_take_def)
  note agg_ids = aggregate_ids [of ?es]
  have ids: "map r_entity_id ?all = map r_entity_id ?agg @ ?rest"
    unfolding all by (simp add: comp_def empty_reference_entry_def)
  have "set (map r_entity_id rows) = set (map r_entity_id ?all)" by (simp add: rows)
  also have "\<dots> = set AUGMENTS \<union> set (map r_entity_id ?agg)" unfolding ids by auto
  finally have set_ids: "set (map r_entity_id rows) = set AUGMENTS \<union> {eid. total_size (own_entries eid ?es) \<noteq> 0}"
    unfolding agg_ids .
  have "distinct (map r_entity_id ?all)"
    unfolding ids using aggregate_distinct [of ?es] augments_distinct by auto
  then have "distinct (map r_entity_id rows)" unfolding rows by (rule distinct_ids_sort)
  moreover have "sorted_wrt (\<lambda>a b. r_sample_size a = 0 \<longrightarrow> r_sample_size b = 0) rows"
    unfolding rows
    by (rule sorted_wrt_mono_rel [OF _ sorted_wrt_sort_key])
      (auto simp: sort_key_of_def less_eq_prod_def)
  moreover have "r_sample_size r = total_size (own_entries (r_entity_id r) ?es)" if mem: "r \<in> set rows" for r
  proof (cases "r \<in> set ?agg")
    case True
    then show ?thesis by (rule aggregate_row_stats(1))
  next
    case False
    then obtain a where a: "r = ?empty a" "a \<notin> set (map r_entity_id ?agg)"
      using mem unfolding rows all by auto
    then show ?thesis unfolding agg_ids by (simp add: empty_reference_entry_def)
  qed
  ultimately show ?thesis using set_ids by blast
qed

definition few_samples :: "stat_entry list" where
  "few_samples = [(rate_entry ''GOLD'' 1)\<lparr>se_entity_id := TRAP_AUGMENT, se_entity_type := ''augment'', se_sample_size := 1\<rparr>]"

theorem augments_in_full_witness:
  "\<exists>rows. list_rows ''augment'' [] [] [] 1000 ''win_rate'' [] few_samples = Inr rows
     \<and> TRAP_AUGMENT \<in> set (map r_entity_id rows)"
proof -
  obtain rows where r: "list_rows ''augment'' [] [] [] 1000 ''win_rate'' [] few_samples = Inr rows"
    unfolding list_rows_win_rate by blast
  have "length AUGMENTS + length (aggregate_by_entity (chosen [] [] few_samples)) \<le> 1000"
    by code_simp
  then have "int (length AUGMENTS + length (aggregate_by_entity (chosen [] [] few_samples))) \<le> 1000"
    by linarith
  note full = augments_in_full [OF r this]
  have "total_size (own_entries TRAP_AUGMENT (chosen [] [] few_samples)) = 1" by code_simp
  then have "TRAP_AUGMENT \<in> set (map r_entity_id rows)" using full by simp
  with r show ?thesis by blast
qed

lemma patch_point_fst: "patch_point_of x = Some y \<Longrightarrow> fst y = fst x"
  by (auto simp: patch_point_of_def split: prod.splits if_splits)

lemma map_filter_keys:
  assumes "distinct (map fst xs)" and "\<And>x y. f x = Some y \<Longrightarrow> k y = fst x"
  shows "distinct (map k (List.map_filter f xs))"
  using assms(1)
proof (induction xs)
  case Nil
  show ?case by (simp add: map_filter_def)
next
  case (Cons x xs)
  have "k y \<in> fst ` set xs" if "y \<in> set (List.map_filter f xs)" for y
    using that assms(2) unfolding set_map_filter by force
  with Cons show ?case
    by (auto simp: map_filter_simps dest: assms(2) split: option.splits)
qed

lemma patch_series_mem:
  "(p, w, n) \<in> set (patch_series es) \<longleftrightarrow>
     p \<in> se_patch ` set es \<and> n = total_size (filter (\<lambda>e. se_patch e = p) es) \<and> 200 \<le> n
     \<and> w = py_round (weighted se_win_rate (filter (\<lambda>e. se_patch e = p) es)) 4"
proof -
  have "(p, w, n) \<in> set (patch_series es) \<longleftrightarrow>
      (\<exists>es'. (p, es') \<in> set (group_by se_patch es) \<and> patch_point_of (p, es') = Some (p, w, n))"
    unfolding patch_series_def set_sort set_map_filter
    using patch_point_fst by (force simp: patch_point_of_def split: if_splits)
  then show ?thesis
    unfolding group_by_mem by (auto simp: patch_point_of_def MIN_SAMPLE_def split: if_splits)
qed

text \<open>
  The patch history is in string order, not in patch order. The series has one point per
  patch with at least 200 samples, in the order of the patch names as strings, in which
  patch 17.10 comes before patch 17.9.
\<close>

theorem patch_history_string_order:
  "sorted (map fst (patch_series es)) \<and> distinct (map fst (patch_series es))
   \<and> set (patch_series es) =
       {(p, py_round (weighted se_win_rate (filter (\<lambda>e. se_patch e = p) es)) 4,
            total_size (filter (\<lambda>e. se_patch e = p) es)) | p.
          p \<in> se_patch ` set es \<and> 200 \<le> total_size (filter (\<lambda>e. se_patch e = p) es)}
   \<and> ''17.10'' < ''17.9''"
proof (intro conjI)
  show "sorted (map fst (patch_series es))" by (simp add: patch_series_def)
  have "distinct (map fst (List.map_filter patch_point_of (group_by se_patch es)))"
    by (rule map_filter_keys) (simp_all add: patch_point_fst)
  then show "distinct (map fst (patch_series es))"
    unfolding patch_series_def by (simp add: distinct_map)
  show "set (patch_series es) =
       {(p, py_round (weighted se_win_rate (filter (\<lambda>e. se_patch e = p) es)) 4,
            total_size (filter (\<lambda>e. se_patch e = p) es)) | p.
          p \<in> se_patch ` set es \<and> 200 \<le> total_size (filter (\<lambda>e. se_patch e = p) es)}"
    by (auto simp: patch_series_mem)
  show "''17.10'' < ''17.9''" by code_simp
qed


section \<open>The grid\<close>

lemma partition_at_pair:
  "CHR ''|'' \<notin> set c \<Longrightarrow> partition_at (CHR ''|'') (pair_id c i) = (c, ''|'', i)"
proof -
  assume c: "CHR ''|'' \<notin> set c"
  then have "\<And>x. x \<in> set c \<Longrightarrow> x \<noteq> CHR ''|''" by auto
  then show ?thesis by (simp add: partition_at_def pair_id_def Let_def takeWhile_append2 dropWhile_append2)
qed

definition pair_rows :: "row list \<Rightarrow> bool" where
  "pair_rows rows \<longleftrightarrow> distinct (map r_entity_id rows)
     \<and> (\<forall>r\<in>set rows. \<exists>c i. CHR ''|'' \<notin> set c \<and> r_entity_id r = pair_id c i)"

definition split_id :: "row \<Rightarrow> string \<times> string" where
  "split_id r = (case partition_at (CHR ''|'') (r_entity_id r) of (c, _, i) \<Rightarrow> (c, i))"

lemma split_id_pair: "r_entity_id r = pair_id c i \<Longrightarrow> CHR ''|'' \<notin> set c \<Longrightarrow> split_id r = (c, i)"
  by (simp add: split_id_def partition_at_pair)

lemma cells_grid_step:
  "CHR ''|'' \<in> set (r_entity_id r) \<Longrightarrow> cells (grid_step r g) = AList.update (split_id r) r (cells g)"
  by (simp add: grid_step_def split_id_def split: prod.splits)

lemma cells_fold:
  "\<forall>r\<in>set rows. CHR ''|'' \<in> set (r_entity_id r) \<Longrightarrow>
   cells (fold grid_step rows g) = fold (\<lambda>r. AList.update (split_id r) r) rows (cells g)"
  by (induction rows arbitrary: g) (simp_all add: cells_grid_step)

lemma fold_update_lookup:
  "distinct (map k xs) \<Longrightarrow> x \<in> set xs \<Longrightarrow>
   map_of (fold (\<lambda>x. AList.update (k x) x) xs d) (k x) = Some x"
proof (induction xs rule: rev_induct)
  case Nil
  then show ?case by simp
next
  case (snoc y ys)
  show ?case
  proof (cases "x = y")
    case True
    then show ?thesis by simp
  next
    case False
    then have "x \<in> set ys" using snoc.prems(2) by simp
    moreover from this have "k x \<in> k ` set ys" by (rule imageI)
    then have "k x \<noteq> k y" using snoc.prems(1) by (intro notI) simp
    ultimately show ?thesis using snoc by simp
  qed
qed

lemma pair_rows_split: "pair_rows rows \<Longrightarrow> distinct (map split_id rows)"
proof -
  assume p: "pair_rows rows"
  have "inj_on split_id (set rows)"
  proof (rule inj_onI)
    fix a b
    assume m: "a \<in> set rows" "b \<in> set rows" and eq: "split_id a = split_id b"
    obtain c i where a: "CHR ''|'' \<notin> set c" "r_entity_id a = pair_id c i"
      using p m(1) unfolding pair_rows_def by blast
    obtain c' i' where b: "CHR ''|'' \<notin> set c'" "r_entity_id b = pair_id c' i'"
      using p m(2) unfolding pair_rows_def by blast
    have "r_entity_id a = r_entity_id b"
      using eq by (simp add: split_id_pair [OF a(2,1)] split_id_pair [OF b(2,1)] a(2) b(2))
    then show "a = b" using p m by (simp add: pair_rows_def distinct_map inj_on_def)
  qed
  with p show ?thesis by (simp add: pair_rows_def distinct_map)
qed

lemma grid_cells_lookup:
  assumes p: "pair_rows rows" and c: "CHR ''|'' \<notin> set c" and r: "r \<in> set rows" "r_entity_id r = pair_id c i"
  shows "map_of (cells (grid_of rows)) (c, i) = Some r"
proof -
  have "\<forall>r\<in>set rows. CHR ''|'' \<in> set (r_entity_id r)"
    using p unfolding pair_rows_def pair_id_def by fastforce
  then have "cells (grid_of rows) = fold (\<lambda>r. AList.update (split_id r) r) rows []"
    by (simp add: grid_of_def cells_fold)
  then show ?thesis
    using fold_update_lookup [OF pair_rows_split [OF p] r(1), of "[]"] split_id_pair [OF r(2) c] by simp
qed

lemma grid_cells_mem:
  "x \<in> set (grid_cells g cs its) \<longleftrightarrow>
     (\<exists>c\<in>set cs. \<exists>i\<in>set its. \<exists>r. map_of (cells g) (c, i) = Some r \<and> 200 \<le> r_sample_size r
        \<and> x = \<lparr>gc_champion = c, gc_item = i, gc_win_rate = r_win_rate r,
               gc_avg_placement = r_avg_placement r, gc_sample_size = r_sample_size r\<rparr>)"
proof -
  have one: "(case m of None \<Rightarrow> None | Some r \<Rightarrow> if MIN_SAMPLE \<le> r_sample_size r then Some (f r) else None) = Some x
      \<longleftrightarrow> (\<exists>r. m = Some r \<and> 200 \<le> r_sample_size r \<and> x = f r)" for m f x
    by (cases m) (simp_all add: MIN_SAMPLE_def eq_commute)
  show ?thesis
    unfolding grid_cells_def set_concat set_map UN_iff image_image set_map_filter one
    by (simp only: mem_Collect_eq)
qed

text \<open>
  The heatmap takes champion-item pairs apart again. For aggregated rows whose ids the
  aggregator built from a champion id without a bar and an item id, a cell of the grid is
  filled exactly when the pair's row has at least 200 samples and its champion and item are
  among the top ones, and it shows the statistics of exactly that row.
\<close>

theorem grid_roundtrip:
  assumes "pair_rows rows" and "CHR ''|'' \<notin> set c" and "r \<in> set rows" and "r_entity_id r = pair_id c i"
  shows "\<lparr>gc_champion = c, gc_item = i, gc_win_rate = r_win_rate r, gc_avg_placement = r_avg_placement r,
       gc_sample_size = r_sample_size r\<rparr> \<in> set (grid_cells (grid_of rows) cs its)
     \<longleftrightarrow> 200 \<le> r_sample_size r \<and> c \<in> set cs \<and> i \<in> set its"
proof -
  have "map_of (cells (grid_of rows)) (c, i) = Some r" using assms by (rule grid_cells_lookup)
  then show ?thesis unfolding grid_cells_mem by (simp add: grid_cell.simps) metis
qed

theorem grid_roundtrip_witness:
  "\<exists>r. r_entity_id r = pair_id ''TFT17_Bard'' ''TFT_Item_X'' \<and> pair_rows [r]
     \<and> \<lparr>gc_champion = ''TFT17_Bard'', gc_item = ''TFT_Item_X'', gc_win_rate = r_win_rate r,
          gc_avg_placement = r_avg_placement r, gc_sample_size = r_sample_size r\<rparr>
        \<in> set (grid_cells (grid_of [r]) [''TFT17_Bard''] [''TFT_Item_X''])"
proof -
  let ?r = "entry_dict (pair_id ''TFT17_Bard'' ''TFT_Item_X'') ''champion_item'' 0 8 0 300 [] [] []"
  have id: "r_entity_id ?r = pair_id ''TFT17_Bard'' ''TFT_Item_X''" by simp
  have no: "CHR ''|'' \<notin> set ''TFT17_Bard''" by simp
  have p: "pair_rows [?r]" unfolding pair_rows_def 
    using id no by (intro conjI ballI exI [of _ "''TFT17_Bard''"] exI [of _ "''TFT_Item_X''"]) simp_all
  have "?r \<in> set [?r]" by simp
  from grid_roundtrip [OF p no this id] id p show ?thesis
    by (intro exI [of _ ?r]) simp
qed

section \<open>The anomaly feed\<close>

definition decoded :: "'a option list \<Rightarrow> 'a list" where
  "decoded ps = map the (filter (\<lambda>p. p \<noteq> None) ps)"

lemma decoded_simps [simp]:
  "decoded [] = []" "decoded (None # ps) = decoded ps" "decoded (Some a # ps) = a # decoded ps"
  by (simp_all add: decoded_def)

lemma length_decoded: "length (decoded ps) \<le> length ps"
  by (simp add: decoded_def)

lemma feed_fold:
  "length q \<le> 500 \<Longrightarrow>
   fold (\<lambda>p q. case p of None \<Rightarrow> q | Some a \<Rightarrow> feed_push a q) ps q
     = take 500 (rev (decoded ps) @ q)"
proof (induction ps arbitrary: q)
  case Nil
  then show ?case by simp
next
  case (Cons p ps)
  show ?case
  proof (cases p)
    case None
    then show ?thesis using Cons by simp
  next
    case (Some a)
    have "take 500 (rev (decoded ps) @ take 500 (a # q)) = take 500 (rev (decoded ps) @ a # q)"
      by (simp add: take_Cons')
    moreover have "length (feed_push a q) \<le> 500" by (simp add: feed_push_def)
    ultimately show ?thesis using Cons.IH [of "feed_push a q"] by (simp add: Some feed_push_def)
  qed
qed

text \<open>
  The feed holds the newest alerts first, at most 500, and repeats them after a reconnect.
  Every session of the feed thread reads the topic from offset 0 into the same deque: after
  two sessions that each deliver the whole log, every alert of a log of at most 250 is listed
  twice, and the window filter of the endpoint keeps both copies.
\<close>

theorem feed_reconnect_duplicates:
  "feed_session n topic_log [] = take 500 (rev (decoded (take n topic_log)))
   \<and> (length topic_log \<le> 250 \<longrightarrow>
       feed_session (length topic_log) topic_log (feed_session (length topic_log) topic_log [])
         = rev (decoded topic_log) @ rev (decoded topic_log))"
proof
  show one: "feed_session n topic_log [] = take 500 (rev (decoded (take n topic_log)))" for n
    by (simp add: feed_session_def feed_fold)
  show "length topic_log \<le> 250 \<longrightarrow>
       feed_session (length topic_log) topic_log (feed_session (length topic_log) topic_log [])
         = rev (decoded topic_log) @ rev (decoded topic_log)"
  proof
    assume l: "length topic_log \<le> 250"
    have "length (decoded topic_log) \<le> length topic_log" by (rule length_decoded)
    then show "feed_session (length topic_log) topic_log (feed_session (length topic_log) topic_log [])
         = rev (decoded topic_log) @ rev (decoded topic_log)"
      using l unfolding one by (simp add: feed_session_def feed_fold)
  qed
qed

theorem feed_reconnect_duplicates_witness:
  "length (feed_session 1 [Some (make_alert \<lparr>p_detector = new_detector 48, spikes = [],
      tiers_with_data = [], tiers_spiking = []\<rparr> 7 (rate_entry ''GOLD'' 1, 3))]
    (feed_session 1 [Some (make_alert \<lparr>p_detector = new_detector 48, spikes = [],
      tiers_with_data = [], tiers_spiking = []\<rparr> 7 (rate_entry ''GOLD'' 1, 3))] [])) = 2"
  using feed_reconnect_duplicates [where n = 0 and topic_log = "[Some (make_alert \<lparr>p_detector = new_detector 48,
    spikes = [], tiers_with_data = [], tiers_spiking = []\<rparr> 7 (rate_entry ''GOLD'' 1, 3))]"]
  by (simp add: map_filter_simps)

end
