(* ===== verification/Pipeline.thy ===== *)
theory Pipeline
  imports Aggregator Service
begin

text \<open>
  From match events to served rows: the lemmas that connect the aggregator's flush with the
  service's aggregation. The reference is the pool of an entity: the placements of all boards
  of all matches, each as often as the board counts for the entity, with no regard to patch,
  tier and region.
\<close>

definition pool :: "match_event list \<Rightarrow> string \<Rightarrow> string \<Rightarrow> int list" where
  "pool ms eid etype =
     concat (map (\<lambda>m. concat (map (\<lambda>pl. replicate (board_count pl eid etype) (placement pl)) (players m))) ms)"

definition scope_of :: "match_event \<Rightarrow> scope" where
  "scope_of m = (patch m, tier m, region m)"

lemma pool_Cons: "pool (m # ms) eid etype = match_samples m (eid, etype, scope_of m) @ pool ms eid etype"
  by (simp add: pool_def match_samples_def scope_of_def)

lemma match_samples_other: "sc \<noteq> scope_of m \<Longrightarrow> match_samples m (eid, etype, sc) = []"
  by (auto simp: match_samples_def scope_of_def)

text \<open>Measures of a list of placements that add up over concatenation: size, top fours, sum.\<close>

locale additive_measure =
  fixes h :: "int list \<Rightarrow> real"
  assumes h_Nil: "h [] = 0" and h_append: "h (xs @ ys) = h xs + h ys"
begin

lemma scopes_pool:
  assumes "finite S" and "scope_of ` set ms \<subseteq> S"
  shows "(\<Sum>sc\<in>S. h (samples ms (eid, etype, sc))) = h (pool ms eid etype)"
  using assms(2)
proof (induction ms)
  case Nil
  show ?case by (simp add: samples_def pool_def h_Nil)
next
  case (Cons m ms)
  have "(\<Sum>sc\<in>S. h (match_samples m (eid, etype, sc)))
      = (\<Sum>sc\<in>S. if sc = scope_of m then h (match_samples m (eid, etype, scope_of m)) else 0)"
    by (rule sum.cong) (auto simp: match_samples_other h_Nil)
  also have "\<dots> = h (match_samples m (eid, etype, scope_of m))"
    using Cons.prems assms(1) by (simp add: sum.delta)
  finally show ?case
    using Cons by (simp add: samples_def pool_Cons h_append sum.distrib)
qed

end

interpretation size_measure: additive_measure "\<lambda>xs. real (length xs)"
  by unfold_locales simp_all

interpretation top4_measure: additive_measure "\<lambda>xs. real (top4 xs)"
  by unfold_locales (simp_all add: top4_def)

interpretation sum_measure: additive_measure "\<lambda>xs. real_of_int (sum_list xs)"
  by unfold_locales simp_all

definition scopes_with :: "match_event list \<Rightarrow> string \<Rightarrow> string \<Rightarrow> scope set" where
  "scopes_with ms eid etype = {sc. samples ms (eid, etype, sc) \<noteq> []}"

lemma samples_scope_mem: "samples ms (eid, etype, sc) \<noteq> [] \<Longrightarrow> sc \<in> scope_of ` set ms"
proof -
  assume "samples ms (eid, etype, sc) \<noteq> []"
  then obtain m where m: "m \<in> set ms" "match_samples m (eid, etype, sc) \<noteq> []" by (auto simp: samples_def)
  then have "sc = scope_of m" using match_samples_other by blast
  with m(1) show ?thesis by blast
qed

lemma finite_scopes_with: "finite (scopes_with ms eid etype)"
  by (rule finite_subset [of _ "scope_of ` set ms"]) (auto simp: scopes_with_def samples_scope_mem)

context additive_measure
begin

lemma scopes_with_pool: "(\<Sum>sc\<in>scopes_with ms eid etype. h (samples ms (eid, etype, sc))) = h (pool ms eid etype)"
proof -
  have "(\<Sum>sc\<in>scope_of ` set ms. h (samples ms (eid, etype, sc)))
      = (\<Sum>sc\<in>scopes_with ms eid etype. h (samples ms (eid, etype, sc)))"
    by (rule sum.mono_neutral_right) (auto simp: scopes_with_def samples_scope_mem h_Nil)
  then show ?thesis using scopes_pool [of "scope_of ` set ms" ms eid etype] by simp
qed

end

section \<open>One entity's entries of a flush\<close>

definition flushed :: "(py_float list \<Rightarrow> py_float) \<Rightarrow> vector_clock \<Rightarrow> match_event list \<Rightarrow> string \<Rightarrow> stat_entry list" where
  "flushed np_mean c ms etype =
     filter (\<lambda>e. se_entity_type e = etype) (fst (flush np_mean c (process_batch ms new_aggregator)))"

lemma own_flushed_set:
  assumes "mean_spec np_mean"
  shows "set (own_entries eid (flushed np_mean c ms etype))
    = (\<lambda>sc. reference_entry c ms (eid, etype, sc)) ` scopes_with ms eid etype"
proof -
  have "se_entity_id (reference_entry c ms (i, t, sc)) = i \<and> se_entity_type (reference_entry c ms (i, t, sc)) = t" for i t sc
    by (auto simp: reference_entry_def Let_def split: prod.splits)
  then show ?thesis
    unfolding own_entries_def flushed_def set_filter flush_set [OF assms] scopes_with_def by auto
qed

lemma own_flushed_sum:
  assumes "mean_spec np_mean"
  shows "sum_list (map g (own_entries eid (flushed np_mean c ms etype)))
    = (\<Sum>sc\<in>scopes_with ms eid etype. g (reference_entry c ms (eid, etype, sc)))"
proof -
  let ?es = "own_entries eid (flushed np_mean c ms etype)"
  have "distinct ?es"
    using flush_distinct [OF assms, of c ms] unfolding own_entries_def flushed_def
    by (auto simp: distinct_map)
  then have "sum_list (map g ?es) = sum g (set ?es)" by (rule sum_list_distinct_conv_sum_set)
  also have "\<dots> = (\<Sum>sc\<in>scopes_with ms eid etype. g (reference_entry c ms (eid, etype, sc)))"
  proof -
    have "inj_on (\<lambda>sc. reference_entry c ms (eid, etype, sc)) (scopes_with ms eid etype)"
      by (rule inj_onI) (metis Pair_inject entry_key_reference)
    then show ?thesis unfolding own_flushed_set [OF assms] by (simp add: sum.reindex)
  qed
  finally show ?thesis .
qed

lemma reference_weights:
  fixes c :: vector_clock
  assumes "samples ms (eid, etype, sc) \<noteq> []"
  defines "e \<equiv> reference_entry c ms (eid, etype, sc)"
  shows "se_win_rate e * of_int (se_sample_size e) = real (top4 (samples ms (eid, etype, sc)))"
    and "se_avg_placement e * of_int (se_sample_size e) = real_of_int (sum_list (samples ms (eid, etype, sc)))"
  using assms(1) by (auto simp: e_def reference_entry_def Let_def split: prod.splits)

lemma own_flushed_pool:
  fixes c :: vector_clock and eid etype :: string and ms :: "match_event list"
  assumes "mean_spec np_mean"
  defines "es \<equiv> own_entries eid (flushed np_mean c ms etype)" and "xs \<equiv> pool ms eid etype"
  shows "total_size es = int (length xs)"
    and "weighted se_win_rate es = real (top4 xs) / real (length xs)"
    and "weighted se_avg_placement es = real_of_int (sum_list xs) / real (length xs)"
proof -
  note sums = own_flushed_sum [OF assms(1), of _ eid c ms etype, folded es_def]
  have "real_of_int (total_size es) = sum_list (map (\<lambda>e. real_of_int (se_sample_size e)) es)"
    unfolding total_size_def by (induction es) simp_all
  also have "\<dots> = real (length xs)"
    unfolding sums xs_def size_measure.scopes_with_pool [symmetric] by simp
  finally show size: "total_size es = int (length xs)" by linarith
  have "sum_list (map (\<lambda>e. se_win_rate e * of_int (se_sample_size e)) es) = real (top4 xs)"
    unfolding sums xs_def top4_measure.scopes_with_pool [symmetric]
    by (rule sum.cong [OF refl], rule reference_weights) (simp add: scopes_with_def)
  then show "weighted se_win_rate es = real (top4 xs) / real (length xs)"
    by (simp add: weighted_def size)
  have "sum_list (map (\<lambda>e. se_avg_placement e * of_int (se_sample_size e)) es) = real_of_int (sum_list xs)"
    unfolding sums xs_def sum_measure.scopes_with_pool [symmetric]
    by (rule sum.cong [OF refl], rule reference_weights) (simp add: scopes_with_def)
  then show "weighted se_avg_placement es = real_of_int (sum_list xs) / real (length xs)"
    by (simp add: weighted_def size)
qed

end
