(* ===== verification/Synthetic.thy ===== *)
theory Synthetic
  imports Aggregator Tft_Augments
begin

text \<open>
  The generator of synthetic matches, \<open>ingestion/synthetic.py\<close>. What it draws from its random
  generator is an argument: a \<open>player_draw\<close> holds what one turn of the loop over the eight
  players draws, a seat the player id and the number of rounds drawn for a placement. The
  predicate \<open>legal_draw\<close> says which values the calls of \<open>choice\<close>, \<open>choices\<close>, \<open>sample\<close> and
  \<open>randint\<close> can return. \<open>md5_prefix\<close> is the number read from the first eight hexadecimal
  digits of an MD5 digest.
\<close>

section \<open>Draws\<close>

record player_draw =
  dr_comp :: comp
  dr_items :: "string list list" \<comment> \<open>for each unit of the composition\<close>
  dr_stars :: "int list"
  dr_augments :: "string list"
  dr_noise :: py_float

definition item_counts :: "string option \<Rightarrow> string \<Rightarrow> nat list" where
  "item_counts carry cid = (if Some cid = carry then [2, 3] else [0, 1])"

definition legal_draw :: "player_draw \<Rightarrow> bool" where
  "legal_draw d \<longleftrightarrow>
     dr_comp d \<in> set COMPS
   \<and> list_all2 (\<lambda>cid its. length its \<in> set (item_counts (comp_carry (dr_comp d)) cid)
        \<and> distinct its \<and> set its \<subseteq> set ITEMS) (comp_units (dr_comp d)) (dr_items d)
   \<and> length (dr_stars d) = length (comp_units (dr_comp d)) \<and> list_all (\<lambda>s. 1 \<le> s \<and> s \<le> 3) (dr_stars d)
   \<and> length (dr_augments d) \<in> {2, 3} \<and> distinct (dr_augments d) \<and> set (dr_augments d) \<subseteq> set AUGMENTS"

section \<open>Operations\<close>

definition SYN_HIGH_TIERS :: "string list" where
  "SYN_HIGH_TIERS = [''DIAMOND'', ''MASTER'', ''GRANDMASTER'', ''CHALLENGER'']"

definition comp_strength :: "(string \<Rightarrow> nat) \<Rightarrow> string \<Rightarrow> py_float" where
  "comp_strength md5_prefix cid = real (md5_prefix cid mod 100) / 100 * 0.32 - 0.16"

definition placement_bias :: "(string \<Rightarrow> nat) \<Rightarrow> string list \<Rightarrow> string list \<Rightarrow> string \<Rightarrow> string \<Rightarrow> py_float" where
  "placement_bias md5_prefix us augs tr cid =
     (let score = (if cid \<noteq> [] then comp_strength md5_prefix cid else 0);
          score = fold (\<lambda>u sc.
            let sc = sc - of_int (dict_get CHAMPION_COST u 2) * 0.04
            in if u \<in> set HIGH_ELO_FAVORITES \<and> tr \<in> set SYN_HIGH_TIERS then sc - 0.08 else sc) us score
      in if TRAP_AUGMENT \<in> set augs then score + 0.10 else score)"

definition comp_board :: "player_draw \<Rightarrow> pb_unit list" where
  "comp_board d =
     map (\<lambda>(cid, its, star). \<lparr>character_id = cid, unit_tier = star, items = its\<rparr>)
       (zip (comp_units (dr_comp d)) (zip (dr_items d) (dr_stars d)))"

definition strength :: "(string \<Rightarrow> nat) \<Rightarrow> string \<Rightarrow> player_draw \<Rightarrow> py_float" where
  "strength md5_prefix tr d =
     placement_bias md5_prefix (comp_units (dr_comp d)) (dr_augments d) tr (comp_id (dr_comp d)) + dr_noise d"

definition generate_match ::
    "(string \<Rightarrow> nat) \<Rightarrow> int \<Rightarrow> string \<Rightarrow> player_draw list \<Rightarrow> (string \<times> int) list \<Rightarrow>
     string \<Rightarrow> string \<Rightarrow> string \<Rightarrow> string \<Rightarrow> int \<Rightarrow> match_event" where
  "generate_match md5_prefix now_ms uid draws seats rgn tr pt node_id seq =
     (let scored = sort_key fst (map (\<lambda>d. (strength md5_prefix tr d, comp_board d, dr_augments d)) draws)
      in \<lparr>match_id = rgn @ ''_'' @ uid, region = rgn, patch = pt, tier = tr,
          players = map (\<lambda>(plc, (_, us, augs), (pid, rounds)).
              \<lparr>puuid = ''puuid_'' @ pid, placement = int plc, units = us, augments = augs, rounds_played = rounds\<rparr>)
            (zip [1..<length scored + 1] (zip scored seats)),
          clocks = [(node_id, seq)], timestamp = now_ms\<rparr>)"

section \<open>Boards\<close>

lemma board_unit:
  assumes "legal_draw d" "u \<in> set (comp_board d)"
  shows "character_id u \<in> set (comp_units (dr_comp d))"
    and "length (items u) \<in> set (item_counts (comp_carry (dr_comp d)) (character_id u))"
proof -
  from assms(2) obtain cid its star where
    z: "(cid, its, star) \<in> set (zip (comp_units (dr_comp d)) (zip (dr_items d) (dr_stars d)))"
    and u: "u = \<lparr>character_id = cid, unit_tier = star, items = its\<rparr>" by (auto simp: comp_board_def)
  from z obtain i where i: "i < length (comp_units (dr_comp d))" "i < length (dr_items d)"
    "cid = comp_units (dr_comp d) ! i" "its = dr_items d ! i" by (auto simp: set_zip)
  show "character_id u \<in> set (comp_units (dr_comp d))" by (simp add: u i)
  from assms(1) have "list_all2 (\<lambda>cid its. length its \<in> set (item_counts (comp_carry (dr_comp d)) cid)
        \<and> distinct its \<and> set its \<subseteq> set ITEMS) (comp_units (dr_comp d)) (dr_items d)"
    unfolding legal_draw_def by blast
  from list_all2_nthD [OF this i(1)]
  show "length (items u) \<in> set (item_counts (comp_carry (dr_comp d)) (character_id u))" by (simp add: u i)
qed

lemma board_ids:
  assumes "legal_draw d"
  shows "map character_id (comp_board d) = comp_units (dr_comp d)"
proof -
  have "length (dr_items d) = length (comp_units (dr_comp d))" "length (dr_stars d) = length (comp_units (dr_comp d))"
    using assms unfolding legal_draw_def by (auto dest: list_all2_lengthD)
  then show ?thesis
    by (simp add: comp_board_def comp_def [symmetric] split_def map_fst_zip [symmetric] flip: map_map)
       (simp add: comp_def split_def map_fst_zip)
qed

lemma board_fives:
  "map character_id us = cs \<Longrightarrow>
   length (filter (\<lambda>u. 5 \<le> unit_cost0 u) us) = length (filter (\<lambda>c. 5 \<le> dict_get CHAMPION_COST c 0) cs)"
  by (induction us arbitrary: cs) (auto simp: unit_cost0_def)

lemma carry_key_items: "carry_key u \<le> carry_key v \<Longrightarrow> length (items u) \<le> length (items v)"
  by (auto simp: carry_key_def less_eq_prod_def)


text \<open>A synthetic board is labelled with the composition it was drawn from.\<close>

lemma synthetic_label:
  assumes legal: "legal_draw d"
  shows "composition_label (comp_board d) = ''comp:'' @ comp_id (dr_comp d)"
proof -
  let ?c = "dr_comp d" and ?us = "comp_board d"
  have wf: "wf_comp ?c" using legal unfolding legal_draw_def by (blast intro: wf_comp_COMPS)
  have ids: "map character_id ?us = comp_units ?c" by (rule board_ids [OF legal])
  have ne: "?us \<noteq> []" using ids wf by (cases "comp_carry ?c") (auto simp: wf_comp_def)
  then obtain u us where us: "?us = u # us" by (cases ?us) auto
  define k where "k = py_max carry_key u us"
  have k: "k \<in> set ?us" "\<And>v. v \<in> set ?us \<Longrightarrow> carry_key v \<le> carry_key k"
    using py_max_in [of carry_key u us] py_max_ge [of _ u us carry_key] by (auto simp: us k_def)
  have lab: "composition_label ?us = ''comp:'' @
      (if length (items k) < 2 \<and> 3 \<le> length (filter (\<lambda>u. 5 \<le> unit_cost0 u) ?us) then ''Fast9'' else character_id k)"
    by (simp add: composition_label_def us Let_def k_def)
  note n = board_unit(2) [OF legal]
  show ?thesis
  proof (cases "comp_carry ?c")
    case None
    then have "length (items k) < 2" using n [OF k(1)] by (auto simp: item_counts_def)
    moreover have "list_all (\<lambda>c. dict_get CHAMPION_COST c 0 = 5) (comp_units ?c)" "3 \<le> length (comp_units ?c)"
      "comp_id ?c = ''Fast9''" using wf None by (simp_all add: wf_comp_def)
    moreover from this(1) have "filter (\<lambda>c. 5 \<le> dict_get CHAMPION_COST c 0) (comp_units ?c) = comp_units ?c"
      by (intro filter_True) (simp add: list_all_iff)
    ultimately show ?thesis using lab board_fives [OF ids] by simp
  next
    case (Some cid)
    with wf have "cid \<in> character_id ` set ?us" and id: "comp_id ?c = cid"
      unfolding set_map [symmetric] ids by (simp_all add: wf_comp_def)
    then obtain v where "v \<in> set ?us" "character_id v = cid" by blast
    with n [of v] k(2) [of v] have "2 \<le> length (items k)"
      using carry_key_items [of v k] by (auto simp: Some item_counts_def)
    moreover from this have "character_id k = cid" using n [OF k(1)] by (auto simp: Some item_counts_def split: if_splits)
    ultimately show ?thesis using lab id by simp
  qed
qed

section \<open>Matches\<close>

lemma insort_key_map: "insort_key f (g x) (map g ys) = map g (insort_key (f \<circ> g) x ys)"
  by (induction ys) simp_all

lemma sort_key_map: "sort_key f (map g xs) = map g (sort_key (f \<circ> g) xs)"
  by (induction xs) (simp_all only: sort_key_simps list.map insort_key_map)

lemma generated_players:
  assumes "length seats = length draws" and m_def: "m = generate_match h now uid draws seats rgn tr pt node seq"
  shows "map placement (players m) = map int [1..<length draws + 1]"
    and "map units (players m) = map comp_board (sort_key (strength h tr) draws)"
proof -
  let ?sc = "map (\<lambda>d. (strength h tr d, comp_board d, dr_augments d)) (sort_key (strength h tr) draws)"
  let ?zs = "zip [1..<length draws + 1] (zip ?sc seats)"
  have s: "sort_key fst (map (\<lambda>d. (strength h tr d, comp_board d, dr_augments d)) draws) = ?sc"
    by (simp add: sort_key_map comp_def)
  have p: "players m = map (\<lambda>z. \<lparr>puuid = ''puuid_'' @ fst (snd (snd z)), placement = int (fst z),
      units = fst (snd (fst (snd z))), augments = snd (snd (fst (snd z))), rounds_played = snd (snd (snd z))\<rparr>) ?zs"
    unfolding m_def generate_match_def Let_def s by (simp add: split_def del: upt_Suc)
  have z: "map fst ?zs = [1..<length draws + 1]" "map (fst \<circ> snd) ?zs = ?sc"
    using assms(1) by (simp_all add: map_fst_zip map_snd_zip del: upt_Suc flip: map_map)
  have "map placement (players m) = map int (map fst ?zs)" by (simp only: p map_map comp_def player_result.simps)
  then show "map placement (players m) = map int [1..<length draws + 1]" by (simp only: z)
  have "map units (players m) = map (fst \<circ> snd) (map (fst \<circ> snd) ?zs)" by (simp only: p map_map comp_def player_result.simps)
  then show "map units (players m) = map comp_board (sort_key (strength h tr) draws)"
    by (simp only: z) (simp only: map_map comp_def fst_conv snd_conv)
qed

text \<open>
  A synthetic match. Whatever is drawn, a generated match has eight players placed 1 to 8 in
  the order of their strength scores, each fields one of the drawn boards, and the processor
  labels each board with the composition it was built from; so the composition statistics of a
  synthetic run count exactly the compositions drawn. The match carries the node's own sequence
  number as its only clock entry.
\<close>

theorem synthetic_match:
  assumes "length draws = 8" "length seats = 8" and "list_all legal_draw draws"
  shows "let m = generate_match md5_prefix now_ms uid draws seats rgn tr pt node seq;
             ranked = sort_key (strength md5_prefix tr) draws in
      map placement (players m) = [1, 2, 3, 4, 5, 6, 7, 8]
    \<and> map units (players m) = map comp_board ranked
    \<and> map (composition_label \<circ> units) (players m) = map (\<lambda>d. ''comp:'' @ comp_id (dr_comp d)) ranked
    \<and> mset ranked = mset draws
    \<and> clocks m = [(node, seq)]"
proof -
  let ?m = "generate_match md5_prefix now_ms uid draws seats rgn tr pt node seq"
    and ?ranked = "sort_key (strength md5_prefix tr) draws"
  have l: "length seats = length draws" using assms(1,2) by simp
  note g = generated_players [OF l refl, of md5_prefix now_ms uid rgn tr pt node seq]
  have "map int [1..<length draws + 1] = [1, 2, 3, 4, 5, 6, 7, 8]" by (simp add: assms(1) upt_rec)
  with g(1) have p: "map placement (players ?m) = [1, 2, 3, 4, 5, 6, 7, 8]" by (simp only:)
  have "map composition_label (map units (players ?m)) = map (composition_label \<circ> comp_board) ?ranked"
    by (simp only: g(2) map_map)
  also have "\<dots> = map (\<lambda>d. ''comp:'' @ comp_id (dr_comp d)) ?ranked"
    using assms(3) by (intro map_cong) (simp_all add: synthetic_label list_all_iff)
  finally have lab: "map (composition_label \<circ> units) (players ?m) = map (\<lambda>d. ''comp:'' @ comp_id (dr_comp d)) ?ranked"
    by (simp only: map_map)
  have "clocks ?m = [(node, seq)]" by (simp add: generate_match_def Let_def)
  then show ?thesis unfolding Let_def using p g(2) lab by (intro conjI) (simp_all only: mset_sort)
qed

definition bard_draw :: "py_float \<Rightarrow> player_draw" where
  "bard_draw x = \<lparr>dr_comp = hd COMPS, dr_items = (take 2 ITEMS) # replicate 8 [], dr_stars = replicate 9 1,
     dr_augments = take 2 AUGMENTS, dr_noise = x\<rparr>"

lemma bard_draw_legal: "legal_draw (bard_draw x)"
proof -
  have c: "hd COMPS \<in> set COMPS" by (simp add: COMPS_def)
  have n: "length (comp_units (hd COMPS)) = 9" by code_simp
  have i: "list_all2 (\<lambda>cid its. length its \<in> set (item_counts (comp_carry (hd COMPS)) cid) \<and> distinct its \<and> list_all (\<lambda>i. i \<in> set ITEMS) its)
      (comp_units (hd COMPS)) (take 2 ITEMS # replicate 8 [])" by code_simp
  have a: "length (take 2 AUGMENTS) = 2" "distinct (take 2 AUGMENTS)" by code_simp+
  show ?thesis
    using c n i a set_take_subset [of 2 AUGMENTS]
    by (simp add: bard_draw_def legal_draw_def list_all_iff subset_iff Ball_def)
qed

theorem synthetic_match_witness:
  "map placement (players (generate_match length 0 ''x'' (map bard_draw [3, 1, 2, 4, 5, 6, 7, 8])
      (replicate 8 (''p'', 30)) ''NA'' ''GOLD'' ''17.4'' ''ingest-1'' 1)) = [1, 2, 3, 4, 5, 6, 7, 8]
   \<and> clocks (generate_match length 0 ''x'' (map bard_draw [3, 1, 2, 4, 5, 6, 7, 8])
      (replicate 8 (''p'', 30)) ''NA'' ''GOLD'' ''17.4'' ''ingest-1'' 1) = [(''ingest-1'', 1)]"
proof -
  have "list_all legal_draw (map bard_draw [3, 1, 2, 4, 5, 6, 7, 8])" by (simp add: bard_draw_legal)
  from synthetic_match [OF _ _ this, of "replicate 8 (''p'', 30)" length 0 "''x''" "''NA''" "''GOLD''" "''17.4''" "''ingest-1''" 1,
      unfolded Let_def]
  show ?thesis by simp
qed

end
