(* ===== verification/Config.thy ===== *)
theory Config
  imports Prelude Py_Str
begin

text \<open>
  What the services take from their environment and from Python's library at start-up: the
  \<open>getenv\<close> helper that four of the services share, \<open>int\<close> and \<open>float\<close> of a string, the lists
  written as comma-separated values, and \<open>random.choices\<close> with weights, which the ingestor draws
  a patch with. The environment is a dictionary from names to values; a raised exception is the
  left of a sum.
\<close>

section \<open>The environment\<close>

type_synonym environ = "(string, string) dict"

datatype py_exc = ValueError | IndexError

definition getenv :: "environ \<Rightarrow> string \<Rightarrow> string option \<Rightarrow> string option" where
  "getenv env key dflt =
     (case map_of env key of None \<Rightarrow> dflt | Some v \<Rightarrow> if v \<noteq> [] then Some v else dflt)"

definition setting :: "environ \<Rightarrow> string \<Rightarrow> string \<Rightarrow> string" where
  "setting env key dflt = (case getenv env key (Some dflt) of None \<Rightarrow> [] | Some v \<Rightarrow> v)"

definition comma_list :: "environ \<Rightarrow> string \<Rightarrow> string list \<Rightarrow> string list" where
  "comma_list env key dflt = split_on (CHR '','') (setting env key (join_with '','' dflt))"

definition stripped_list :: "string list \<Rightarrow> string list" where
  "stripped_list ps = map strip (filter (\<lambda>p. strip p \<noteq> []) ps)"

text \<open>Statements in sequence: the first exception leaves the function.\<close>

definition try_then :: "'e + 'a \<Rightarrow> ('a \<Rightarrow> 'e + 'b) \<Rightarrow> 'e + 'b" where
  "try_then r f = (case r of Inl e \<Rightarrow> Inl e | Inr a \<Rightarrow> f a)"

lemma try_then_Inr: "try_then r f = Inr b \<longleftrightarrow> (\<exists>a. r = Inr a \<and> f a = Inr b)"
  by (simp add: try_then_def split: sum.split)

lemma try_then_Inl: "try_then r f = Inl e \<longleftrightarrow> r = Inl e \<or> (\<exists>a. r = Inr a \<and> f a = Inl e)"
  by (auto simp: try_then_def split: sum.split)

section \<open>Numbers\<close>

definition int_of_text :: "string \<Rightarrow> py_exc + int" where
  "int_of_text s = (case py_int (strip s) of None \<Rightarrow> Inl ValueError | Some n \<Rightarrow> Inr n)"

text \<open>
  \<open>float\<close> reads an optional sign and \<open>inf\<close>, \<open>infinity\<close> or \<open>nan\<close> in any case, or digits with an
  optional point and an optional exponent; an underscore may stand between two digits.
\<close>

datatype py_number = Finite py_float | Infinite bool | NaN

fun underscores_ok :: "bool \<Rightarrow> bool \<Rightarrow> string \<Rightarrow> bool" where
  "underscores_ok after_digit after_underscore [] = (\<not> after_underscore)"
| "underscores_ok after_digit after_underscore (c # s) =
     (if c = CHR ''_'' then after_digit \<and> underscores_ok False True s
      else (after_underscore \<longrightarrow> is_digit c) \<and> underscores_ok (is_digit c) False s)"

definition take_sign :: "string \<Rightarrow> bool \<times> string" where
  "take_sign s = (case s of [] \<Rightarrow> (False, [])
     | c # r \<Rightarrow> if c = CHR ''-'' then (True, r) else if c = CHR ''+'' then (False, r) else (False, s))"

definition digits_value :: "string \<Rightarrow> nat" where
  "digits_value s = fold (\<lambda>c acc. 10 * acc + (code c - 0x30)) s 0"

definition exponent :: "string \<Rightarrow> int option" where
  "exponent s =
     (case s of [] \<Rightarrow> Some 0
      | c # r \<Rightarrow>
          if c = CHR ''e'' \<or> c = CHR ''E''
          then (case take_sign r of (neg, ds) \<Rightarrow>
                  if ds \<noteq> [] \<and> list_all is_digit ds
                  then Some (if neg then - int (digits_value ds) else int (digits_value ds)) else None)
          else None)"

definition scale :: "nat \<Rightarrow> int \<Rightarrow> py_float" where
  "scale m e = (if 0 \<le> e then real m * 10 ^ nat e else real m / 10 ^ nat (- e))"

definition float_of_text :: "string \<Rightarrow> py_exc + py_number" where
  "float_of_text s =
     (let t = strip s in
      if \<not> underscores_ok False False t then Inl ValueError
      else
        case take_sign (filter (\<lambda>c. c \<noteq> CHR ''_'') t) of (neg, v) \<Rightarrow>
          if lower v = ''inf'' \<or> lower v = ''infinity'' then Inr (Infinite neg)
          else if lower v = ''nan'' then Inr NaN
          else
            let whole = takeWhile is_digit v; rest = dropWhile is_digit v;
                (frac, rest) =
                  (case rest of [] \<Rightarrow> ([], [])
                   | c # r \<Rightarrow> if c = CHR ''.'' then (takeWhile is_digit r, dropWhile is_digit r) else ([], rest))
            in if whole = [] \<and> frac = [] then Inl ValueError
               else (case exponent rest of
                       None \<Rightarrow> Inl ValueError
                     | Some e \<Rightarrow>
                         let x = scale (digits_value (whole @ frac)) (e - int (length frac))
                         in Inr (Finite (if neg then - x else x))))"

lemma float_examples:
  "float_of_text '' 2.0 '' = Inr (Finite 2)" "float_of_text ''-1_0e-1'' = Inr (Finite (- 1))"
  "float_of_text ''INF'' = Inr (Infinite False)" "float_of_text ''1__0'' = Inl ValueError"
  "float_of_text ''.'' = Inl ValueError" "float_of_text ''2s'' = Inl ValueError"
  by code_simp+

text \<open>Numbers that the environment sets in decimal are read back as written.\<close>

lemma int_of_text_show [simp]: "int_of_text (show_int n) = Inr n"
  by (simp add: int_of_text_def strip_show_int py_int_show_int)

lemma int_of_text_exc: "int_of_text s = Inl e \<Longrightarrow> e = ValueError"
  by (simp add: int_of_text_def split: option.splits)

lemma float_of_text_exc: "float_of_text s = Inl e \<Longrightarrow> e = ValueError"
  by (simp add: float_of_text_def Let_def split: prod.splits if_splits option.splits)

lemma getenv_default: "map_of env key = None \<or> map_of env key = Some [] \<Longrightarrow> getenv env key d = d"
  by (auto simp: getenv_def)

lemma getenv_set: "map_of env key = Some v \<Longrightarrow> v \<noteq> [] \<Longrightarrow> getenv env key d = Some v"
  by (simp add: getenv_def)

lemma setting_eq: "setting env key d = (case map_of env key of None \<Rightarrow> d | Some v \<Rightarrow> if v = [] then d else v)"
  by (simp add: setting_def getenv_def split: option.split)

lemma comma_list_nonempty: "comma_list env key d \<noteq> []"
  by (simp add: comma_list_def split_on_nonempty)

lemma stripped_list_nonempty: "p \<in> set (stripped_list ps) \<Longrightarrow> p \<noteq> []"
  by (auto simp: stripped_list_def)

section \<open>Weighted choice\<close>

primrec accumulate :: "int \<Rightarrow> int list \<Rightarrow> int list" where
  "accumulate acc [] = []"
| "accumulate acc (w # ws) = (acc + w) # accumulate (acc + w) ws"

function bisect_right :: "py_float list \<Rightarrow> py_float \<Rightarrow> nat \<Rightarrow> nat \<Rightarrow> nat" where
  "bisect_right a x lo hi =
     (if lo < hi
      then (let mid = (lo + hi) div 2
            in if x < a ! mid then bisect_right a x lo mid else bisect_right a x (mid + 1) hi)
      else lo)"
  by pat_completeness auto
termination by (relation "measure (\<lambda>(a, x, lo, hi). hi - lo)") auto

declare bisect_right.simps [simp del]

text \<open>\<open>u\<close> is what \<open>random()\<close> returned.\<close>

definition choices_one :: "'a list \<Rightarrow> int list \<Rightarrow> py_float \<Rightarrow> py_exc + 'a" where
  "choices_one population weights u =
     (let cum = accumulate 0 weights in
      if length cum \<noteq> length population then Inl ValueError
      else if cum = [] then Inl IndexError
      else if last cum \<le> 0 then Inl ValueError
      else Inr (population ! bisect_right (map of_int cum) (u * of_int (last cum)) 0 (length population - 1)))"

lemma length_accumulate [simp]: "length (accumulate acc ws) = length ws"
  by (induction ws arbitrary: acc) simp_all

lemma accumulate_nth: "i < length ws \<Longrightarrow> accumulate acc ws ! i = acc + sum_list (take (i + 1) ws)"
  by (induction ws arbitrary: acc i) (auto simp: nth_Cons split: nat.split)

lemma bisect_right_step:
  "bisect_right a x lo hi =
     (if lo < hi
      then if x < a ! ((lo + hi) div 2) then bisect_right a x lo ((lo + hi) div 2)
           else bisect_right a x ((lo + hi) div 2 + 1) hi
      else lo)"
  by (subst bisect_right.simps) (simp add: Let_def)

lemma bisect_right_range: "lo \<le> hi \<Longrightarrow> lo \<le> bisect_right a x lo hi \<and> bisect_right a x lo hi \<le> hi"
proof (induction a x lo hi rule: bisect_right.induct)
  case (1 a x lo hi)
  show ?case
  proof (cases "lo < hi")
    case True
    then have m: "lo \<le> (lo + hi) div 2" "(lo + hi) div 2 < hi" by simp_all
    show ?thesis using 1(1,2) [OF True refl] m by (subst (1 2) bisect_right_step) auto
  next
    case False
    then show ?thesis using 1(3) by (subst (1 2) bisect_right_step) simp
  qed
qed

text \<open>The search ends at the first position that is above \<open>x\<close>, or at \<open>hi\<close>.\<close>

lemma bisect_right_split:
  assumes "\<And>i j. i \<le> j \<Longrightarrow> j < hi \<Longrightarrow> a ! i \<le> a ! j" and "lo \<le> hi"
  shows "\<And>i. lo \<le> i \<Longrightarrow> i < bisect_right a x lo hi \<Longrightarrow> a ! i \<le> x"
    and "\<And>i. bisect_right a x lo hi \<le> i \<Longrightarrow> i < hi \<Longrightarrow> x < a ! i"
proof -
  have "(\<forall>i. lo \<le> i \<longrightarrow> i < bisect_right a x lo hi \<longrightarrow> a ! i \<le> x)
      \<and> (\<forall>i. bisect_right a x lo hi \<le> i \<longrightarrow> i < hi \<longrightarrow> x < a ! i)"
    using assms
  proof (induction a x lo hi rule: bisect_right.induct)
    case (1 a x lo hi)
    let ?mid = "(lo + hi) div 2"
    show ?case
    proof (cases "lo < hi")
      case False
      then show ?thesis using 1(4) by (subst (1 2) bisect_right_step) simp
    next
      case lt: True
      then have m: "lo \<le> ?mid" "?mid < hi" by simp_all
      show ?thesis
      proof (cases "x < a ! ?mid")
        case True
        have eq: "bisect_right a x lo hi = bisect_right a x lo ?mid" using lt True by (subst bisect_right_step) simp
        have ih: "(\<forall>i. lo \<le> i \<longrightarrow> i < bisect_right a x lo ?mid \<longrightarrow> a ! i \<le> x)
            \<and> (\<forall>i. bisect_right a x lo ?mid \<le> i \<longrightarrow> i < ?mid \<longrightarrow> x < a ! i)"
          using 1(1) [OF lt refl True] 1(3) m by simp
        have "x < a ! i" if "?mid \<le> i" "i < hi" for i using 1(3) [OF that] True by linarith
        then show ?thesis unfolding eq using ih by (metis not_le)
      next
        case False
        have eq: "bisect_right a x lo hi = bisect_right a x (?mid + 1) hi" using lt False by (subst bisect_right_step) simp
        have ih: "(\<forall>i. ?mid + 1 \<le> i \<longrightarrow> i < bisect_right a x (?mid + 1) hi \<longrightarrow> a ! i \<le> x)
            \<and> (\<forall>i. bisect_right a x (?mid + 1) hi \<le> i \<longrightarrow> i < hi \<longrightarrow> x < a ! i)"
          using 1(2) [OF lt refl False] 1(3) m by simp
        have "a ! i \<le> x" if "i \<le> ?mid" for i using 1(3) [OF that m(2)] False by linarith
        then show ?thesis unfolding eq using ih by (metis not_le Suc_eq_plus1 Suc_le_eq)
      qed
    qed
  qed
  then show "\<And>i. lo \<le> i \<Longrightarrow> i < bisect_right a x lo hi \<Longrightarrow> a ! i \<le> x"
    "\<And>i. bisect_right a x lo hi \<le> i \<Longrightarrow> i < hi \<Longrightarrow> x < a ! i" by blast+
qed

end
