(* ===== verification/Ingestion.thy ===== *)
theory Ingestion
  imports Synthetic Reorder Metrics Config
begin

text \<open>
  The ingestion service: the token bucket of \<open>ingestion/rate_limiter.py\<close>, the Riot client of
  \<open>ingestion/riot_client.py\<close> and the ingestor of \<open>ingestion/main.py\<close>.

  HTTP is a parameter: \<open>fetch url n\<close> is Riot's answer to \<open>url\<close> when \<open>n\<close> requests were made before.
  The decoded JSON is a record whose fields may be absent. The broker is a parameter that says
  which publish calls succeed. The workers of the event loop interleave at every \<open>await\<close>; the
  relation \<open>ingest_step\<close> has one step for each stretch between two of them that changes the
  shared state. Waiting, printing and opening the HTTP session are left out.
\<close>

section \<open>Rate limiter\<close>

record limiter =
  tokens :: int
  lim_rate :: int

definition new_limiter :: "int \<Rightarrow> limiter" where
  "new_limiter r = \<lparr>tokens = r, lim_rate = r\<rparr>"

text \<open>One turn of the loop of \<open>acquire\<close>: whether it returned. One turn of \<open>_refill_loop\<close>.\<close>

definition try_acquire :: "limiter \<Rightarrow> bool \<times> limiter" where
  "try_acquire l = (if tokens l > 0 then (True, l\<lparr>tokens := tokens l - 1\<rparr>) else (False, l))"

definition refill :: "limiter \<Rightarrow> limiter" where
  "refill l = l\<lparr>tokens := lim_rate l\<rparr>"

section \<open>Riot client\<close>

definition TIER_ENDPOINTS :: "(string, string) dict" where
  "TIER_ENDPOINTS = [
    (''CHALLENGER'', ''/tft/league/v1/challenger''), (''GRANDMASTER'', ''/tft/league/v1/grandmaster''),
    (''MASTER'', ''/tft/league/v1/master''), (''DIAMOND'', ''/tft/league/v1/entries/DIAMOND/I''),
    (''PLATINUM'', ''/tft/league/v1/entries/PLATINUM/I''), (''GOLD'', ''/tft/league/v1/entries/GOLD/I''),
    (''SILVER'', ''/tft/league/v1/entries/SILVER/I''), (''BRONZE'', ''/tft/league/v1/entries/BRONZE/I''),
    (''IRON'', ''/tft/league/v1/entries/IRON/I'')]"

text \<open>
  Answers: a 429 whose \<open>Retry-After\<close> header can be read as an integer or not, another status, a
  body, or a failure of the connection or of the decoding. An empty match object,
  which the code treats like no answer, counts as a status. The kinds of exception a task may
  end with: one of the client, a failed publish, one of Python itself.
\<close>

datatype 'j reply = TooMany bool | Status int | Json 'j | Broken

datatype ingest_exc = ClientError | PublishError | PyError py_exc

text \<open>\<open>_get\<close>, one token per request; it asks again as long as Riot answers 429.\<close>

partial_function (option) client_get ::
    "(nat \<Rightarrow> 'j reply) \<Rightarrow> nat \<Rightarrow> ((ingest_exc + 'j option) \<times> nat) option" where
  "client_get fetch n =
     (case fetch n of
        TooMany readable \<Rightarrow> if readable then client_get fetch (n + 1) else Some (Inl ClientError, n + 1)
      | Status s \<Rightarrow> Some (Inr None, n + 1)
      | Json j \<Rightarrow> Some (Inr (Some j), n + 1)
      | Broken \<Rightarrow> Some (Inl ClientError, n + 1))"

declare client_get.simps [code]

record api_unit =
  au_character_id :: "string option"
  au_tier :: "int option"
  au_itemNames :: "string list option"
  au_items :: "string list option"

record api_player =
  ap_puuid :: "string option"
  ap_placement :: "int option"
  ap_units :: "api_unit list option"
  ap_augments :: "string list option"
  ap_last_round :: "int option"

record api_info =
  ai_game_version :: "string option"
  ai_participants :: "api_player list option"
  ai_game_datetime :: "int option"

record api_payload =
  am_match_id :: "string option"
  am_info :: "api_info option" \<comment> \<open>\<open>None\<close>: absent or empty\<close>

definition opt :: "'a \<Rightarrow> 'a option \<Rightarrow> 'a" where
  "opt d x = (case x of None \<Rightarrow> d | Some v \<Rightarrow> v)"

definition patch_of :: "string \<Rightarrow> string" where
  "patch_of gv =
     (case find (\<lambda>tok. length (split_on (CHR ''.'') tok) \<ge> 2 \<and> isdigit (split_on (CHR ''.'') tok ! 0))
        (split_ws (replace_sub ''Version'' [] gv)) of
        None \<Rightarrow> DEFAULT_PATCH
      | Some tok \<Rightarrow> split_on (CHR ''.'') tok ! 0 @ ''.'' @ split_on (CHR ''.'') tok ! 1)"

definition unit_of :: "api_unit \<Rightarrow> pb_unit" where
  "unit_of u = \<lparr>character_id = opt [] (au_character_id u), unit_tier = opt 1 (au_tier u),
     items = opt (opt [] (au_items u)) (au_itemNames u)\<rparr>"

definition result_of :: "api_player \<Rightarrow> player_result" where
  "result_of p = \<lparr>puuid = opt [] (ap_puuid p), placement = opt 8 (ap_placement p),
     units = map unit_of (opt [] (ap_units p)), augments = opt [] (ap_augments p),
     rounds_played = opt 0 (ap_last_round p)\<rparr>"

definition normalize :: "int \<Rightarrow> api_payload \<Rightarrow> string \<Rightarrow> string \<Rightarrow> string \<Rightarrow> int \<Rightarrow> match_event option" where
  "normalize now_ms raw rgn tr node_id seq =
     (case am_info raw of
        None \<Rightarrow> None
      | Some info \<Rightarrow>
          (let pls = map result_of (opt [] (ai_participants info)) in
           if pls = [] then None
           else Some \<lparr>match_id = opt [] (am_match_id raw), region = rgn,
                  patch = patch_of (opt [] (ai_game_version info)), tier = tr, players = pls,
                  clocks = [(node_id, seq)], timestamp = opt now_ms (ai_game_datetime info)\<rparr>))"

section \<open>Ingestor\<close>

record ingestor =
  ig_seq :: int \<comment> \<open>\<open>SeqCounter\<close>\<close>
  ig_requests :: nat
  ig_attempts :: nat \<comment> \<open>calls of the broker's publish\<close>
  ig_published :: "match_event list" \<comment> \<open>what the broker accepted, in order\<close>
  ig_announced :: "string list" \<comment> \<open>the patches on the topic \<open>patch_events\<close>\<close>
  ig_metrics :: metrics

definition new_ingestor :: ingestor where
  "new_ingestor = \<lparr>ig_seq = 0, ig_requests = 0, ig_attempts = 0, ig_published = [], ig_announced = [],
     ig_metrics = new_metrics ''ingestion''\<rparr>"

text \<open>
  A computation on the ingestor that may raise and, when Riot answers 429 for ever, may never
  return (\<open>None\<close>).
\<close>

type_synonym 'a run = "ingestor \<Rightarrow> ((ingest_exc + 'a) \<times> ingestor) option"

definition ret :: "'a \<Rightarrow> 'a run" where
  "ret x s = Some (Inr x, s)"

definition and_then :: "'a run \<Rightarrow> ('a \<Rightarrow> 'b run) \<Rightarrow> 'b run" where
  "and_then m f s =
     (case m s of
        None \<Rightarrow> None
      | Some (Inl e, s') \<Rightarrow> Some (Inl e, s')
      | Some (Inr a, s') \<Rightarrow> f a s')"

primrec for_each :: "'a list \<Rightarrow> ('a \<Rightarrow> unit run) \<Rightarrow> unit run" where
  "for_each [] f = ret ()"
| "for_each (x # xs) f = and_then (f x) (\<lambda>_. for_each xs f)"

definition next_seq :: "int run" where
  "next_seq s = Some (Inr (ig_seq s + 1), s\<lparr>ig_seq := ig_seq s + 1\<rparr>)"

definition get :: "(nat \<Rightarrow> 'j reply) \<Rightarrow> 'j option run" where
  "get fetch s = map_option (\<lambda>(r, n). (r, s\<lparr>ig_requests := n\<rparr>)) (client_get fetch (ig_requests s))"

definition lookup_key :: "(string, string) dict \<Rightarrow> string \<Rightarrow> string run" where
  "lookup_key d k s = Some (case map_of d k of None \<Rightarrow> Inl ClientError | Some v \<Rightarrow> Inr v, s)"

definition accepted :: "match_event \<Rightarrow> ingestor \<Rightarrow> ingestor" where
  "accepted e s = s\<lparr>ig_attempts := ig_attempts s + 1, ig_published := ig_published s @ [e],
     ig_metrics := inc (''matches_published_'' @ tier e) 1 (inc ''matches_published_total'' 1 (ig_metrics s))\<rparr>"

definition refused :: "ingestor \<Rightarrow> ingestor" where
  "refused s = s\<lparr>ig_attempts := ig_attempts s + 1\<rparr>"

definition publish_match :: "(nat \<Rightarrow> bool) \<Rightarrow> match_event \<Rightarrow> unit run" where
  "publish_match broker e s =
     (if broker (ig_attempts s) then Some (Inr (), accepted e s) else Some (Inl PublishError, refused s))"

text \<open>
  \<open>_pick_patch\<close> with the weights 1, 2, 4, ... of \<open>__init__\<close>, for the number \<open>u\<close> that the random
  generator returned.
\<close>

definition patch_weights :: "string list \<Rightarrow> int list" where
  "patch_weights patches = map (\<lambda>i. 2 ^ i) [0..<length patches]"

definition pick_patch :: "string list \<Rightarrow> int list \<Rightarrow> py_float \<Rightarrow> string run" where
  "pick_patch patches weights u s =
     Some (case choices_one patches weights u of Inl e \<Rightarrow> Inl (PyError e) | Inr p \<Rightarrow> Inr p, s)"

text \<open>
  What one synthetic match draws: the number for its patch, clock, match uid, players and seats.
  \<open>draw seq\<close> is what is drawn for the match with the sequence number \<open>seq\<close>.
\<close>

type_synonym match_draw = "py_float \<times> int \<times> string \<times> player_draw list \<times> (string \<times> int) list"

definition process_synthetic ::
    "(string \<Rightarrow> nat) \<Rightarrow> (nat \<Rightarrow> bool) \<Rightarrow> string list \<Rightarrow> int list \<Rightarrow> string \<Rightarrow> int \<Rightarrow> (int \<Rightarrow> match_draw) \<Rightarrow>
     string \<Rightarrow> string \<Rightarrow> unit run" where
  "process_synthetic md5_prefix broker patches weights node_id matches_per_task draw rgn tr =
     for_each [0..<nat matches_per_task] (\<lambda>_.
       and_then next_seq (\<lambda>seq.
         case draw seq of (u, now_ms, uid, ds, seats) \<Rightarrow>
           and_then (pick_patch patches weights u) (\<lambda>pt.
             publish_match broker (generate_match md5_prefix now_ms uid ds seats rgn tr pt node_id seq))))"

datatype league_body =
    EntriesOf "string option list" \<comment> \<open>an object with \<open>entries\<close>: their \<open>puuid\<close> fields\<close>
  | EntryList "string option list"
  | NoEntries \<comment> \<open>a non-empty object without \<open>entries\<close>, which cannot be sliced\<close>

record client_api =
  cl_league :: "string \<Rightarrow> nat \<Rightarrow> league_body reply"
  cl_ids :: "string \<Rightarrow> nat \<Rightarrow> string list reply"
  cl_match :: "string \<Rightarrow> nat \<Rightarrow> api_payload reply"

definition url :: "string \<Rightarrow> string \<Rightarrow> string" where
  "url host path = ''https://'' @ host @ ''.api.riotgames.com'' @ path"

definition puuids_of :: "string option list \<Rightarrow> nat \<Rightarrow> string list" where
  "puuids_of es limit = List.map_filter (\<lambda>e. case e of None \<Rightarrow> None | Some p \<Rightarrow> if p = [] then None else Some p) (take limit es)"

definition puuids_for_tier :: "client_api \<Rightarrow> string \<Rightarrow> string \<Rightarrow> nat \<Rightarrow> string list run" where
  "puuids_for_tier api rgn tr limit =
     and_then (lookup_key REGION_PLATFORM rgn) (\<lambda>platform.
     and_then (lookup_key TIER_ENDPOINTS tr) (\<lambda>path.
     and_then (get (cl_league api (url platform path))) (\<lambda>body s.
       Some (case body of
           None \<Rightarrow> Inr []
         | Some (EntriesOf es) \<Rightarrow> Inr (puuids_of es limit)
         | Some (EntryList es) \<Rightarrow> Inr (puuids_of es limit)
         | Some NoEntries \<Rightarrow> Inl ClientError, s))))"

definition client_match_ids :: "client_api \<Rightarrow> string \<Rightarrow> string \<Rightarrow> int \<Rightarrow> string list run" where
  "client_match_ids api rgn pid cnt =
     and_then (lookup_key REGION_CLUSTER rgn) (\<lambda>cluster.
     and_then (get (cl_ids api (url cluster (''/tft/match/v1/matches/by-puuid/'' @ pid @ ''/ids?count='' @ show_int cnt))))
       (\<lambda>ids. ret (opt [] ids)))"

definition client_match :: "client_api \<Rightarrow> string \<Rightarrow> string \<Rightarrow> api_payload option run" where
  "client_match api rgn mid =
     and_then (lookup_key REGION_CLUSTER rgn) (\<lambda>cluster.
       get (cl_match api (url cluster (''/tft/match/v1/matches/'' @ mid))))"

definition ingest_match ::
    "client_api \<Rightarrow> (nat \<Rightarrow> bool) \<Rightarrow> string \<Rightarrow> (string \<Rightarrow> int) \<Rightarrow> string \<Rightarrow> string \<Rightarrow> string \<Rightarrow> unit run" where
  "ingest_match api broker node_id now_of rgn tr mid =
     and_then (client_match api rgn mid) (\<lambda>raw.
       case raw of
         None \<Rightarrow> ret ()
       | Some r \<Rightarrow>
           and_then next_seq (\<lambda>seq.
             case normalize (now_of mid) r rgn tr node_id seq of
               None \<Rightarrow> ret ()
             | Some e \<Rightarrow> publish_match broker e))"

definition process_real ::
    "client_api \<Rightarrow> (nat \<Rightarrow> bool) \<Rightarrow> string \<Rightarrow> (string \<Rightarrow> int) \<Rightarrow> string \<Rightarrow> string \<Rightarrow> unit run" where
  "process_real api broker node_id now_of rgn tr =
     and_then (puuids_for_tier api rgn tr 10) (\<lambda>pids.
       for_each pids (\<lambda>pid.
         and_then (client_match_ids api rgn pid 20) (\<lambda>mids.
           for_each (take 5 mids) (ingest_match api broker node_id now_of rgn tr))))"

text \<open>A worker's turn on one task: an exception is counted and swallowed.\<close>

definition worker_turn :: "unit run \<Rightarrow> unit run" where
  "worker_turn task s =
     (case task s of
        None \<Rightarrow> None
      | Some (Inr u, s') \<Rightarrow> Some (Inr u, s')
      | Some (Inl e, s') \<Rightarrow> Some (Inr (), s'\<lparr>ig_metrics := inc ''errors_total'' 1 (ig_metrics s')\<rparr>))"


section \<open>Task queue\<close>

text \<open>\<open>asyncio.PriorityQueue\<close> keeps a \<open>heapq\<close>; its entries are compared as tuples.\<close>

type_synonym task = "int \<times> string \<times> string"

definition round_tasks :: "string list \<Rightarrow> string list \<Rightarrow> task list" where
  "round_tasks regions tiers = concat (map (\<lambda>rgn. map (\<lambda>tr. (dict_get TIER_RANK tr 99, rgn, tr)) tiers) regions)"

definition put_all :: "task list \<Rightarrow> task list \<Rightarrow> task list" where
  "put_all ts q = fold (heappush id) ts q"

text \<open>The order in which the workers take the tasks of a round.\<close>

primrec take_all :: "nat \<Rightarrow> task list \<Rightarrow> task list" where
  "take_all 0 q = []"
| "take_all (Suc n) q = (case heappop id q of None \<Rightarrow> [] | Some (t, q') \<Rightarrow> t # take_all n q')"

section \<open>Interleaving\<close>

text \<open>
  The shared state under interleaved workers: the ingestor, the stamped matches whose publish
  call is under way in an executor thread, and the number of sequence numbers that will never be
  published. \<open>env\<close> collects what the steps read: the node's name and the hash.
\<close>

type_synonym ingest_state = "ingestor \<times> match_event list \<times> nat"

inductive ingest_step :: "(string \<Rightarrow> nat) \<Rightarrow> string \<Rightarrow> ingest_state \<Rightarrow> ingest_state \<Rightarrow> bool"
  for md5_prefix node where
  synthetic: "e = generate_match md5_prefix now_ms uid ds seats rgn tr pt node (ig_seq s + 1) \<Longrightarrow>
     ingest_step md5_prefix node (s, fl, k) (s\<lparr>ig_seq := ig_seq s + 1\<rparr>, e # fl, k)"
| real: "normalize now_ms raw rgn tr node (ig_seq s + 1) = Some e \<Longrightarrow>
     ingest_step md5_prefix node (s, fl, k) (s\<lparr>ig_seq := ig_seq s + 1\<rparr>, e # fl, k)"
| unusable: "normalize now_ms raw rgn tr node (ig_seq s + 1) = None \<Longrightarrow>
     ingest_step md5_prefix node (s, fl, k) (s\<lparr>ig_seq := ig_seq s + 1\<rparr>, fl, k + 1)"
| unpicked: "choices_one (patches :: string list) weights u = Inl ex \<Longrightarrow>
     ingest_step md5_prefix node (s, fl, k) (s\<lparr>ig_seq := ig_seq s + 1\<rparr>, fl, k + 1)"
| announced: "ingest_step md5_prefix node (s, fl, k) (s\<lparr>ig_attempts := a, ig_announced := pts\<rparr>, fl, k)"
| request: "ingest_step md5_prefix node (s, fl, k) (s\<lparr>ig_requests := n\<rparr>, fl, k)"
| sent: "e \<in> set fl \<Longrightarrow> ingest_step md5_prefix node (s, fl, k) (accepted e s, remove1 e fl, k)"
| failed: "e \<in> set fl \<Longrightarrow> ingest_step md5_prefix node (s, fl, k) (refused s, remove1 e fl, k + 1)"
| error: "ingest_step md5_prefix node (s, fl, k)
     (s\<lparr>ig_metrics := inc ''errors_total'' 1 (ig_metrics s)\<rparr>, fl, k)"

abbreviation ingest_steps :: "(string \<Rightarrow> nat) \<Rightarrow> string \<Rightarrow> ingest_state \<Rightarrow> ingest_state \<Rightarrow> bool" where
  "ingest_steps md5_prefix node \<equiv> (ingest_step md5_prefix node)\<^sup>*\<^sup>*"

lemma stamped_clock:
  "clocks (generate_match h now uid ds seats rgn tr pt node seq) = [(node, seq)]"
  "normalize now raw rgn tr node seq = Some e \<Longrightarrow> clocks e = [(node, seq)]"
  by (auto simp: generate_match_def normalize_def Let_def split: option.splits if_splits)

definition ingest_inv :: "string \<Rightarrow> ingest_state \<Rightarrow> bool" where
  "ingest_inv node st \<longleftrightarrow>
     (case st of (s, fl, k) \<Rightarrow>
        (\<forall>e\<in>set (fl @ ig_published s). \<exists>i. clocks e = [(node, i)] \<and> 1 \<le> i \<and> i \<le> ig_seq s)
      \<and> distinct (map clocks (fl @ ig_published s))
      \<and> int (length fl + length (ig_published s) + k) = ig_seq s)"

lemma accepted_simps [simp]:
  "ig_seq (accepted e s) = ig_seq s" "ig_published (accepted e s) = ig_published s @ [e]"
  "ig_seq (refused s) = ig_seq s" "ig_published (refused s) = ig_published s"
  by (simp_all add: accepted_def refused_def)

lemma ingest_inv_stamp:
  assumes inv: "ingest_inv node (s, fl, k)" and e: "clocks e = [(node, ig_seq s + 1)]"
  shows "ingest_inv node (s\<lparr>ig_seq := ig_seq s + 1\<rparr>, e # fl, k)"
proof -
  let ?all = "fl @ ig_published s"
  have all: "\<forall>e'\<in>set ?all. \<exists>i. clocks e' = [(node, i)] \<and> 1 \<le> i \<and> i \<le> ig_seq s"
    and d: "distinct (map clocks ?all)" and n: "int (length fl + length (ig_published s) + k) = ig_seq s"
    using inv unfolding ingest_inv_def prod.case by blast+
  have "clocks e' \<noteq> clocks e" if "e' \<in> set ?all" for e'
    using bspec [OF all that] e by auto
  then have "clocks e \<notin> set (map clocks ?all)" by (metis imageE set_map)
  moreover have "\<exists>i. clocks e' = [(node, i)] \<and> 1 \<le> i \<and> i \<le> ig_seq s + 1" if "e' \<in> set (e # ?all)" for e'
  proof (cases "e' = e")
    case True
    then show ?thesis using e n by auto
  next
    case False
    then show ?thesis using bspec [OF all, of e'] that by auto
  qed
  ultimately show ?thesis using d n by (simp add: ingest_inv_def)
qed

lemma ingest_inv_unusable: "ingest_inv node (s, fl, k) \<Longrightarrow> ingest_inv node (s\<lparr>ig_seq := ig_seq s + 1\<rparr>, fl, k + 1)"
  by (auto simp: ingest_inv_def dest!: bspec)

lemma ingest_inv_frame:
  "ig_seq s' = ig_seq s \<Longrightarrow> ig_published s' = ig_published s \<Longrightarrow> ingest_inv node (s, fl, k) \<Longrightarrow> ingest_inv node (s', fl, k)"
  by (simp add: ingest_inv_def)

lemma length_remove1_Suc: "e \<in> set fl \<Longrightarrow> length fl = Suc (length (remove1 e fl))"
  by (induction fl) auto

lemma ingest_inv_sent:
  assumes "ingest_inv node (s, fl, k)" "e \<in> set fl"
  shows "ingest_inv node (accepted e s, remove1 e fl, k)"
proof -
  have m: "mset (remove1 e fl @ ig_published s @ [e]) = mset (fl @ ig_published s)" using assms(2) by simp
  then have "set (remove1 e fl @ ig_published s @ [e]) = set (fl @ ig_published s)" by (rule mset_eq_setD)
  with assms distinct_map_mset_eq [OF m, of clocks] length_remove1_Suc [OF assms(2)]
  show ?thesis by (simp only: ingest_inv_def prod.case accepted_simps) simp
qed

lemma ingest_inv_failed:
  assumes "ingest_inv node (s, fl, k)" "e \<in> set fl"
  shows "ingest_inv node (refused s, remove1 e fl, k + 1)"
proof -
  have m: "mset (remove1 e fl @ ig_published s @ [e]) = mset (fl @ ig_published s)" using assms(2) by simp
  have d: "distinct (map clocks (remove1 e fl @ ig_published s))"
    using distinct_map_mset_eq [OF m, of clocks] assms(1) by (simp add: ingest_inv_def)
  from set_remove1_subset [of e fl] assms(1) d length_remove1_Suc [OF assms(2)]
  show ?thesis by (simp only: ingest_inv_def prod.case accepted_simps) (simp add: subset_iff Ball_def)
qed

lemma ingest_step_inv: "ingest_step h node st st' \<Longrightarrow> ingest_inv node st \<Longrightarrow> ingest_inv node st'"
  by (induction rule: ingest_step.induct)
     (simp_all only: ingest_inv_stamp stamped_clock ingest_inv_unusable ingest_inv_sent ingest_inv_failed,
      (erule ingest_inv_frame [rotated 2]; simp)+)

lemma ingest_inv_new: "ingest_inv node (new_ingestor, [], 0)"
  by (simp add: ingest_inv_def new_ingestor_def)

lemma ingest_reachable_inv: "ingest_steps h node (new_ingestor, [], 0) st \<Longrightarrow> ingest_inv node st"
  by (induction rule: rtranclp_induct) (auto intro: ingest_inv_new ingest_step_inv)


section \<open>The sequential code is a run of the relation\<close>

text \<open>A computation that, whatever is in flight, only takes steps and leaves nothing more in flight.\<close>

definition stepwise :: "(string \<Rightarrow> nat) \<Rightarrow> string \<Rightarrow> 'a run \<Rightarrow> bool" where
  "stepwise h node m \<longleftrightarrow>
     (\<forall>s r s' fl k. m s = Some (r, s') \<longrightarrow> (\<exists>k'. ingest_steps h node (s, fl, k) (s', fl, k')))"

lemma stepwise_ret: "stepwise h node (ret x)"
  by (auto simp: stepwise_def ret_def)

lemma stepwise_pure: "(\<And>s. \<exists>r. m s = Some (r, s)) \<Longrightarrow> stepwise h node m"
  unfolding stepwise_def by (metis option.inject prod.inject rtranclp.rtrancl_refl)

lemma stepwise_and_then:
  assumes "stepwise h node m" "\<And>a. stepwise h node (f a)"
  shows "stepwise h node (and_then m f)"
  unfolding stepwise_def
proof (intro allI impI)
  fix s r s'' fl k
  assume run: "and_then m f s = Some (r, s'')"
  then obtain q s' where m: "m s = Some (q, s')" by (auto simp: and_then_def split: option.splits)
  then obtain k' where one: "ingest_steps h node (s, fl, k) (s', fl, k')" using assms(1) unfolding stepwise_def by blast
  show "\<exists>k'. ingest_steps h node (s, fl, k) (s'', fl, k')"
  proof (cases q)
    case (Inl e)
    with run m one show ?thesis by (auto simp: and_then_def)
  next
    case (Inr a)
    with run m have "f a s' = Some (r, s'')" by (simp add: and_then_def)
    then obtain k'' where "ingest_steps h node (s', fl, k') (s'', fl, k'')" using assms(2) unfolding stepwise_def by blast
    with one show ?thesis by (meson rtranclp_trans)
  qed
qed

lemma stepwise_for_each: "(\<And>x. stepwise h node (f x)) \<Longrightarrow> stepwise h node (for_each xs f)"
  by (induction xs) (simp_all add: stepwise_ret stepwise_and_then)

lemma stepwise_get: "stepwise h node (get fetch)"
  unfolding stepwise_def get_def by (auto intro!: exI r_into_rtranclp ingest_step.request)

lemma stepwise_lookup: "stepwise h node (lookup_key d x)"
  by (rule stepwise_pure) (simp add: lookup_key_def)

lemma publish_steps:
  assumes "publish_match broker e s = Some (r, s')"
  shows "\<exists>k'. ingest_steps h node (s, e # fl, k) (s', fl, k')"
proof (cases "broker (ig_attempts s)")
  case True
  with assms ingest_step.sent [of e "e # fl" h node s k] show ?thesis by (auto simp: publish_match_def)
next
  case False
  with assms ingest_step.failed [of e "e # fl" h node s k] show ?thesis by (auto simp: publish_match_def)
qed

lemma stepwise_synthetic: "stepwise h node (process_synthetic h broker patches weights node n draw rgn tr)"
  unfolding process_synthetic_def
proof (rule stepwise_for_each, unfold stepwise_def, intro allI impI)
  fix s :: ingestor and r s' fl k
  obtain u now uid ds seats where x: "draw (ig_seq s + 1) = (u, now, uid, ds, seats)" by (cases "draw (ig_seq s + 1)")
  let ?e = "\<lambda>pt. generate_match h now uid ds seats rgn tr pt node (ig_seq s + 1)"
  assume run: "and_then next_seq (\<lambda>seq. case draw seq of (u, now_ms, uid, ds, seats) \<Rightarrow>
      and_then (pick_patch patches weights u) (\<lambda>pt.
        publish_match broker (generate_match h now_ms uid ds seats rgn tr pt node seq))) s = Some (r, s')"
  show "\<exists>k'. ingest_steps h node (s, fl, k) (s', fl, k')"
  proof (cases "choices_one patches weights u")
    case (Inl ex)
    with run ingest_step.unpicked [OF Inl, of h node s fl k] show ?thesis
      by (auto simp: and_then_def next_seq_def pick_patch_def x)
  next
    case (Inr pt)
    with run have "publish_match broker (?e pt) (s\<lparr>ig_seq := ig_seq s + 1\<rparr>) = Some (r, s')"
      by (simp add: and_then_def next_seq_def pick_patch_def x)
    from publish_steps [OF this, of h node fl k] ingest_step.synthetic [OF refl, of h node s fl k now uid ds seats rgn tr pt]
    show ?thesis by (meson converse_rtranclp_into_rtranclp)
  qed
qed

lemma stepwise_ingest_match: "stepwise h node (ingest_match api broker node now_of rgn tr mid)"
proof -
  have "stepwise h node (and_then next_seq (\<lambda>seq.
      case normalize t raw rgn tr node seq of None \<Rightarrow> ret () | Some e \<Rightarrow> publish_match broker e))" for t raw
    unfolding stepwise_def
  proof (intro allI impI)
    fix s r s' fl k
    assume run: "and_then next_seq (\<lambda>seq. case normalize t raw rgn tr node seq of
        None \<Rightarrow> ret () | Some e \<Rightarrow> publish_match broker e) s = Some (r, s')"
    show "\<exists>k'. ingest_steps h node (s, fl, k) (s', fl, k')"
    proof (cases "normalize t raw rgn tr node (ig_seq s + 1)")
      case None
      with run ingest_step.unusable [OF None, of h fl k] show ?thesis
        by (auto simp: and_then_def next_seq_def ret_def)
    next
      case (Some e)
      with run have "publish_match broker e (s\<lparr>ig_seq := ig_seq s + 1\<rparr>) = Some (r, s')"
        by (simp add: and_then_def next_seq_def)
      from publish_steps [OF this, of h node fl k] ingest_step.real [OF Some, of h fl k] show ?thesis
        by (meson converse_rtranclp_into_rtranclp)
    qed
  qed
  then show ?thesis
    unfolding ingest_match_def client_match_def
    by (intro stepwise_and_then stepwise_lookup stepwise_get) (simp add: stepwise_ret split: option.split)
qed

lemma stepwise_real: "stepwise h node (process_real api broker node now_of rgn tr)"
  unfolding process_real_def puuids_for_tier_def client_match_ids_def
  by (intro stepwise_and_then stepwise_for_each stepwise_lookup stepwise_get stepwise_ingest_match stepwise_ret stepwise_pure)
     (simp split: option.split league_body.split)

lemma stepwise_worker:
  assumes "stepwise h node m"
  shows "stepwise h node (worker_turn m)"
  unfolding stepwise_def
proof (intro allI impI)
  fix s r s'' fl k
  assume run: "worker_turn m s = Some (r, s'')"
  then obtain q s' where m: "m s = Some (q, s')" by (auto simp: worker_turn_def split: option.splits)
  then obtain k' where one: "ingest_steps h node (s, fl, k) (s', fl, k')" using assms unfolding stepwise_def by blast
  show "\<exists>k'. ingest_steps h node (s, fl, k) (s'', fl, k')"
  proof (cases q)
    case (Inl e)
    with run m have "s'' = s'\<lparr>ig_metrics := inc ''errors_total'' 1 (ig_metrics s')\<rparr>" by (simp add: worker_turn_def)
    with one ingest_step.error [of h node s' fl k'] show ?thesis by (meson rtranclp.rtrancl_into_rtrancl)
  next
    case (Inr u)
    with run m one show ?thesis by (auto simp: worker_turn_def)
  qed
qed


section \<open>From the ingestor through the reorder buffer\<close>

definition push_all :: "(py_float \<times> match_event) list \<Rightarrow> reorder_buffer \<Rightarrow> reorder_buffer" where
  "push_all arr rb = fold (\<lambda>(t, e). push t e) arr rb"

lemma push_all_frame [simp]:
  "rb_delivered (push_all arr rb) = rb_delivered rb" "rb_timeout (push_all arr rb) = rb_timeout rb"
  "rb_forced (push_all arr rb) = rb_forced rb"
  by (induction arr arbitrary: rb) (auto simp: push_all_def push_def)

lemma push_all_heap:
  "image_mset (\<lambda>it. (item_arrival it, item_event it)) (mset (rb_heap (push_all arr rb)))
     = mset arr + image_mset (\<lambda>it. (item_arrival it, item_event it)) (mset (rb_heap rb))"
  by (induction arr arbitrary: rb) (auto simp: push_all_def push_def)

text \<open>The heap of a new buffer after a sequence of arrivals.\<close>

lemma arrivals_heap:
  assumes "rb = push_all arr (new_reorder_buffer timeout)"
  shows "mset (map item_event (rb_heap rb)) = mset (map snd arr)"
    and "(\<lambda>it. (item_arrival it, item_event it)) ` set (rb_heap rb) = set arr"
proof -
  have m: "image_mset (\<lambda>it. (item_arrival it, item_event it)) (mset (rb_heap rb)) = mset arr"
    using push_all_heap [of arr "new_reorder_buffer timeout"] by (simp add: assms new_reorder_buffer_def)
  from arg_cong [OF m, of "image_mset snd"] show "mset (map item_event (rb_heap rb)) = mset (map snd arr)"
    by (simp add: image_mset.compositionality comp_def)
  from arg_cong [OF m, of set_mset] show "(\<lambda>it. (item_arrival it, item_event it)) ` set (rb_heap rb) = set arr" by simp
qed

lemma pop_single_node:
  assumes pop: "pop_ready now rb = (out, rb')" and z: "rb_delivered rb = (\<lambda>_. 0)"
    and young: "\<forall>it\<in>set (rb_heap rb). now - item_arrival it < rb_timeout rb"
    and seqs: "\<forall>e\<in>set (map item_event (rb_heap rb)). \<exists>i. clocks e = [(node, i)] \<and> 1 \<le> i"
    and dist: "distinct (map clocks (map item_event (rb_heap rb)))"
  shows "\<exists>d. 0 \<le> d \<and> map vc_sum out = [1 .. d] \<and> mset out \<subseteq># mset (map item_event (rb_heap rb))
    \<and> (\<forall>e\<in>set (map item_event (rb_heap rb)). vc_sum e \<noteq> d + 1) \<and> rb_forced rb' = rb_forced rb"
proof -
  obtain out' keep forced where
    loop: "scan_loop now (rb_timeout rb) (rb_heap rb) (rb_delivered rb) = (rb_delivered rb', out', keep, forced)"
    and r: "out = sort_key vc_sum out'" "rb_forced rb' = rb_forced rb + forced"
    using pop_ready_heap [OF pop] by metis
  have fresh: "fresh_stream (rb_delivered rb) (map item_event (rb_heap rb))"
    unfolding fresh_stream_iff z using seqs dist by fastforce
  note c = scan_loop_contiguous [OF loop fresh young, of node, unfolded z]
  note m = scan_loop_conserve [OF loop]
  have all: "set (map item_event (rb_heap rb)) = set out' \<union> set (map item_event keep)"
    using arg_cong [OF m, of set_mset] by simp
  let ?d = "rb_delivered rb' node"
  have "from_node node e" if "e \<in> set out'" for e
    using seqs that single_from_node unfolding all by blast
  then have "filter (from_node node) out' = out'" by simp
  with c have v: "map vc_sum out' = [1 .. ?d]" and f: "forced = 0" "0 \<le> ?d" by simp_all
  have out: "out = out'" by (simp add: r sort_key_id_if_sorted v)
  have "vc_sum e \<noteq> ?d + 1" if e: "e \<in> set (map item_event (rb_heap rb))" for e
  proof
    assume v1: "vc_sum e = ?d + 1"
    obtain i where i: "clocks e = [(node, i)]" using seqs e by blast
    show False
    proof (cases "e \<in> set out'")
      case True
      then have "vc_sum e \<in> set [1 .. ?d]" unfolding v [symmetric] by simp
      with v1 show False by simp
    next
      case False
      then obtain it where "it \<in> set keep" "item_event it = e" using e all by auto
      then have "\<not> is_ready (rb_delivered rb') e" using scan_loop_settled [OF loop] by blast
      with i v1 show False by (simp add: single_simps)
    qed
  qed
  moreover have "mset out \<subseteq># mset (map item_event (rb_heap rb))" unfolding out m [symmetric] by simp
  ultimately show ?thesis using v f out r(2) by auto
qed

lemma seqs_complete:
  assumes "\<forall>e\<in>set es. \<exists>i. clocks e = [(node, i)] \<and> 1 \<le> i \<and> i \<le> n"
    and "distinct (map clocks es)" "int (length es) = n"
  shows "vc_sum ` set es = {1..n}"
proof (rule card_subset_eq)
  show "vc_sum ` set es \<subseteq> {1..n}" using assms(1) by (auto simp: single_vc_sum dest!: bspec)
  have "inj_on vc_sum (set es)"
  proof (rule inj_onI)
    fix x y
    assume xy: "x \<in> set es" "y \<in> set es" "vc_sum x = vc_sum y"
    obtain i j where "clocks x = [(node, i)]" "clocks y = [(node, j)]" using assms(1) xy by blast
    with xy have "clocks x = clocks y" by (simp add: single_vc_sum)
    moreover have "inj_on clocks (set es)" using assms(2) by (simp add: distinct_map)
    ultimately show "x = y" using xy by (blast dest: inj_onD)
  qed
  then show "card (vc_sum ` set es) = card {1..n}"
    using assms(2,3) by (simp add: card_image distinct_card distinct_map)
qed simp



text \<open>
  C5. From ingestion through the reorder buffer. However the workers interleave, take the
  matches a node has published so far, let them reach a new buffer in any order, none of them
  older than the timeout: \<open>pop_ready\<close> returns those numbered 1, 2, ... up to the first number
  that was not published, in this order, without a forced release. When no stamped match is in
  flight and no number was lost, these are all the published matches. A number lost to an
  unusable match or a failed publish holds back everything behind it.
\<close>

theorem ingest_delivery:
  assumes run: "ingest_steps md5_prefix node (new_ingestor, [], 0) (s, fl, k)"
    and arr: "mset (map snd arr) = mset (ig_published s)"
    and young: "\<forall>(t, e)\<in>set arr. now - t < timeout"
    and pop: "pop_ready now (push_all arr (new_reorder_buffer timeout)) = (out, rb)"
  shows "\<exists>d. map vc_sum out = [1 .. d] \<and> mset out \<subseteq># mset (ig_published s)
    \<and> (\<forall>e\<in>set (ig_published s). vc_sum e \<noteq> d + 1) \<and> rb_forced rb = 0
    \<and> (fl = [] \<and> k = 0 \<longrightarrow> d = ig_seq s \<and> mset out = mset (ig_published s))"
proof -
  let ?rb = "push_all arr (new_reorder_buffer timeout)"
  note h = arrivals_heap [OF refl, of arr timeout]
  have m: "mset (map item_event (rb_heap ?rb)) = mset (ig_published s)" using h(1) arr by simp
  have inv: "\<forall>e\<in>set (fl @ ig_published s). \<exists>i. clocks e = [(node, i)] \<and> 1 \<le> i \<and> i \<le> ig_seq s"
    "distinct (map clocks (fl @ ig_published s))" "int (length fl + length (ig_published s) + k) = ig_seq s"
    using ingest_reachable_inv [OF run] unfolding ingest_inv_def prod.case by blast+
  have new: "rb_delivered ?rb = (\<lambda>_. 0)" "rb_timeout ?rb = timeout" "rb_forced ?rb = 0"
    by (simp_all add: new_reorder_buffer_def)
  have y: "\<forall>it\<in>set (rb_heap ?rb). now - item_arrival it < rb_timeout ?rb"
  proof
    fix it assume "it \<in> set (rb_heap ?rb)"
    then have "(item_arrival it, item_event it) \<in> set arr" using h(2) by blast
    with young show "now - item_arrival it < rb_timeout ?rb" unfolding new by fastforce
  qed
  have sq: "\<forall>e\<in>set (map item_event (rb_heap ?rb)). \<exists>i. clocks e = [(node, i)] \<and> 1 \<le> i"
    unfolding mset_eq_setD [OF m] using inv(1) by fastforce
  have ds: "distinct (map clocks (map item_event (rb_heap ?rb)))"
    unfolding distinct_map_mset_eq [OF m] using inv(2) by simp
  obtain d where d: "0 \<le> d" "map vc_sum out = [1 .. d]" "mset out \<subseteq># mset (ig_published s)"
    "\<forall>e\<in>set (ig_published s). vc_sum e \<noteq> d + 1" "rb_forced rb = 0"
    using pop_single_node [OF pop new(1) y sq ds] unfolding m mset_eq_setD [OF m] new by blast
  have "d = ig_seq s \<and> mset out = mset (ig_published s)" if "fl = []" "k = 0"
  proof
    have all: "vc_sum ` set (ig_published s) = {1 .. ig_seq s}"
      using inv that by (intro seqs_complete) simp_all
    have "d + 1 \<notin> {1 .. ig_seq s}" unfolding all [symmetric] using d(4) by auto
    moreover have "set [1 .. d] \<subseteq> {1 .. ig_seq s}"
      unfolding all [symmetric] d(2) [symmetric] using set_mset_mono [OF d(3)] by auto
    moreover have "0 \<le> ig_seq s" using inv(3) by linarith
    ultimately show eq: "d = ig_seq s" using d(1) by (cases "d = 0") auto
    have "length out = length (ig_published s)"
      using arg_cong [OF d(2), of length] inv(3) that eq d(1) by simp
    with d(3) show "mset out = mset (ig_published s)"
      by (metis size_mset mset_subset_size subset_mset.less_le nat_less_le)
  qed
  with d show ?thesis by blast
qed


definition sample_gen :: "int \<Rightarrow> match_event" where
  "sample_gen i = generate_match length 0 ''x'' (map bard_draw [1, 2]) [(''p'', 30), (''q'', 30)] ''NA'' ''GOLD'' ''17.4'' ''n'' i"

theorem ingest_delivery_witness:
  "map vc_sum (fst (pop_ready 1 (push_all [(0, sample_gen 2), (0, sample_gen 1)] (new_reorder_buffer 30)))) = [1 .. 2]"
proof -
  let ?x = "(0, 0, ''x'', map bard_draw [1, 2], [(''p'', 30), (''q'', 30)])"
  let ?run = "process_synthetic length (\<lambda>_. True) [''17.4''] [1] ''n'' 2 (\<lambda>_. ?x) ''NA'' ''GOLD'' new_ingestor"
  obtain s where s: "?run = Some (Inr (), s)" "ig_seq s = 2" "ig_published s = [sample_gen 1, sample_gen 2]"
    by (simp add: process_synthetic_def and_then_def next_seq_def publish_match_def ret_def new_ingestor_def
        accepted_def sample_gen_def pick_patch_def choices_one_def bisect_right_step upt_rec)
  obtain k where k: "ingest_steps length ''n'' (new_ingestor, [], 0) (s, [], k)"
    using stepwise_synthetic s(1) unfolding stepwise_def by blast
  have "k = 0" using ingest_reachable_inv [OF k] s by (simp add: ingest_inv_def)
  note r = k [unfolded this]
  have "mset (map snd [(0 :: real, sample_gen 2), (0, sample_gen 1)]) = mset (ig_published s)" by (simp add: s)
  moreover have "\<forall>(t, e)\<in>set [(0, sample_gen 2), (0, sample_gen 1)]. 1 - t < (30 :: real)" by simp
  ultimately obtain d where "map vc_sum (fst (pop_ready 1 (push_all [(0, sample_gen 2), (0, sample_gen 1)] (new_reorder_buffer 30)))) = [1 .. d]"
      "d = ig_seq s"
    using ingest_delivery [OF r _ _ prod.collapse [symmetric]] by blast
  then show ?thesis by (simp only: s)
qed

section \<open>The rate limiter's budget\<close>

datatype limiter_event = TryAcquire | Refill

primrec limiter_run :: "limiter_event list \<Rightarrow> limiter \<Rightarrow> nat \<times> limiter" where
  "limiter_run [] l = (0, l)"
| "limiter_run (ev # evs) l =
     (case ev of
        TryAcquire \<Rightarrow>
          (case try_acquire l of (got, l') \<Rightarrow>
             (case limiter_run evs l' of (n, l'') \<Rightarrow> ((if got then 1 else 0) + n, l'')))
      | Refill \<Rightarrow> limiter_run evs (refill l))"

definition refills :: "limiter_event list \<Rightarrow> nat" where
  "refills evs = count_list evs Refill"

lemma limiter_run_budget:
  assumes "0 \<le> tokens l" "tokens l \<le> lim_rate l" "limiter_run evs l = (n, l')"
  shows "int n + tokens l' \<le> tokens l + lim_rate l * int (refills evs) \<and> 0 \<le> tokens l' \<and> tokens l' \<le> lim_rate l'
    \<and> lim_rate l' = lim_rate l"
  using assms
proof (induction evs arbitrary: l n)
  case Nil
  then show ?case by (simp add: refills_def)
next
  case (Cons ev evs)
  show ?case
  proof (cases ev)
    case Refill
    with Cons.prems have r: "limiter_run evs (refill l) = (n, l')" by simp
    have "int n + tokens l' \<le> lim_rate l + lim_rate l * int (refills evs) \<and> 0 \<le> tokens l' \<and> tokens l' \<le> lim_rate l' \<and> lim_rate l' = lim_rate l"
      using Cons.IH [OF _ _ r] Cons.prems(1,2) by (simp add: refill_def)
    with Refill Cons.prems(1) show ?thesis by (simp add: refills_def algebra_simps)
  next
    case TryAcquire
    obtain got l1 where t: "try_acquire l = (got, l1)" by fastforce
    obtain n1 where r: "limiter_run evs l1 = (n1, l')" and n: "n = (if got then 1 else 0) + n1"
      using Cons.prems(3) TryAcquire t by (auto split: prod.splits)
    from t have l1: "0 \<le> tokens l1" "tokens l1 \<le> lim_rate l1" "lim_rate l1 = lim_rate l"
      "tokens l1 + (if got then 1 else 0) = tokens l"
      using Cons.prems(1,2) by (auto simp: try_acquire_def split: if_splits)
    from Cons.IH [OF l1(1,2) r] n TryAcquire l1 show ?thesis by (auto simp: refills_def)
  qed
qed

lemma limiter_burst: "0 \<le> tokens l \<Longrightarrow> n \<le> nat (tokens l) \<Longrightarrow>
    limiter_run (replicate n TryAcquire @ evs) l =
      (let (m, l') = limiter_run evs (l\<lparr>tokens := tokens l - int n\<rparr>) in (n + m, l'))"
proof (induction n arbitrary: l)
  case (Suc n)
  then have "try_acquire l = (True, l\<lparr>tokens := tokens l - 1\<rparr>)" by (auto simp: try_acquire_def)
  with Suc.IH [of "l\<lparr>tokens := tokens l - 1\<rparr>"] Suc.prems show ?case by (simp add: algebra_simps split: prod.splits)
qed (simp split: prod.splits)

text \<open>
  The shared token bucket. Whatever the workers do, a stretch of its history that contains
  \<open>k\<close> refills grants at most \<open>rate * (k + 1)\<close> acquisitions, and the tokens stay between 0 and the
  rate. Refills are a second apart, so a second can see \<open>2 * rate\<close> acquisitions but not more: the
  rate before a refill and the rate right after it, and the history that does so exists.
\<close>

theorem limiter_budget:
  assumes "0 \<le> r" "limiter_run before (new_limiter r) = (n0, l)" "limiter_run evs l = (n, l')"
  shows "int n \<le> r * (int (refills evs) + 1) \<and> 0 \<le> tokens l' \<and> tokens l' \<le> r
    \<and> fst (limiter_run (replicate (nat r) TryAcquire @ Refill # replicate (nat r) TryAcquire) (new_limiter r)) = 2 * nat r"
proof -
  have b: "0 \<le> tokens l" "tokens l \<le> lim_rate l" "lim_rate l = r"
    using limiter_run_budget [OF _ _ assms(2)] assms(1) by (simp_all add: new_limiter_def)
  have "int n \<le> r * (int (refills evs) + 1)" "0 \<le> tokens l'" "tokens l' \<le> r"
    using limiter_run_budget [OF b(1,2) assms(3)] b by (simp_all add: algebra_simps)
  moreover have "fst (limiter_run (replicate (nat r) TryAcquire @ Refill # replicate (nat r) TryAcquire) (new_limiter r)) = 2 * nat r"
    using limiter_burst [of "new_limiter r" "nat r" "Refill # replicate (nat r) TryAcquire"]
      limiter_burst [of "new_limiter r" "nat r" "[]"] assms(1)
    by (simp add: new_limiter_def refill_def)
  ultimately show ?thesis by blast
qed

theorem limiter_budget_witness:
  "int (fst (limiter_run [Refill, TryAcquire, TryAcquire] (new_limiter 1))) \<le> 1 * (int (refills [Refill, TryAcquire, TryAcquire]) + 1)"
proof -
  have "limiter_run [] (new_limiter 1) = (0, new_limiter 1)" by simp
  from limiter_budget [OF _ this prod.collapse [symmetric], of "[Refill, TryAcquire, TryAcquire]"] show ?thesis by simp
qed


section \<open>Order of service\<close>

lemma put_all_heap: "is_heap id q \<Longrightarrow> is_heap id (put_all ts q) \<and> mset (put_all ts q) = mset ts + mset q"
  by (induction ts arbitrary: q) (simp_all add: put_all_def heappush_heap)

lemma take_all_sorted:
  "is_heap id q \<Longrightarrow> sorted (take_all (length q) q) \<and> mset (take_all (length q) q) = mset q"
proof (induction "length q" arbitrary: q)
  case (Suc n)
  then have ne: "q \<noteq> []" by auto
  from heappop_spec [OF Suc.prems this] obtain q' where
    p: "heappop id q = Some (hd q, q')" "mset q = add_mset (hd q) (mset q')" "is_heap id q'" by blast
  have len: "length q = Suc (length q')" using arg_cong [OF p(2), of size] by simp
  then have ih: "sorted (take_all (length q') q')" "mset (take_all (length q') q') = mset q'"
    using Suc.hyps p(3) by auto
  have "hd q \<le> t" if "t \<in> set q" for t
    using heap_root_least [OF Suc.prems] that ne by (auto simp: in_set_conv_nth hd_conv_nth)
  moreover have "set (take_all (length q') q') \<subseteq> set q"
    using mset_eq_setD [OF ih(2)] arg_cong [OF p(2), of set_mset] by auto
  ultimately show ?case using ih p by (auto simp: len)
qed simp

text \<open>
  Order of service. The tasks of a round, one per region and tier, are taken by the workers
  in increasing order of (tier rank, region, tier): every task is taken once, and of two tasks
  the one of the higher tier is taken first, Challenger before all others. A tier that is not in
  the table comes last.
\<close>

theorem round_order:
  "let order = take_all (length (round_tasks regions tiers)) (put_all (round_tasks regions tiers) []) in
     sorted order \<and> mset order = mset (round_tasks regions tiers)
   \<and> (\<forall>i j. i < j \<and> j < length order \<longrightarrow>
        dict_get TIER_RANK (snd (snd (order ! i))) 99 \<le> dict_get TIER_RANK (snd (snd (order ! j))) 99)"
proof -
  let ?ts = "round_tasks regions tiers"
  let ?q = "put_all ?ts []"
  have q: "is_heap id ?q" "mset ?q = mset ?ts" using put_all_heap [of "[]" ?ts] by (simp_all add: heap_from_def)
  have len: "length ?q = length ?ts" using arg_cong [OF q(2), of size] by simp
  have o: "sorted (take_all (length ?ts) ?q)" "mset (take_all (length ?ts) ?q) = mset ?ts"
    using take_all_sorted [OF q(1)] q(2) by (simp_all add: len)
  have "fst t = dict_get TIER_RANK (snd (snd t)) 99" if "t \<in> set (take_all (length ?ts) ?q)" for t
    using that unfolding mset_eq_setD [OF o(2)] by (auto simp: round_tasks_def)
  moreover have "fst (take_all (length ?ts) ?q ! i) \<le> fst (take_all (length ?ts) ?q ! j)"
    if "i < j" "j < length (take_all (length ?ts) ?q)" for i j
    using sorted_nth_mono [OF o(1), of i j] that by (auto simp: less_eq_prod_def)
  ultimately show ?thesis unfolding Let_def using o by (intro conjI allI impI) auto
qed

theorem round_order_witness:
  "hd (take_all 4 (put_all (round_tasks [''NA'', ''EUW''] [''IRON'', ''CHALLENGER'']) [])) = (0, ''EUW'', ''CHALLENGER'')
   \<and> sorted (take_all 4 (put_all (round_tasks [''NA'', ''EUW''] [''IRON'', ''CHALLENGER'']) []))"
proof -
  have "length (round_tasks [''NA'', ''EUW''] [''IRON'', ''CHALLENGER'']) = 4" by code_simp
  moreover have "hd (take_all 4 (put_all (round_tasks [''NA'', ''EUW''] [''IRON'', ''CHALLENGER'']) [])) = (0, ''EUW'', ''CHALLENGER'')"
    by code_simp
  ultimately show ?thesis using round_order [of "[''NA'', ''EUW'']" "[''IRON'', ''CHALLENGER'']", unfolded Let_def] by simp
qed

section \<open>Termination of the client\<close>

text \<open>What an answer that is not repeated returns.\<close>

definition answer :: "'j reply \<Rightarrow> ingest_exc + 'j option" where
  "answer r = (case r of Json j \<Rightarrow> Inr (Some j) | Status _ \<Rightarrow> Inr None | _ \<Rightarrow> Inl ClientError)"

lemma client_get_step:
  "client_get fetch n = (if fetch n = TooMany True then client_get fetch (n + 1) else Some (answer (fetch n), n + 1))"
  by (subst client_get.simps) (simp add: answer_def split: reply.split)

lemma client_get_first:
  assumes "n \<le> m" "\<And>i. n \<le> i \<Longrightarrow> i < m \<Longrightarrow> fetch i = TooMany True" "fetch m \<noteq> TooMany True"
  shows "client_get fetch n = Some (answer (fetch m), m + 1)"
  using assms
proof (induction "m - n" arbitrary: n)
  case 0
  then show ?case by (simp add: client_get_step [of fetch n])
next
  case (Suc d)
  then have "client_get fetch (n + 1) = Some (answer (fetch m), m + 1)" by simp
  moreover have "fetch n = TooMany True" using Suc by simp
  ultimately show ?case by (simp add: client_get_step [of fetch n])
qed

lemma client_get_returned:
  assumes "client_get fetch n = Some res"
  shows "\<exists>m\<ge>n. fetch m \<noteq> TooMany True"
  using assms
proof (rule client_get.raw_induct [rotated])
  fix rec :: "(nat \<Rightarrow> 'a reply) \<Rightarrow> nat \<Rightarrow> ((ingest_exc + 'a option) \<times> nat) option" and fetch n res
  assume ih: "\<And>fetch n res. rec fetch n = Some res \<Longrightarrow> \<exists>m\<ge>n. fetch m \<noteq> TooMany True"
    and body: "(case fetch n of
        TooMany readable \<Rightarrow> if readable then rec fetch (n + 1) else Some (Inl ClientError, n + 1)
      | Status s \<Rightarrow> Some (Inr None, n + 1)
      | Json j \<Rightarrow> Some (Inr (Some j), n + 1)
      | Broken \<Rightarrow> Some (Inl ClientError, n + 1)) = Some res"
  show "\<exists>m\<ge>n. fetch m \<noteq> TooMany True"
  proof (cases "fetch n = TooMany True")
    case True
    with body have "rec fetch (n + 1) = Some res" by simp
    from ih [OF this] show ?thesis using add_leD1 by blast
  qed blast
qed

text \<open>
  C18. The ingestion client's \<open>_get\<close> returns exactly when Riot answers something else than a
  repeatable 429 at some point; then it returns what the first such answer says, after one
  request for each answer up to it. While Riot keeps answering 429 it never returns.
\<close>

theorem client_get_returns:
  "((\<exists>res. client_get fetch n = Some res) \<longleftrightarrow> (\<exists>m\<ge>n. fetch m \<noteq> TooMany True))
   \<and> (\<forall>m\<ge>n. (\<forall>i. n \<le> i \<and> i < m \<longrightarrow> fetch i = TooMany True) \<and> fetch m \<noteq> TooMany True \<longrightarrow>
        client_get fetch n = Some (answer (fetch m), m + 1))"
proof (intro conjI iffI allI impI)
  show "\<exists>res. client_get fetch n = Some res \<Longrightarrow> \<exists>m\<ge>n. fetch m \<noteq> TooMany True" using client_get_returned by blast
  assume ex: "\<exists>m\<ge>n. fetch m \<noteq> TooMany True"
  define m where "m = (LEAST m. n \<le> m \<and> fetch m \<noteq> TooMany True)"
  have "n \<le> m \<and> fetch m \<noteq> TooMany True" unfolding m_def using ex by (rule LeastI_ex)
  moreover have "fetch i = TooMany True" if "n \<le> i" "i < m" for i
    using not_less_Least [of i "\<lambda>m. n \<le> m \<and> fetch m \<noteq> TooMany True"] that unfolding m_def by blast
  ultimately show "\<exists>res. client_get fetch n = Some res" using client_get_first [of n m fetch] by blast
qed (blast intro: client_get_first)

theorem client_get_returns_witness:
  "client_get (\<lambda>n. if n < 2 then TooMany True else Json (7 :: int)) 0 = Some (Inr (Some 7), 3)"
proof -
  let ?f = "\<lambda>n. if n < (2 :: nat) then TooMany True else Json (7 :: int)"
  have "(\<forall>i. 0 \<le> i \<and> i < 2 \<longrightarrow> ?f i = TooMany True) \<and> ?f 2 \<noteq> TooMany True" by simp
  with client_get_returns [of ?f 0] have "client_get ?f 0 = Some (answer (?f 2), 2 + 1)" by blast
  then show ?thesis by (simp add: answer_def)
qed

end
