(* ===== verification/Security.thy ===== *)
theory Security
  imports Py_Str
begin

text \<open>
  The API's defensive controls, \<open>api/security.py\<close>: the sliding-window limiter, the daily cap,
  the middleware that combines them, the input validators and \<open>clamp\<close>. The tunables are
  parameters of the middleware (they are read from the environment); \<open>tunables\<close> holds them,
  \<open>default_tunables\<close> the values the source gives them. \<open>call_next\<close>, the application behind
  the middleware, is a parameter.
\<close>

section \<open>Sliding window\<close>

type_synonym hits = "(string, py_float list) dict"

text \<open>\<open>while dq and dq[0] < cutoff: dq.popleft()\<close>\<close>

definition drop_old :: "py_float \<Rightarrow> py_float list \<Rightarrow> py_float list" where
  "drop_old cutoff dq = dropWhile (\<lambda>t. t < cutoff) dq"

text \<open>
  \<open>_SlidingWindow.allow\<close> at time \<open>now\<close>. Reading \<open>dq[0]\<close> of an empty deque raises
  \<open>IndexError\<close>, which is the result \<open>None\<close>; it needs a limit of zero or less. \<open>int(x)\<close> truncates
  towards zero.
\<close>

definition py_trunc :: "py_float \<Rightarrow> int" where
  "py_trunc x = (if 0 \<le> x then \<lfloor>x\<rfloor> else \<lceil>x\<rceil>)"

definition prune :: "hits \<Rightarrow> hits" where
  "prune h = (if length h > 4096 then filter (\<lambda>(k, v). v \<noteq> []) h else h)"

definition allow ::
    "string \<Rightarrow> int \<Rightarrow> py_float \<Rightarrow> py_float \<Rightarrow> hits \<Rightarrow> (bool \<times> int) option \<times> hits" where
  "allow key limit window now h =
     (let dq = drop_old (now - window) (dict_get h key []);
          h1 = AList.update key dq h
      in if int (length dq) \<ge> limit
         then (case dq of
                 [] \<Rightarrow> (None, h1)
               | t # _ \<Rightarrow> (Some (False, max 1 (py_trunc (window - (now - t)) + 1)), h1))
         else (Some (True, 0), prune (AList.update key (dq @ [now]) h1)))"

section \<open>Daily cap\<close>

record daily_cap =
  cap :: int
  cap_day :: int
  cap_count :: int

definition new_daily_cap :: "int \<Rightarrow> daily_cap" where
  "new_daily_cap c = \<lparr>cap = c, cap_day = -1, cap_count = 0\<rparr>"

definition cap_allow :: "int \<Rightarrow> daily_cap \<Rightarrow> bool \<times> daily_cap" where
  "cap_allow day c =
     (let c1 = (if day \<noteq> cap_day c then c\<lparr>cap_day := day, cap_count := 0\<rparr> else c)
      in if cap_count c1 \<ge> cap c1 then (False, c1) else (True, c1\<lparr>cap_count := cap_count c1 + 1\<rparr>))"

section \<open>Middleware\<close>

record request =
  req_path :: string
  req_headers :: "(string, string) dict" \<comment> \<open>names in lower case\<close>
  req_client :: "string option"

datatype body = Json "(string, string) dict" | Other string

record response =
  status_code :: int
  resp_headers :: "(string, string) dict"
  resp_body :: body

record tunables =
  RATE_PER_MIN :: int
  PLAYER_RATE_PER_MIN :: int
  RIOT_DAILY_CAP :: int

definition default_tunables :: tunables where
  "default_tunables = \<lparr>RATE_PER_MIN = 120, PLAYER_RATE_PER_MIN = 12, RIOT_DAILY_CAP = 20000\<rparr>"

record guards =
  global_rl :: hits
  player_rl :: hits
  riot_daily :: daily_cap

definition new_guards :: "tunables \<Rightarrow> guards" where
  "new_guards cfg = \<lparr>global_rl = [], player_rl = [], riot_daily = new_daily_cap (RIOT_DAILY_CAP cfg)\<rparr>"

definition client_ip :: "request \<Rightarrow> string" where
  "client_ip r =
     (let fwd = dict_get (req_headers r) ''x-forwarded-for'' [] in
      if fwd \<noteq> [] then take 64 (strip (hd (split_on (CHR '','') fwd)))
      else take 64 (case req_client r of Some h \<Rightarrow> h | None \<Rightarrow> ''unknown''))"

definition RIOT_PATHS :: "string list" where
  "RIOT_PATHS = [''/player/'', ''/players/suggest'']"

definition is_riot :: "string \<Rightarrow> bool" where
  "is_riot path = list_ex (\<lambda>p. prefix p path) RIOT_PATHS"

definition header_default :: "string \<Rightarrow> string \<Rightarrow> response \<Rightarrow> response" where
  "header_default k v r =
     (if k \<in> fst ` set (resp_headers r) then r
      else r\<lparr>resp_headers := AList.update k v (resp_headers r)\<rparr>)"

definition secure :: "response \<Rightarrow> response" where
  "secure r =
     header_default ''Cache-Control'' ''no-store''
       (header_default ''Referrer-Policy'' ''no-referrer''
         (header_default ''X-Frame-Options'' ''DENY''
           (header_default ''X-Content-Type-Options'' ''nosniff'' r)))"

definition limited_response :: "int \<Rightarrow> response" where
  "limited_response retry = \<lparr>status_code = 429, resp_headers = [(''Retry-After'', show_int retry)],
     resp_body = Json [(''status'', ''rate_limited''),
       (''message'', ''Too many requests. Slow down and retry shortly.'')]\<rparr>"

definition unavailable_response :: response where
  "unavailable_response = \<lparr>status_code = 503, resp_headers = [],
     resp_body = Json [(''status'', ''unavailable''),
       (''message'', ''Daily player-lookup capacity reached. Try again tomorrow.'')]\<rparr>"

text \<open>
  The two limiter checks: the verdict, the retry hint and the limiters afterwards. A disabled
  limit is skipped; with a positive limit \<open>allow\<close> never raises (\<open>allow_total\<close> below), so the
  branch for an exception is kept as a refusal of the whole call.
\<close>

definition check_limits ::
    "tunables \<Rightarrow> py_float \<Rightarrow> request \<Rightarrow> guards \<Rightarrow> (bool \<times> int) option \<times> guards" where
  "check_limits cfg now r g =
     (let ip = client_ip r;
          (v1, g1) =
            (if RATE_PER_MIN cfg > 0
             then (case allow (''g:'' @ ip) (RATE_PER_MIN cfg) 60 now (global_rl g) of
                     (v, h) \<Rightarrow> (v, g\<lparr>global_rl := h\<rparr>))
             else (Some (True, 0), g))
      in case v1 of
           None \<Rightarrow> (None, g1)
         | Some (ok, retry) \<Rightarrow>
             if ok \<and> is_riot (req_path r) \<and> PLAYER_RATE_PER_MIN cfg > 0
             then (case allow (''p:'' @ ip) (PLAYER_RATE_PER_MIN cfg) 60 now (player_rl g1) of
                     (v, h) \<Rightarrow> (v, g1\<lparr>player_rl := h\<rparr>))
             else (Some (ok, retry), g1))"

text \<open>
  The whole middleware; the Boolean says whether the application was called. \<open>None\<close> is an
  exception.
\<close>

definition rate_limit_middleware ::
    "tunables \<Rightarrow> (request \<Rightarrow> response) \<Rightarrow> py_float \<Rightarrow> int \<Rightarrow> request \<Rightarrow> guards \<Rightarrow>
     (response \<times> bool) option \<times> guards" where
  "rate_limit_middleware cfg call_next now day r g =
     (case check_limits cfg now r g of
        (None, g1) \<Rightarrow> (None, g1)
      | (Some (ok, retry), g1) \<Rightarrow>
          if \<not> ok then (Some (limited_response retry, False), g1)
          else if prefix ''/player/'' (req_path r) \<and> RIOT_DAILY_CAP cfg > 0
          then (case cap_allow day (riot_daily g1) of
                  (admitted, c) \<Rightarrow>
                    if admitted then (Some (secure (call_next r), True), g1\<lparr>riot_daily := c\<rparr>)
                    else (Some (unavailable_response, False), g1\<lparr>riot_daily := c\<rparr>))
          else (Some (secure (call_next r), True), g1))"

section \<open>Input validation\<close>

definition MAX_PARAM_LEN :: nat where "MAX_PARAM_LEN = 120"

datatype http_error = HTTPException int string

definition clean_param :: "string \<Rightarrow> string option \<Rightarrow> http_error + string" where
  "clean_param field val =
     (case val of
        None \<Rightarrow> Inr []
      | Some v \<Rightarrow>
          if length v > MAX_PARAM_LEN then Inl (HTTPException 422 (field @ '' too long''))
          else if list_ex is_control v then Inl (HTTPException 422 (field @ '' contains invalid characters''))
          else if contains ''..'' v \<or> contains ''://'' (lower v)
          then Inl (HTTPException 422 (field @ '' is malformed''))
          else Inr (strip v))"

text \<open>
  The regular expression \<open>^[\w .\-]{1,30}(?:#[A-Za-z0-9]{1,10})?$\<close>: the class of the name does
  not contain \<open>#\<close>, so the match splits at the first one. A trailing newline, which \<open>$\<close> would
  admit, has been rejected before.
\<close>

definition name_char :: "char \<Rightarrow> bool" where
  "name_char c = (is_word c \<or> c = CHR '' '' \<or> c = CHR ''.'' \<or> c = CHR ''-'')"

definition riot_id_match :: "string \<Rightarrow> bool" where
  "riot_id_match s =
     (case partition_at (CHR ''#'') s of
        (nm, sep, tag) \<Rightarrow>
          list_all name_char nm \<and> 1 \<le> length nm \<and> length nm \<le> 30
          \<and> (sep = [] \<or> list_all is_ascii_alnum tag \<and> 1 \<le> length tag \<and> length tag \<le> 10))"

definition validate_riot_id :: "string option \<Rightarrow> http_error + string" where
  "validate_riot_id raw =
     (case clean_param ''riot id'' raw of
        Inl e \<Rightarrow> Inl e
      | Inr v \<Rightarrow>
          if v = [] then Inl (HTTPException 422 ''riot id is required'')
          else if \<not> riot_id_match v then Inl (HTTPException 422 ''invalid Riot id format'')
          else Inr v)"

definition clamp :: "int \<Rightarrow> int \<Rightarrow> int \<Rightarrow> int" where
  "clamp v lo hi = max lo (min hi v)"

section \<open>The contract of a window limiter\<close>

text \<open>
  \<open>tracked limit window rc L T\<close>: \<open>L\<close> are all the times at which a key was admitted, up to time
  \<open>T\<close>; the limiter remembers the recent ones \<open>rc\<close>; and no closed interval as long as the window
  holds more than \<open>limit\<close> of \<open>L\<close>.
\<close>

definition tracked :: "nat \<Rightarrow> py_float \<Rightarrow> py_float list \<Rightarrow> py_float list \<Rightarrow> py_float \<Rightarrow> bool" where
  "tracked limit window rc L T \<longleftrightarrow>
     sorted L \<and> (\<forall>t\<in>set L. t \<le> T) \<and> (\<exists>c\<le>T - window. rc = filter (\<lambda>t. c \<le> t) L)
     \<and> (\<forall>a. length (filter (\<lambda>t. a \<le> t \<and> t \<le> a + window) L) \<le> limit)"

lemma tracked_init: "tracked limit window [] [] T"
  by (auto simp: tracked_def)

lemma tracked_later: "tracked limit window rc L T \<Longrightarrow> T \<le> T' \<Longrightarrow> tracked limit window rc L T'"
proof -
  assume tr: "tracked limit window rc L T" and T: "T \<le> T'"
  then obtain c where "c \<le> T - window" "rc = filter (\<lambda>t. c \<le> t) L" by (auto simp: tracked_def)
  with T have "\<exists>c\<le>T' - window. rc = filter (\<lambda>t. c \<le> t) L" by (intro exI [of _ c]) simp
  with tr T show ?thesis by (auto simp: tracked_def)
qed

lemma tracked_recent_sorted: "tracked limit window rc L T \<Longrightarrow> sorted rc"
  using sorted_filter [of "\<lambda>t. t"] by (auto simp: tracked_def)

lemma tracked_recent:
  assumes "tracked limit window rc L T" "T \<le> now"
  shows "filter (\<lambda>t. now - window \<le> t) rc = filter (\<lambda>t. now - window \<le> t) L"
proof -
  obtain c where "c \<le> T - window" and rc: "rc = filter (\<lambda>t. c \<le> t) L"
    using assms(1) by (auto simp: tracked_def)
  then have "c \<le> now - window" using assms(2) by simp
  then have "(now - window \<le> t \<and> c \<le> t) = (now - window \<le> t)" for t by auto
  then show ?thesis by (simp add: rc conj_commute)
qed

lemma tracked_step:
  assumes tr: "tracked limit window rc L T" and "T \<le> now" and w: "0 \<le> window"
    and ok: "ok \<longleftrightarrow> length (filter (\<lambda>t. now - window \<le> t) rc) < limit"
  shows "tracked limit window (filter (\<lambda>t. now - window \<le> t) rc @ (if ok then [now] else []))
     (L @ (if ok then [now] else [])) now"
proof -
  let ?old = "filter (\<lambda>t. now - window \<le> t) L" and ?L = "L @ (if ok then [now] else [])"
  have rc: "filter (\<lambda>t. now - window \<le> t) rc = ?old" using tracked_recent [OF tr assms(2)] .
  have le: "\<forall>t\<in>set L. t \<le> now" using tr assms(2) by (auto simp: tracked_def)
  have "length (filter (\<lambda>t. a \<le> t \<and> t \<le> a + window) ?L) \<le> limit" for a
  proof (cases "ok \<and> a \<le> now \<and> now \<le> a + window")
    case True
    then have "filter (\<lambda>t. a \<le> t \<and> t \<le> a + window) L
        = filter (\<lambda>t. a \<le> t \<and> t \<le> a + window) ?old" by (auto intro: filter_cong)
    then have "length (filter (\<lambda>t. a \<le> t \<and> t \<le> a + window) L) \<le> length ?old"
      by (simp only: length_filter_le)
    also have "\<dots> < limit" using ok True rc by simp
    finally show ?thesis using True by simp
  next
    case False
    then have "filter (\<lambda>t. a \<le> t \<and> t \<le> a + window) ?L = filter (\<lambda>t. a \<le> t \<and> t \<le> a + window) L"
      by auto
    then show ?thesis using tr by (simp add: tracked_def)
  qed
  moreover have "sorted ?L" using tr le by (auto simp: tracked_def sorted_append)
  moreover have "\<forall>t\<in>set ?L. t \<le> now" using le by auto
  moreover have "filter (\<lambda>t. now - window \<le> t) rc @ (if ok then [now] else [])
      = filter (\<lambda>t. now - window \<le> t) ?L" using w rc by simp
  ultimately show ?thesis unfolding tracked_def by blast
qed

primrec admit_all ::
    "('k \<Rightarrow> py_float \<Rightarrow> 's \<Rightarrow> bool \<times> 's) \<Rightarrow> ('k \<times> py_float) list \<Rightarrow> 's \<Rightarrow> ('k \<times> py_float) list \<times> 's" where
  "admit_all admit [] s = ([], s)"
| "admit_all admit (c # cs) s =
     (case admit (fst c) (snd c) s of (ok, s1) \<Rightarrow>
        (case admit_all admit cs s1 of (as, s2) \<Rightarrow> ((if ok then [c] else []) @ as, s2)))"

text \<open>
  What a client of a limiter may rely on: admitting is recorded, only fresh admissions count,
  and other keys are not affected.
\<close>

locale window_limiter =
  fixes limit :: nat and window :: py_float
    and admit :: "'k \<Rightarrow> py_float \<Rightarrow> 's \<Rightarrow> bool \<times> 's"
    and recent :: "'s \<Rightarrow> 'k \<Rightarrow> py_float list"
    and inv :: "'s \<Rightarrow> bool"
  assumes window_nonneg: "0 \<le> window"
    and admit_inv: "inv s \<Longrightarrow> admit k now s = (ok, s') \<Longrightarrow> inv s'"
    and admit_verdict: "inv s \<Longrightarrow> sorted (recent s k) \<Longrightarrow> admit k now s = (ok, s') \<Longrightarrow>
      ok \<longleftrightarrow> length (filter (\<lambda>t. now - window \<le> t) (recent s k)) < limit"
    and admit_recent: "inv s \<Longrightarrow> sorted (recent s k) \<Longrightarrow> admit k now s = (ok, s') \<Longrightarrow>
      recent s' k = filter (\<lambda>t. now - window \<le> t) (recent s k) @ (if ok then [now] else [])"
    and admit_other: "inv s \<Longrightarrow> admit k now s = (ok, s') \<Longrightarrow> k' \<noteq> k \<Longrightarrow> recent s' k' = recent s k'"
begin

lemma admit_tracked:
  assumes "tracked limit window (recent s k') L T" and "T \<le> now" and a: "admit k now s = (ok, s')"
    and i: "inv s"
  shows "tracked limit window (recent s' k') (L @ (if ok \<and> k = k' then [now] else [])) now"
proof (cases "k = k'")
  case True
  have so: "sorted (recent s k)" using assms(1) True by (simp add: tracked_recent_sorted)
  have t: "tracked limit window (recent s k) L T" using assms(1) True by simp
  show ?thesis
    using tracked_step [OF t assms(2) window_nonneg admit_verdict [OF i so a]] True
      admit_recent [OF i so a] by simp
next
  case False
  then show ?thesis
    using tracked_later [OF assms(1,2)] admit_other [OF i a, of k'] by simp
qed


lemma admit_all_tracked:
  assumes "tracked limit window (recent s k) L T" and "sorted (map snd cs)"
    and "\<forall>c\<in>set cs. T \<le> snd c" and "admit_all admit cs s = (as, s')" and "inv s"
  shows "\<exists>T'. tracked limit window (recent s' k) (L @ map snd (filter (\<lambda>c. fst c = k) as)) T'"
  using assms
proof (induction cs arbitrary: s L T as)
  case Nil
  then show ?case by auto
next
  case (Cons c cs)
  obtain ok s1 where a: "admit (fst c) (snd c) s = (ok, s1)" by (cases "admit (fst c) (snd c) s")
  obtain as' where r: "admit_all admit cs s1 = (as', s')" and as: "as = (if ok then [c] else []) @ as'"
    using Cons.prems(4) a by (auto split: prod.splits)
  have t: "tracked limit window (recent s1 k) (L @ (if ok \<and> fst c = k then [snd c] else [])) (snd c)"
    using admit_tracked [OF Cons.prems(1) _ a Cons.prems(5)] Cons.prems(3) by simp
  have "sorted (map snd cs)" "\<forall>d\<in>set cs. snd c \<le> snd d" using Cons.prems(2) by auto
  from Cons.IH [OF t this r admit_inv [OF Cons.prems(5) a]] show ?case
    by (cases "fst c = k"; cases ok) (simp_all add: as)
qed

end

section \<open>The sliding window keeps the contract\<close>

definition recent_hits :: "hits \<Rightarrow> string \<Rightarrow> py_float list" where
  "recent_hits h k = dict_get h k []"

lemma drop_old_filter: "sorted dq \<Longrightarrow> drop_old c dq = filter (\<lambda>t. c \<le> t) dq"
proof (induction dq)
  case Nil
  show ?case by (simp add: drop_old_def)
next
  case (Cons t dq)
  then show ?case
    by (cases "t < c") (auto simp: drop_old_def intro!: filter_True [symmetric])
qed

lemma allow_total: "0 < limit \<Longrightarrow> fst (allow k limit w now h) \<noteq> None"
  by (auto simp: allow_def Let_def split: list.splits)

text \<open>
  Well-formed hits: distinct keys, and no empty deque. The second part holds because \<open>allow\<close>
  with a positive limit leaves at least one time in the deque it touches; so the pruning step,
  which deletes empty deques, never deletes anything.
\<close>

definition hits_ok :: "hits \<Rightarrow> bool" where
  "hits_ok h \<longleftrightarrow> distinct (map fst h) \<and> list_all (\<lambda>(k, dq). dq \<noteq> []) h"

lemma hits_ok_update: "hits_ok h \<Longrightarrow> dq \<noteq> [] \<Longrightarrow> hits_ok (AList.update k dq h)"
proof -
  have "list_all (\<lambda>(k, dq). dq \<noteq> []) (AList.update k dq h)"
    if "list_all (\<lambda>(k, dq). dq \<noteq> []) h" "dq \<noteq> []"
    using that by (induction h) auto
  then show "hits_ok h \<Longrightarrow> dq \<noteq> [] \<Longrightarrow> hits_ok (AList.update k dq h)"
    by (simp add: hits_ok_def distinct_update)
qed

lemma prune_ok: "hits_ok h \<Longrightarrow> prune h = h"
  unfolding prune_def hits_ok_def list_all_iff by (simp add: filter_True)

lemma update_update: "AList.update k a (AList.update k b h) = AList.update k a h"
  by (induction h) auto

lemma allow_cases:
  fixes k :: string and now w :: py_float
  assumes "0 < limit" and "hits_ok h"
  defines "dq \<equiv> drop_old (now - w) (dict_get h k [])"
  shows "allow k limit w now h =
    (if int (length dq) \<ge> limit
     then (Some (False, max 1 (py_trunc (w - (now - hd dq)) + 1)), AList.update k dq h)
     else (Some (True, 0), AList.update k (dq @ [now]) h))"
proof -
  have "hits_ok (AList.update k (dq @ [now]) h)" using assms(2) by (rule hits_ok_update) simp
  then have "prune (AList.update k (dq @ [now]) h) = AList.update k (dq @ [now]) h" by (rule prune_ok)
  then show ?thesis
    using assms(1) by (auto simp: allow_def Let_def update_update simp flip: dq_def split: list.splits)
qed

lemma allow_hits_ok: "0 < limit \<Longrightarrow> hits_ok h \<Longrightarrow> hits_ok (snd (allow k limit w now h))"
proof -
  assume l: "0 < limit" and h: "hits_ok h"
  let ?dq = "drop_old (now - w) (dict_get h k [])"
  have "int (length ?dq) \<ge> limit \<Longrightarrow> ?dq \<noteq> []" using l by auto
  then show ?thesis
    unfolding allow_cases [OF l h] using h by (simp add: hits_ok_update)
qed

definition admit_hit :: "nat \<Rightarrow> string \<Rightarrow> py_float \<Rightarrow> hits \<Rightarrow> bool \<times> hits" where
  "admit_hit n k now h =
     (case allow k (int n) 60 now h of (v, h') \<Rightarrow> (case v of Some (ok, _) \<Rightarrow> (ok, h') | None \<Rightarrow> (False, h')))"

interpretation sliding: window_limiter "Suc n" 60 "admit_hit (Suc n)" recent_hits hits_ok
proof
  fix h :: hits and k k' :: string and now :: py_float and ok h'
  assume i: "hits_ok h" and a: "admit_hit (Suc n) k now h = (ok, h')"
  have s: "0 < int (Suc n)" by simp
  show "hits_ok h'"
    using allow_hits_ok [OF s i, of k 60 now] a allow_total [OF s, of k 60 now h]
    by (auto simp: admit_hit_def split: prod.splits option.splits)
  note c = allow_cases [OF s i, of k 60 now]
  show "recent_hits h' k' = recent_hits h k'" if "k' \<noteq> k"
    using a that unfolding admit_hit_def c
    by (auto simp: recent_hits_def split: if_splits)
  assume so: "sorted (recent_hits h k)"
  then have d: "drop_old (now - 60) (dict_get h k []) = filter (\<lambda>t. now - 60 \<le> t) (recent_hits h k)"
    by (simp add: recent_hits_def drop_old_filter)
  show "ok \<longleftrightarrow> length (filter (\<lambda>t. now - 60 \<le> t) (recent_hits h k)) < Suc n"
    using a unfolding admit_hit_def c d by (auto split: if_splits)
  show "recent_hits h' k = filter (\<lambda>t. now - 60 \<le> t) (recent_hits h k) @ (if ok then [now] else [])"
    using a unfolding admit_hit_def c d by (auto simp: recent_hits_def split: if_splits)
qed simp


lemma admit_hit_length:
  assumes "hits_ok h" "\<forall>k. length (recent_hits h k) \<le> Suc n"
  shows "\<forall>k. length (recent_hits (snd (admit_hit (Suc n) k' now h)) k) \<le> Suc n"
proof -
  have s: "0 < int (Suc n)" by simp
  have "length (drop_old (now - 60) (dict_get h k' [])) \<le> Suc n"
    using assms(2) length_dropWhile_le [of "\<lambda>t. t < now - 60" "dict_get h k' []"]
    unfolding drop_old_def recent_hits_def by (meson order_trans)
  with assms show ?thesis
    unfolding admit_hit_def allow_cases [OF s assms(1)] by (auto simp: recent_hits_def)
qed

lemma admit_all_hits:
  fixes cs :: "(string \<times> py_float) list"
  assumes "hits_ok h" "\<forall>k. length (recent_hits h k) \<le> Suc n"
  defines "h' \<equiv> snd (admit_all (admit_hit (Suc n)) cs h)"
  shows "hits_ok h' \<and> (\<forall>k. length (recent_hits h' k) \<le> Suc n)
    \<and> fst ` set h' = fst ` set h \<union> fst ` set cs"
  using assms(1,2) unfolding h'_def
proof (induction cs arbitrary: h)
  case Nil
  then show ?case by simp
next
  case (Cons c cs)
  obtain ok h1 where a: "admit_hit (Suc n) (fst c) (snd c) h = (ok, h1)"
    by (cases "admit_hit (Suc n) (fst c) (snd c) h")
  have h1: "hits_ok h1" using sliding.admit_inv [OF Cons.prems(1) a] .
  have l1: "\<forall>k. length (recent_hits h1 k) \<le> Suc n"
    using admit_hit_length [OF Cons.prems, of "fst c" "snd c"] a by simp
  have "\<exists>dq. h1 = AList.update (fst c) dq h"
    using a unfolding admit_hit_def by (auto simp: allow_cases [OF _ Cons.prems(1)] split: if_splits)
  then have "fst ` set h1 = insert (fst c) (fst ` set h)" by (elim exE) (simp only: keys_update)
  moreover have "snd (admit_all (admit_hit (Suc n)) (c # cs) h) = snd (admit_all (admit_hit (Suc n)) cs h1)"
    by (simp add: a split: prod.splits)
  ultimately show ?case using Cons.IH [OF h1 l1] by simp
qed

lemma no_hits: "hits_ok []" "\<forall>k. length (recent_hits [] k) \<le> Suc n" "recent_hits [] k = []"
  by (simp_all add: hits_ok_def recent_hits_def)

lemma admit_all_sorted:
  assumes "sorted (map snd cs)"
  shows "sorted (recent_hits (snd (admit_all (admit_hit (Suc n)) cs [])) k)"
proof -
  obtain as h where r: "admit_all (admit_hit (Suc n)) cs [] = (as, h)" by fastforce
  define T where "T = Min (insert 0 (snd ` set cs))"
  have T: "\<forall>c\<in>set cs. T \<le> snd c" by (simp add: T_def)
  have "tracked (Suc n) 60 (recent_hits [] k) [] T" by (simp add: no_hits tracked_init)
  from sliding.admit_all_tracked [OF this assms T r no_hits(1)] show ?thesis
    by (auto simp: r intro: tracked_recent_sorted)
qed

section \<open>Properties of the limiter\<close>

text \<open>
  C33. The sliding window enforces its limit. For calls at non-decreasing times and a positive
  limit, no 60-second interval contains more than \<open>limit\<close> admitted calls of one key, whatever
  the other keys do.
\<close>

theorem sliding_window_bound:
  assumes "sorted (map snd cs)" and "0 < n"
  shows "length (filter (\<lambda>(k', t). k' = k \<and> a \<le> t \<and> t \<le> a + 60)
    (fst (admit_all (admit_hit n) cs []))) \<le> n"
proof -
  obtain m where n: "n = Suc m" using assms(2) by (cases n) auto
  obtain as h where r: "admit_all (admit_hit (Suc m)) cs [] = (as, h)" by fastforce
  define T where "T = Min (insert 0 (snd ` set cs))"
  have T: "\<forall>c\<in>set cs. T \<le> snd c" by (simp add: T_def)
  have "tracked (Suc m) 60 (recent_hits [] k) [] T" by (simp add: no_hits tracked_init)
  from sliding.admit_all_tracked [OF this assms(1) T r no_hits(1)]
  have "length (filter (\<lambda>t. a \<le> t \<and> t \<le> a + 60) (map snd (filter (\<lambda>c. fst c = k) as))) \<le> Suc m"
    by (auto simp: tracked_def)
  moreover have "length (filter (\<lambda>(k', t). k' = k \<and> a \<le> t \<and> t \<le> a + 60) as)
      = length (filter (\<lambda>t. a \<le> t \<and> t \<le> a + 60) (map snd (filter (\<lambda>c. fst c = k) as)))"
    by (simp add: filter_map comp_def case_prod_unfold conj_commute)
  ultimately show ?thesis by (simp add: n r)
qed

theorem sliding_window_bound_witness:
  "sorted (map snd [(''a'', 0 :: py_float), (''a'', 1), (''a'', 2), (''a'', 61)])
   \<and> fst (admit_all (admit_hit 2) [(''a'', 0), (''a'', 1), (''a'', 2), (''a'', 61)] [])
       = [(''a'', 0), (''a'', 1), (''a'', 61)]
   \<and> length (filter (\<lambda>(k', t). k' = ''a'' \<and> 0 \<le> t \<and> t \<le> 0 + 60)
       (fst (admit_all (admit_hit 2) [(''a'', 0), (''a'', 1), (''a'', 2), (''a'', 61)] []))) \<le> 2"
proof -
  have s: "sorted (map snd [(''a'', 0 :: py_float), (''a'', 1), (''a'', 2), (''a'', 61)])" by simp
  have "fst (admit_all (admit_hit 2) [(''a'', 0), (''a'', 1), (''a'', 2), (''a'', 61)] [])
      = [(''a'', 0), (''a'', 1), (''a'', 61)]" by code_simp
  moreover have "0 < (2 :: nat)" by simp
  note sliding_window_bound [OF s this, of "''a''" 0]
  ultimately show ?thesis using s by blast
qed

text \<open>
  The retry hint suffices. In any state reached by calls at non-decreasing times, when a
  call is refused with a retry hint of \<open>r\<close> seconds, the hint is at least one second, and the
  key's next call is admitted if it comes \<open>r\<close> seconds later or more.
\<close>

theorem retry_after_sufficient:
  assumes "sorted (map snd cs)" and "0 < n" and "h = snd (admit_all (admit_hit n) cs [])"
    and "allow k (int n) 60 now h = (Some (False, r), h')" and "now + of_int r \<le> now'"
  shows "1 \<le> r \<and> fst (allow k (int n) 60 now' h') = Some (True, 0)"
proof -
  obtain m where n: "n = Suc m" using assms(2) by (cases n) auto
  have s: "0 < int n" using assms(2) by simp
  have h: "hits_ok h" and len: "length (recent_hits h k) \<le> n" and so: "sorted (recent_hits h k)"
    using admit_all_hits [OF no_hits(1,2), of m cs] admit_all_sorted [OF assms(1), of m k]
    by (auto simp: assms(3) n)
  let ?dq = "drop_old (now - 60) (dict_get h k [])"
  have big: "int (length ?dq) \<ge> int n" and r: "r = max 1 (py_trunc (60 - (now - hd ?dq)) + 1)"
    and h': "h' = AList.update k ?dq h"
    using assms(4) unfolding allow_cases [OF s h] by (auto split: if_splits)
  obtain t dq where dq: "?dq = t # dq" using big s by (cases ?dq) auto
  have ok': "hits_ok h'" unfolding h' by (rule hits_ok_update [OF h]) (simp add: dq)
  have "60 - (now - t) < of_int r" unfolding r dq by (simp add: py_trunc_def max_def) linarith
  then have old: "t < now' - 60" using assms(5) by linarith
  have "length ?dq \<le> n"
    using len length_dropWhile_le [of "\<lambda>t. t < now - 60" "dict_get h k []"]
    unfolding drop_old_def recent_hits_def by linarith
  then have "length dq < n" by (simp add: dq)
  moreover have "dict_get h' k [] = t # dq" using dq by (simp add: h')
  then have "drop_old (now' - 60) (dict_get h' k []) = drop_old (now' - 60) dq"
    using old by (simp add: drop_old_def)
  moreover have "length (drop_old (now' - 60) dq) \<le> length dq"
    by (simp add: drop_old_def length_dropWhile_le)
  ultimately have "\<not> int n \<le> int (length (drop_old (now' - 60) (dict_get h' k [])))" by simp
  then show ?thesis unfolding allow_cases [OF s ok'] by (simp add: r)
qed

theorem retry_after_sufficient_witness:
  "allow ''a'' (int 1) 60 10 (snd (admit_all (admit_hit 1) [(''a'', 0)] []))
     = (Some (False, 51), [(''a'', [0])])
   \<and> fst (allow ''a'' (int 1) 60 61 [(''a'', [0])]) = Some (True, 0)"
proof -
  have r: "allow ''a'' (int 1) 60 10 (snd (admit_all (admit_hit 1) [(''a'', 0)] []))
      = (Some (False, 51), [(''a'', [0])])" by code_simp
  have "fst (allow ''a'' (int 1) 60 61 [(''a'', [0])]) = Some (True, 0)"
    using retry_after_sufficient [OF _ _ refl r, of 61] by simp
  with r show ?thesis by blast
qed

text \<open>
  C39. Idle keys are never forgotten. The pruning step inside \<open>allow\<close> deletes keys whose deque
  is empty, but no deque is ever empty when it runs: the table holds every key ever seen.
\<close>

theorem idle_keys_accumulate:
  assumes "0 < n"
  shows "fst ` set (snd (admit_all (admit_hit n) cs [])) = fst ` set cs
    \<and> prune (snd (admit_all (admit_hit n) cs [])) = snd (admit_all (admit_hit n) cs [])"
proof -
  obtain m where n: "n = Suc m" using assms by (cases n) auto
  show ?thesis using admit_all_hits [OF no_hits(1,2), of m cs] by (simp add: n prune_ok)
qed

theorem idle_keys_accumulate_witness:
  "fst ` set (snd (admit_all (admit_hit 12) [(''a'', 0), (''b'', 1000000)] [])) = {''a'', ''b''}"
  using idle_keys_accumulate [of 12 "[(''a'', 0), (''b'', 1000000)]"] by simp


section \<open>The middleware\<close>

type_synonym arrival = "py_float \<times> int \<times> request" \<comment> \<open>clock, day of the year, request\<close>

definition called :: "(response \<times> bool) option \<Rightarrow> bool" where
  "called res = (case res of None \<Rightarrow> False | Some (_, c) \<Rightarrow> c)"

primrec mw_run ::
    "tunables \<Rightarrow> (request \<Rightarrow> response) \<Rightarrow> arrival list \<Rightarrow> guards \<Rightarrow> (arrival \<times> bool) list \<times> guards" where
  "mw_run cfg call_next [] g = ([], g)"
| "mw_run cfg call_next (x # xs) g =
     (case rate_limit_middleware cfg call_next (fst x) (fst (snd x)) (snd (snd x)) g of
        (res, g1) \<Rightarrow> (case mw_run cfg call_next xs g1 of (log1, g2) \<Rightarrow> ((x, called res) # log1, g2)))"

definition day_tracked :: "daily_cap \<Rightarrow> int list \<Rightarrow> bool" where
  "day_tracked c ds \<longleftrightarrow>
     (\<forall>d\<in>set ds. d \<le> cap_day c) \<and> int (count_list ds (cap_day c)) = cap_count c
     \<and> (\<forall>d. int (count_list ds d) \<le> cap c)"

lemma count_list_absent: "x \<notin> set xs \<Longrightarrow> count_list xs x = 0"
  by (simp add: count_list_0_iff)

lemma cap_allow_tracked:
  assumes "day_tracked c ds" and "cap_day c \<le> day" and "cap_allow day c = (ok, c')"
  shows "day_tracked c' (ds @ (if ok then [day] else [])) \<and> cap_day c' = day \<and> cap c' = cap c"
proof (cases "day = cap_day c")
  case True
  have b: "\<forall>d. int (count_list ds d) \<le> cap c" "int (count_list ds day) = cap_count c"
    "\<forall>d\<in>set ds. d \<le> day" using assms(1) True by (simp_all add: day_tracked_def)
  show ?thesis
  proof (cases "cap_count c \<ge> cap c")
    case full: True
    then show ?thesis using assms(1,3) True by (simp add: cap_allow_def Let_def)
  next
    case room: False
    then have "ok" "c' = c\<lparr>cap_count := cap_count c + 1\<rparr>"
      using assms(3) True by (simp_all add: cap_allow_def Let_def)
    with b room True show ?thesis by (simp add: day_tracked_def)
  qed
next
  case False
  then have "day \<notin> set ds" using assms(1,2) by (auto simp: day_tracked_def)
  then have z: "count_list ds day = 0" by (rule count_list_absent)
  have le: "\<forall>d\<in>set ds. d \<le> day" using assms(1,2) by (auto simp: day_tracked_def)
  have b: "\<forall>d. int (count_list ds d) \<le> cap c" using assms(1) by (simp add: day_tracked_def)
  show ?thesis
  proof (cases "0 \<ge> cap c")
    case full: True
    then have "\<not> ok" "c' = c\<lparr>cap_day := day, cap_count := 0\<rparr>"
      using assms(3) False by (simp_all add: cap_allow_def Let_def)
    with z le b show ?thesis by (simp add: day_tracked_def)
  next
    case room: False
    then have "ok" "c' = c\<lparr>cap_day := day, cap_count := 1\<rparr>"
      using assms(3) False by (simp_all add: cap_allow_def Let_def)
    with z le b room show ?thesis by (simp add: day_tracked_def)
  qed
qed

lemma check_limits_eq:
  assumes "RATE_PER_MIN cfg = int (Suc n)" "PLAYER_RATE_PER_MIN cfg = int (Suc m)"
    and "allow (''g:'' @ client_ip r) (int (Suc n)) 60 now (global_rl g) = (Some (okg, rg), hg)"
    and "allow (''p:'' @ client_ip r) (int (Suc m)) 60 now (player_rl g) = (Some (okp, rp), hp)"
  shows "check_limits cfg now r g =
    (Some (if okg \<and> is_riot (req_path r) then (okp, rp) else (okg, rg)),
     g\<lparr>global_rl := hg, player_rl := (if okg \<and> is_riot (req_path r) then hp else player_rl g)\<rparr>)"
  using assms by (simp add: check_limits_def)

text \<open>What one call of the middleware does to each of the three guards.\<close>

lemma middleware_step:
  assumes cfg: "RATE_PER_MIN cfg = int (Suc n)" "PLAYER_RATE_PER_MIN cfg = int (Suc m)" "0 < RIOT_DAILY_CAP cfg"
    and mw: "rate_limit_middleware cfg call_next now day r g = (res, g')"
  obtains okg okp okd where
    "admit_hit (Suc n) (''g:'' @ client_ip r) now (global_rl g) = (okg, global_rl g')"
    "okg \<and> is_riot (req_path r) \<Longrightarrow>
      admit_hit (Suc m) (''p:'' @ client_ip r) now (player_rl g) = (okp, player_rl g')"
    "\<not> (okg \<and> is_riot (req_path r)) \<Longrightarrow> player_rl g' = player_rl g"
    "okg \<and> (is_riot (req_path r) \<longrightarrow> okp) \<and> prefix ''/player/'' (req_path r) \<Longrightarrow>
      cap_allow day (riot_daily g) = (okd, riot_daily g')"
    "\<not> (okg \<and> (is_riot (req_path r) \<longrightarrow> okp) \<and> prefix ''/player/'' (req_path r)) \<Longrightarrow>
      riot_daily g' = riot_daily g"
    "called res \<longleftrightarrow> okg \<and> (is_riot (req_path r) \<longrightarrow> okp) \<and> (prefix ''/player/'' (req_path r) \<longrightarrow> okd)"
proof -
  obtain vg hg where ag: "allow (''g:'' @ client_ip r) (int (Suc n)) 60 now (global_rl g) = (Some vg, hg)"
    using allow_total [of "int (Suc n)" "''g:'' @ client_ip r" 60 now "global_rl g"]
    by (cases "allow (''g:'' @ client_ip r) (int (Suc n)) 60 now (global_rl g)") auto
  obtain vp hp where ap: "allow (''p:'' @ client_ip r) (int (Suc m)) 60 now (player_rl g) = (Some vp, hp)"
    using allow_total [of "int (Suc m)" "''p:'' @ client_ip r" 60 now "player_rl g"]
    by (cases "allow (''p:'' @ client_ip r) (int (Suc m)) 60 now (player_rl g)") auto
  obtain okg rg where vg: "vg = (okg, rg)" by (cases vg)
  obtain okp rp where vp: "vp = (okp, rp)" by (cases vp)
  obtain okd cd where d: "cap_allow day (riot_daily g) = (okd, cd)" by (cases "cap_allow day (riot_daily g)")
  let ?riot = "is_riot (req_path r)" and ?pl = "prefix ''/player/'' (req_path r)"
  let ?pass = "okg \<and> (?riot \<longrightarrow> okp)"
  note eq = mw [unfolded rate_limit_middleware_def
      check_limits_eq [OF cfg(1,2) ag [unfolded vg] ap [unfolded vp]]]
  have g': "global_rl g' = hg" "player_rl g' = (if okg \<and> ?riot then hp else player_rl g)"
    "riot_daily g' = (if ?pass \<and> ?pl then cd else riot_daily g)"
    "called res \<longleftrightarrow> ?pass \<and> (?pl \<longrightarrow> okd)"
    using eq d cfg(3) by (auto simp: called_def split: if_splits)
  show ?thesis
    by (rule that [of okg okp okd]) (use g' ag ap vg vp d in \<open>auto simp: admit_hit_def\<close>)
qed


abbreviation in_window :: "py_float \<Rightarrow> py_float \<Rightarrow> bool" where
  "in_window a t \<equiv> a \<le> t \<and> t \<le> a + 60"

definition served :: "(arrival \<times> bool) list \<Rightarrow> (arrival \<Rightarrow> bool) \<Rightarrow> nat" where
  "served xs P = length (filter (\<lambda>(x, c). c \<and> P x) xs)"

lemma served_Cons: "served ((x, c) # xs) P = (if c \<and> P x then 1 else 0) + served xs P"
  by (simp add: served_def)

definition hits_in :: "py_float \<Rightarrow> py_float list \<Rightarrow> nat" where
  "hits_in a L = length (filter (in_window a) L)"

lemma hits_in_append [simp]: "hits_in a (xs @ ys) = hits_in a xs + hits_in a ys"
  by (simp add: hits_in_def)

lemma hits_in_simps [simp]: "hits_in a [] = 0" "hits_in a [t] = (if in_window a t then 1 else 0)"
  by (simp_all add: hits_in_def)

text \<open>
  The guards in step with three ghost logs: the times at which \<open>ip\<close> passed the global limiter,
  those at which it passed the player limiter, and the days of the admitted player lookups.
\<close>

definition guards_tracked ::
    "nat \<Rightarrow> nat \<Rightarrow> string \<Rightarrow> guards \<Rightarrow> py_float list \<Rightarrow> py_float list \<Rightarrow> int list \<Rightarrow> py_float \<Rightarrow> bool" where
  "guards_tracked n m ip g Lg Lp ds T \<longleftrightarrow>
     hits_ok (global_rl g) \<and> hits_ok (player_rl g)
     \<and> tracked n 60 (recent_hits (global_rl g) (''g:'' @ ip)) Lg T
     \<and> tracked m 60 (recent_hits (player_rl g) (''p:'' @ ip)) Lp T
     \<and> day_tracked (riot_daily g) ds"

abbreviation global_pass :: "string \<Rightarrow> py_float \<Rightarrow> arrival \<Rightarrow> bool" where
  "global_pass ip a \<equiv> \<lambda>(now, day, r). client_ip r = ip \<and> in_window a now"

abbreviation player_pass :: "string \<Rightarrow> py_float \<Rightarrow> arrival \<Rightarrow> bool" where
  "player_pass ip a \<equiv> \<lambda>(now, day, r). client_ip r = ip \<and> is_riot (req_path r) \<and> in_window a now"

abbreviation lookup_on :: "int \<Rightarrow> arrival \<Rightarrow> bool" where
  "lookup_on d \<equiv> \<lambda>(now, day, r). prefix ''/player/'' (req_path r) \<and> day = d"

lemma middleware_tracked:
  assumes cfg: "RATE_PER_MIN cfg = int (Suc n)" "PLAYER_RATE_PER_MIN cfg = int (Suc m)" "0 < RIOT_DAILY_CAP cfg"
    and mw: "rate_limit_middleware cfg call_next now day r g = (res, g')"
    and tr: "guards_tracked (Suc n) (Suc m) ip g Lg Lp ds T" and T: "T \<le> now" and d: "cap_day (riot_daily g) \<le> day"
  shows "\<exists>Lg' Lp' ds'. guards_tracked (Suc n) (Suc m) ip g' (Lg @ Lg') (Lp @ Lp') (ds @ ds') now
    \<and> cap_day (riot_daily g') \<le> day \<and> cap (riot_daily g') = cap (riot_daily g)
    \<and> (\<forall>a. (if called res \<and> global_pass ip a (now, day, r) then 1 else 0) \<le> hits_in a Lg')
    \<and> (\<forall>a. (if called res \<and> player_pass ip a (now, day, r) then 1 else 0) \<le> hits_in a Lp')
    \<and> (\<forall>e. (if called res \<and> lookup_on e (now, day, r) then 1 else 0) \<le> count_list ds' e)"
proof -
  obtain okg okp okd where
    G: "admit_hit (Suc n) (''g:'' @ client_ip r) now (global_rl g) = (okg, global_rl g')"
    and P: "okg \<and> is_riot (req_path r) \<Longrightarrow>
      admit_hit (Suc m) (''p:'' @ client_ip r) now (player_rl g) = (okp, player_rl g')"
    and NP: "\<not> (okg \<and> is_riot (req_path r)) \<Longrightarrow> player_rl g' = player_rl g"
    and D: "okg \<and> (is_riot (req_path r) \<longrightarrow> okp) \<and> prefix ''/player/'' (req_path r) \<Longrightarrow>
      cap_allow day (riot_daily g) = (okd, riot_daily g')"
    and ND: "\<not> (okg \<and> (is_riot (req_path r) \<longrightarrow> okp) \<and> prefix ''/player/'' (req_path r)) \<Longrightarrow>
      riot_daily g' = riot_daily g"
    and C: "called res \<longleftrightarrow> okg \<and> (is_riot (req_path r) \<longrightarrow> okp) \<and> (prefix ''/player/'' (req_path r) \<longrightarrow> okd)"
    by (rule middleware_step [OF cfg mw]) blast
  note t = tr [unfolded guards_tracked_def]
  define Lg' where "Lg' = (if okg \<and> client_ip r = ip then [now] else [])"
  define riot where "riot \<longleftrightarrow> okg \<and> is_riot (req_path r)"
  define Lp' where "Lp' = (if riot \<and> okp \<and> client_ip r = ip then [now] else [])"
  define look where "look \<longleftrightarrow> okg \<and> (is_riot (req_path r) \<longrightarrow> okp) \<and> prefix ''/player/'' (req_path r)"
  define ds' where "ds' = (if look \<and> okd then [day] else [])"
  have g1: "hits_ok (global_rl g')" using sliding.admit_inv [OF _ G] t by blast
  have g2: "tracked (Suc n) 60 (recent_hits (global_rl g') (''g:'' @ ip)) (Lg @ Lg') now"
    using sliding.admit_tracked [OF _ T G, of "''g:'' @ ip" Lg] t by (simp add: Lg'_def)
  have p: "hits_ok (player_rl g') \<and> tracked (Suc m) 60 (recent_hits (player_rl g') (''p:'' @ ip)) (Lp @ Lp') now"
  proof (cases riot)
    case True
    note a = P [OF True [unfolded riot_def]]
    show ?thesis
      using sliding.admit_tracked [OF _ T a, of "''p:'' @ ip" Lp] sliding.admit_inv [OF _ a] t True
      by (simp add: Lp'_def)
  next
    case False
    then show ?thesis using NP [OF False [unfolded riot_def]] t tracked_later [OF _ T] by (simp add: Lp'_def)
  qed
  have c: "day_tracked (riot_daily g') (ds @ ds') \<and> cap_day (riot_daily g') \<le> day
      \<and> cap (riot_daily g') = cap (riot_daily g)"
  proof (cases look)
    case True
    show ?thesis using cap_allow_tracked [OF _ d D [OF True [unfolded look_def]], of ds] t True
      by (simp add: ds'_def)
  next
    case False
    then show ?thesis using ND [OF False [unfolded look_def]] t d by (simp add: ds'_def)
  qed
  have "guards_tracked (Suc n) (Suc m) ip g' (Lg @ Lg') (Lp @ Lp') (ds @ ds') now"
    using g1 g2 p c by (simp add: guards_tracked_def)
  moreover have "\<forall>a. (if called res \<and> global_pass ip a (now, day, r) then 1 else 0) \<le> hits_in a Lg'"
    by (auto simp: C Lg'_def)
  moreover have "\<forall>a. (if called res \<and> player_pass ip a (now, day, r) then 1 else 0) \<le> hits_in a Lp'"
    by (auto simp: C Lp'_def riot_def)
  moreover have "\<forall>e. (if called res \<and> lookup_on e (now, day, r) then 1 else 0) \<le> count_list ds' e"
    by (auto simp: C ds'_def look_def)
  ultimately show ?thesis using c by blast
qed


lemma mw_run_tracked:
  assumes cfg: "RATE_PER_MIN cfg = int (Suc n)" "PLAYER_RATE_PER_MIN cfg = int (Suc m)" "0 < RIOT_DAILY_CAP cfg"
    and "mw_run cfg call_next xs g = (out, g')"
    and "guards_tracked (Suc n) (Suc m) ip g Lg Lp ds T"
    and "sorted (map fst xs)" "\<forall>x\<in>set xs. T \<le> fst x"
    and "sorted (map (fst \<circ> snd) xs)" "\<forall>x\<in>set xs. cap_day (riot_daily g) \<le> fst (snd x)"
  shows "\<exists>Lg' Lp' ds' T'. guards_tracked (Suc n) (Suc m) ip g' (Lg @ Lg') (Lp @ Lp') (ds @ ds') T'
    \<and> cap (riot_daily g') = cap (riot_daily g)
    \<and> (\<forall>a. served out (global_pass ip a) \<le> hits_in a Lg')
    \<and> (\<forall>a. served out (player_pass ip a) \<le> hits_in a Lp')
    \<and> (\<forall>e. served out (lookup_on e) \<le> count_list ds' e)"
  using assms(4-)
proof (induction xs arbitrary: g Lg Lp ds T out)
  case Nil
  then show ?case
    by (intro exI [of _ "[]"] exI [of _ T]) (simp add: served_def)
next
  case (Cons x xs)
  obtain now day r where x: "x = (now, day, r)" by (cases x)
  obtain res g1 where mw: "rate_limit_middleware cfg call_next now day r g = (res, g1)"
    by (cases "rate_limit_middleware cfg call_next now day r g")
  obtain out1 where run: "mw_run cfg call_next xs g1 = (out1, g')" and out: "out = (x, called res) # out1"
    using Cons.prems(1) mw by (auto simp: x split: prod.splits)
  have T: "T \<le> now" and d: "cap_day (riot_daily g) \<le> day" using Cons.prems(4,6) by (simp_all add: x)
  from middleware_tracked [OF cfg mw Cons.prems(2) T d] obtain Lg1 Lp1 ds1 where
    t1: "guards_tracked (Suc n) (Suc m) ip g1 (Lg @ Lg1) (Lp @ Lp1) (ds @ ds1) now"
    and d1: "cap_day (riot_daily g1) \<le> day" and c1: "cap (riot_daily g1) = cap (riot_daily g)"
    and s1: "\<forall>a. (if called res \<and> global_pass ip a (now, day, r) then 1 else 0) \<le> hits_in a Lg1"
      "\<forall>a. (if called res \<and> player_pass ip a (now, day, r) then 1 else 0) \<le> hits_in a Lp1"
      "\<forall>e. (if called res \<and> lookup_on e (now, day, r) then 1 else 0) \<le> count_list ds1 e"
    by blast
  have rest: "sorted (map fst xs)" "\<forall>x\<in>set xs. now \<le> fst x" "sorted (map (fst \<circ> snd) xs)"
    "\<forall>x\<in>set xs. day \<le> fst (snd x)" using Cons.prems(3,5) by (auto simp: x comp_def)
  then have "\<forall>x\<in>set xs. cap_day (riot_daily g1) \<le> fst (snd x)" using d1 by auto
  from Cons.IH [OF run t1 rest(1-3) this] obtain Lg2 Lp2 ds2 T' where
    t2: "guards_tracked (Suc n) (Suc m) ip g' ((Lg @ Lg1) @ Lg2) ((Lp @ Lp1) @ Lp2) ((ds @ ds1) @ ds2) T'"
    and c2: "cap (riot_daily g') = cap (riot_daily g1)"
    and s2: "\<forall>a. served out1 (global_pass ip a) \<le> hits_in a Lg2"
      "\<forall>a. served out1 (player_pass ip a) \<le> hits_in a Lp2"
      "\<forall>e. served out1 (lookup_on e) \<le> count_list ds2 e" by blast
  have "\<forall>a. served out (global_pass ip a) \<le> hits_in a (Lg1 @ Lg2)"
    "\<forall>a. served out (player_pass ip a) \<le> hits_in a (Lp1 @ Lp2)"
    "\<forall>e. served out (lookup_on e) \<le> count_list (ds1 @ ds2) e"
    unfolding out x served_Cons hits_in_append count_list_append
    using s1 s2 add_mono by blast+
  moreover have "guards_tracked (Suc n) (Suc m) ip g' (Lg @ (Lg1 @ Lg2)) (Lp @ (Lp1 @ Lp2)) (ds @ (ds1 @ ds2)) T'"
    using t2 by simp
  moreover have "cap (riot_daily g') = cap (riot_daily g)" using c1 c2 by simp
  ultimately show ?case by blast
qed

lemma guards_tracked_new:
  "0 \<le> RIOT_DAILY_CAP cfg \<Longrightarrow> guards_tracked n m ip (new_guards cfg) [] [] [] T"
  by (simp add: guards_tracked_def new_guards_def new_daily_cap_def no_hits tracked_init day_tracked_def)

section \<open>Properties of the middleware\<close>

text \<open>
  C6. The middleware enforces all three limits. For any sequence of requests at non-decreasing
  times and days, and with the limits enabled: of the requests that reach the application, at
  most \<open>RATE_PER_MIN\<close> in any 60 seconds come from one client address, at most
  \<open>PLAYER_RATE_PER_MIN\<close> of them go to Riot-backed paths, and at most \<open>RIOT_DAILY_CAP\<close> player
  lookups are served on one day, over all clients.
\<close>

theorem middleware_limits:
  assumes "RATE_PER_MIN cfg > 0" "PLAYER_RATE_PER_MIN cfg > 0" "RIOT_DAILY_CAP cfg > 0"
    and "sorted (map fst xs)" and "sorted (map (fst \<circ> snd) xs)" and "\<forall>x\<in>set xs. 0 \<le> fst (snd x)"
  shows "let out = fst (mw_run cfg call_next xs (new_guards cfg)) in
      int (served out (\<lambda>(now, day, r). client_ip r = ip \<and> a \<le> now \<and> now \<le> a + 60)) \<le> RATE_PER_MIN cfg
    \<and> int (served out (\<lambda>(now, day, r). client_ip r = ip \<and> is_riot (req_path r) \<and> a \<le> now \<and> now \<le> a + 60))
        \<le> PLAYER_RATE_PER_MIN cfg
    \<and> int (served out (\<lambda>(now, day, r). prefix ''/player/'' (req_path r) \<and> day = d)) \<le> RIOT_DAILY_CAP cfg"
proof -
  obtain n where n: "RATE_PER_MIN cfg = int (Suc n)" using assms(1) by (metis zero_less_imp_eq_int gr0_implies_Suc)
  obtain m where m: "PLAYER_RATE_PER_MIN cfg = int (Suc m)" using assms(2) by (metis zero_less_imp_eq_int gr0_implies_Suc)
  obtain out g' where run: "mw_run cfg call_next xs (new_guards cfg) = (out, g')" by fastforce
  define T where "T = Min (insert 0 (fst ` set xs))"
  have T: "\<forall>x\<in>set xs. T \<le> fst x" by (simp add: T_def)
  have day: "\<forall>x\<in>set xs. cap_day (riot_daily (new_guards cfg)) \<le> fst (snd x)"
    using assms(6) by (auto simp: new_guards_def new_daily_cap_def)
  have "guards_tracked (Suc n) (Suc m) ip (new_guards cfg) [] [] [] T"
    using assms(3) by (simp add: guards_tracked_new)
  from mw_run_tracked [OF n m assms(3) run this assms(4) T assms(5) day] obtain Lg Lp ds T' where
    t: "guards_tracked (Suc n) (Suc m) ip g' Lg Lp ds T'"
    and c: "cap (riot_daily g') = cap (riot_daily (new_guards cfg))"
    and s: "\<forall>a. served out (global_pass ip a) \<le> hits_in a Lg"
      "\<forall>a. served out (player_pass ip a) \<le> hits_in a Lp"
      "\<forall>e. served out (lookup_on e) \<le> count_list ds e" by auto
  have "hits_in a Lg \<le> Suc n" "hits_in a Lp \<le> Suc m" "int (count_list ds d) \<le> RIOT_DAILY_CAP cfg"
    using t c by (auto simp: guards_tracked_def tracked_def hits_in_def day_tracked_def
        new_guards_def new_daily_cap_def)
  moreover have "served out (global_pass ip a) \<le> hits_in a Lg"
    "served out (player_pass ip a) \<le> hits_in a Lp" "served out (lookup_on d) \<le> count_list ds d"
    using s by blast+
  ultimately have "int (served out (global_pass ip a)) \<le> int (Suc n)"
    "int (served out (player_pass ip a)) \<le> int (Suc m)"
    "int (served out (lookup_on d)) \<le> RIOT_DAILY_CAP cfg" by linarith+
  then show ?thesis unfolding run Let_def n m by simp
qed

definition page :: "request \<Rightarrow> response" where
  "page r = \<lparr>status_code = 200, resp_headers = [], resp_body = Other ''ok''\<rparr>"

definition sample_request :: request where
  "sample_request = \<lparr>req_path = ''/player/x'', req_headers = [], req_client = Some ''1.2.3.4''\<rparr>"

theorem middleware_limits_witness:
  "let out = fst (mw_run \<lparr>RATE_PER_MIN = 5, PLAYER_RATE_PER_MIN = 2, RIOT_DAILY_CAP = 10\<rparr> page
        [(0, 1, sample_request), (1, 1, sample_request), (2, 1, sample_request)]
        (new_guards \<lparr>RATE_PER_MIN = 5, PLAYER_RATE_PER_MIN = 2, RIOT_DAILY_CAP = 10\<rparr>)) in
     map snd out = [True, True, False]
     \<and> int (served out (\<lambda>(now, day, r). client_ip r = ''1.2.3.4'' \<and> is_riot (req_path r) \<and> 0 \<le> now \<and> now \<le> 0 + 60)) \<le> 2"
proof -
  let ?cfg = "\<lparr>RATE_PER_MIN = 5, PLAYER_RATE_PER_MIN = 2, RIOT_DAILY_CAP = 10\<rparr>"
  let ?xs = "[(0 :: py_float, 1 :: int, sample_request), (1, 1, sample_request), (2, 1, sample_request)]"
  have "map snd (fst (mw_run ?cfg page ?xs (new_guards ?cfg))) = [True, True, False]" by code_simp
  moreover have "sorted (map fst ?xs)" "sorted (map (fst \<circ> snd) ?xs)" "\<forall>x\<in>set ?xs. 0 \<le> fst (snd x)"
    by simp_all
  note middleware_limits [OF _ _ _ this, of ?cfg page "''1.2.3.4''" 0 1]
  ultimately show ?thesis by (simp add: Let_def del: mw_run.simps)
qed

text \<open>
  Security headers reach exactly the served requests: a response of the application gets
  all four headers, while the middleware's own 429 and 503 responses carry none of them.
\<close>

theorem security_headers:
  assumes "rate_limit_middleware cfg call_next now day r g = (Some (resp, c), g')"
  shows "c \<and> {''X-Content-Type-Options'', ''X-Frame-Options'', ''Referrer-Policy'', ''Cache-Control''}
        \<subseteq> fst ` set (resp_headers resp) \<and> status_code resp = status_code (call_next r)
        \<and> resp_body resp = resp_body (call_next r)
    \<or> \<not> c \<and> status_code resp \<in> {429, 503} \<and>
      {''X-Content-Type-Options'', ''X-Frame-Options'', ''Referrer-Policy'', ''Cache-Control''}
        \<inter> fst ` set (resp_headers resp) = {}"
proof -
  have keys: "fst ` set (resp_headers (header_default k v x)) = insert k (fst ` set (resp_headers x))"
    "status_code (header_default k v x) = status_code x" "resp_body (header_default k v x) = resp_body x"
    for k v x by (simp_all add: header_default_def insert_absorb)
  have "resp = secure (call_next r) \<and> c \<or> (\<exists>retry. resp = limited_response retry) \<and> \<not> c
      \<or> resp = unavailable_response \<and> \<not> c"
    using assms by (auto simp: rate_limit_middleware_def split: prod.splits option.splits if_splits)
  then show ?thesis
    by (elim disjE conjE exE)
      (simp_all add: secure_def keys limited_response_def unavailable_response_def)
qed

theorem security_headers_witness:
  "\<exists>resp c g'. rate_limit_middleware default_tunables page 0 1 sample_request (new_guards default_tunables)
     = (Some (resp, c), g') \<and> c \<and> ''X-Frame-Options'' \<in> fst ` set (resp_headers resp)"
proof -
  let ?m = "rate_limit_middleware default_tunables page 0 1 sample_request (new_guards default_tunables)"
  have "(case fst ?m of None \<Rightarrow> False | Some (_, c) \<Rightarrow> c)" by code_simp
  then obtain resp g' where m: "?m = (Some (resp, True), g')"
    by (cases ?m) (auto split: option.splits)
  have "''X-Frame-Options'' \<in> fst ` set (resp_headers resp)" using security_headers [OF m] by simp
  then show ?thesis
    by (intro exI [of _ resp] exI [of _ True] exI [of _ g'] conjI) (rule m, simp_all)
qed


section \<open>Properties of the validators\<close>

lemma lower_length [simp]: "length (lower s) = length s"
  by (simp add: lower_def)

lemma lower_sublist: "sublist s t \<Longrightarrow> sublist (lower s) (lower t)"
  unfolding lower_def by (rule map_mono_sublist)

lemma clean_param_result:
  assumes "clean_param field (Some v) = Inr w"
  shows "w = strip v \<and> length w \<le> MAX_PARAM_LEN \<and> \<not> list_ex is_control w
    \<and> \<not> contains ''..'' w \<and> \<not> contains ''://'' (lower w)"
proof -
  have v: "w = strip v" "length v \<le> MAX_PARAM_LEN" "\<not> list_ex is_control v" "\<not> contains ''..'' v"
    "\<not> contains ''://'' (lower v)"
    using assms by (auto simp: clean_param_def split: if_splits)
  have "length w \<le> MAX_PARAM_LEN" using v(2) length_strip [of v] unfolding v(1) by (rule le_trans [rotated])
  moreover have "\<not> list_ex is_control w" using v(3) strip_set [of _ v] unfolding v(1) list_ex_iff by blast
  moreover have "\<not> contains ''..'' w"
    using v(4) sublist_order.order_trans [OF _ strip_sublist, of "''..''" v] unfolding v(1) contains_sublist by blast
  moreover have "\<not> contains ''://'' (lower w)"
    using v(5) sublist_order.order_trans [OF _ lower_sublist [OF strip_sublist], of "''://''" v]
    unfolding v(1) contains_sublist by blast
  ultimately show ?thesis using v(1) by blast
qed


definition riot_id_shape :: "string \<Rightarrow> bool" where
  "riot_id_shape s \<longleftrightarrow>
     (\<exists>nm. list_all name_char nm \<and> 1 \<le> length nm \<and> length nm \<le> 30 \<and>
        (s = nm \<or> (\<exists>tag. s = nm @ ''#'' @ tag \<and> list_all is_ascii_alnum tag \<and> 1 \<le> length tag \<and> length tag \<le> 10)))"

lemma name_char_not_hash: "name_char c \<Longrightarrow> c \<noteq> CHR ''#''"
  by (auto simp: name_char_def is_word_def in_ranges_def)

lemma code_lower: "code (lower_char c) = (if is_upper c then code c + 32 else code c)"
  by (auto simp: lower_char_def is_upper_def in_ranges_def)

lemma id_char_codes:
  assumes "name_char c \<or> c = CHR ''#'' \<or> is_ascii_alnum c"
  shows "32 \<le> code c \<and> code c \<noteq> 127 \<and> code c \<noteq> 58"
  using assms by (auto simp: name_char_def is_word_def is_ascii_alnum_def in_ranges_def)

lemma id_char_harmless:
  assumes "name_char c \<or> c = CHR ''#'' \<or> is_ascii_alnum c"
  shows "\<not> is_control c" and "lower_char c \<noteq> CHR '':''"
proof -
  note k = id_char_codes [OF assms]
  from k show "\<not> is_control c" by (simp add: is_control_def in_ranges_def)
  have "code (lower_char c) \<noteq> 58"
    using k by (auto simp: code_lower is_upper_def in_ranges_def)
  then show "lower_char c \<noteq> CHR '':''" by auto
qed

lemma id_chars:
  assumes "riot_id_shape s"
  shows "\<forall>c\<in>set s. name_char c \<or> c = CHR ''#'' \<or> is_ascii_alnum c" and "length s \<le> 41" and "s \<noteq> []"
  using assms unfolding riot_id_shape_def list_all_iff by (elim exE conjE disjE; force)+

lemma partition_at_name:
  assumes "list_all name_char nm"
  shows "partition_at (CHR ''#'') nm = (nm, [], [])"
    and "partition_at (CHR ''#'') (nm @ ''#'' @ tag) = (nm, ''#'', tag)"
proof -
  have nh: "\<forall>c\<in>set nm. c \<noteq> CHR ''#''" using assms name_char_not_hash by (auto simp: list_all_iff)
  then have d: "dropWhile (\<lambda>c. c \<noteq> CHR ''#'') nm = []" "takeWhile (\<lambda>c. c \<noteq> CHR ''#'') nm = nm"
    by (simp_all add: dropWhile_eq_Nil_conv takeWhile_eq_all_conv)
  show "partition_at (CHR ''#'') nm = (nm, [], [])"
    unfolding partition_at_def Let_def d by simp
  show "partition_at (CHR ''#'') (nm @ ''#'' @ tag) = (nm, ''#'', tag)"
    using nh by (simp add: partition_at_def Let_def takeWhile_append2 dropWhile_append2)
qed

lemma riot_id_match_shape: "riot_id_match s \<longleftrightarrow> riot_id_shape s"
proof
  assume m: "riot_id_match s"
  obtain nm sep tag where p: "partition_at (CHR ''#'') s = (nm, sep, tag)" by (metis surj_pair)
  have s: "s = nm @ sep @ tag" using partition_at_concat [of "CHR ''#''" s] p by simp
  have "sep = [] \<and> tag = [] \<or> sep = ''#''"
  proof (cases "dropWhile (\<lambda>c. c \<noteq> CHR ''#'') s")
    case Nil
    show ?thesis using p unfolding partition_at_def Let_def Nil by simp
  next
    case (Cons c r)
    then have "c = CHR ''#''" using hd_dropWhile [of "\<lambda>c. c \<noteq> CHR ''#''" s] by simp
    with Cons show ?thesis using p by (simp add: partition_at_def Let_def)
  qed
  with m p s show "riot_id_shape s"
    by (auto simp: riot_id_match_def riot_id_shape_def)
next
  assume "riot_id_shape s"
  then obtain nm where nm: "list_all name_char nm" "1 \<le> length nm" "length nm \<le> 30"
    and s: "s = nm \<or> (\<exists>tag. s = nm @ ''#'' @ tag \<and> list_all is_ascii_alnum tag \<and> 1 \<le> length tag \<and> length tag \<le> 10)"
    unfolding riot_id_shape_def by blast
  from s show "riot_id_match s"
    using nm partition_at_name [OF nm(1)] by (auto simp: riot_id_match_def simp del: append_Cons)
qed






text \<open>
  \<open>clamp\<close> forces its argument into the range, and the clamped value is the nearest one of the
  range.
\<close>

lemma clamp_nearest:
  assumes "lo \<le> hi"
  shows "lo \<le> clamp v lo hi \<and> clamp v lo hi \<le> hi \<and> (\<forall>w. lo \<le> w \<and> w \<le> hi \<longrightarrow> \<bar>v - clamp v lo hi\<bar> \<le> \<bar>v - w\<bar>)"
  using assms by (auto simp: clamp_def max_def min_def)

end
