(* ===== verification/Riot.thy ===== *)
theory Riot
  imports Py_Str Tft_Data
begin

text \<open>
  The Riot player lookup, \<open>api/riot.py\<close>: autocomplete, rank snapshots, the HTTP client with its
  single retry, the parsing of league entries and matches, and the assembly of a profile.

  Riot's answers are records whose fields may be absent (\<open>option\<close>), as \<open>dict.get\<close> reads them;
  HTTP is the parameter \<open>fetch\<close>, the n-th answer to a request for a host and path. The display
  tables of \<open>common/tft_data.py\<close> (icons and names) are the record \<open>display\<close>. Dates are their
  ISO strings, \<open>iso_date\<close> converts a Riot timestamp. Strings are Latin-1.
\<close>

section \<open>Static tables\<close>

definition ROUTING :: "(string, string \<times> string \<times> string) dict" where
  "ROUTING = [
    (''NA1'', ''na1'', ''americas'', ''americas''), (''NA'', ''na1'', ''americas'', ''americas''),
    (''BR1'', ''br1'', ''americas'', ''americas''), (''BR'', ''br1'', ''americas'', ''americas''),
    (''LAN'', ''la1'', ''americas'', ''americas''), (''LA1'', ''la1'', ''americas'', ''americas''),
    (''LAS'', ''la2'', ''americas'', ''americas''), (''LA2'', ''la2'', ''americas'', ''americas''),
    (''OCE'', ''oc1'', ''americas'', ''sea''), (''OC1'', ''oc1'', ''americas'', ''sea''),
    (''EUW'', ''euw1'', ''europe'', ''europe''), (''EUW1'', ''euw1'', ''europe'', ''europe''),
    (''EUNE'', ''eun1'', ''europe'', ''europe''), (''EUN1'', ''eun1'', ''europe'', ''europe''),
    (''EUNE1'', ''eun1'', ''europe'', ''europe''), (''TR'', ''tr1'', ''europe'', ''europe''),
    (''TR1'', ''tr1'', ''europe'', ''europe''), (''RU'', ''ru'', ''europe'', ''europe''),
    (''KR'', ''kr'', ''asia'', ''asia''), (''KR1'', ''kr'', ''asia'', ''asia''),
    (''JP'', ''jp1'', ''asia'', ''asia''), (''JP1'', ''jp1'', ''asia'', ''asia''),
    (''VN2'', ''vn2'', ''asia'', ''sea''), (''SG2'', ''sg2'', ''asia'', ''sea''),
    (''TW2'', ''tw2'', ''asia'', ''sea''), (''TH2'', ''th2'', ''asia'', ''sea''), (''PH2'', ''ph2'', ''asia'', ''sea'')]"

definition APEX :: "string list" where "APEX = [''MASTER'', ''GRANDMASTER'', ''CHALLENGER'']"

definition QUEUES :: "(int, string) dict" where
  "QUEUES = [(1100, ''Ranked''), (1090, ''Normal''), (1130, ''Hyper Roll''), (1160, ''Double Up''), (1170, ''Double Up'')]"

definition TRAIT_STYLES :: "(int, string) dict" where
  "TRAIT_STYLES = [(0, ''none''), (1, ''bronze''), (2, ''silver''), (3, ''gold''), (4, ''prismatic''), (5, ''prismatic'')]"

definition RARITY_COST :: "(int, int) dict" where
  "RARITY_COST = [(0, 1), (1, 2), (2, 3), (3, 4), (4, 4), (5, 5), (6, 5), (7, 6)]"

definition LADDER_T :: "string list" where
  "LADDER_T = [''IRON'', ''BRONZE'', ''SILVER'', ''GOLD'', ''PLATINUM'', ''EMERALD'', ''DIAMOND'']"

definition DIV_V :: "(string, int) dict" where
  "DIV_V = [(''IV'', 0), (''III'', 1), (''II'', 2), (''I'', 3), ('''', 0)]"

definition APEX_BASE :: "(string, int) dict" where
  "APEX_BASE = [(''MASTER'', 2800), (''GRANDMASTER'', 3300), (''CHALLENGER'', 3800)]"

section \<open>Case and prefixes\<close>

definition upper_char :: "char \<Rightarrow> string" where
  "upper_char c =
     (if code c = 0xDF then ''SS''
      else if in_ranges [(0x61, 0x7A), (0xE0, 0xF6), (0xF8, 0xFE)] c then [char_of (code c - 32)] else [c])"

definition upper :: "string \<Rightarrow> string" where
  "upper s = concat (map upper_char s)"

definition is_letter :: "char \<Rightarrow> bool" where
  "is_letter = in_ranges [(0x41, 0x5A), (0x61, 0x7A), (0xAA, 0xAA), (0xB5, 0xB5), (0xBA, 0xBA),
     (0xC0, 0xD6), (0xD8, 0xF6), (0xF8, 0xFF)]"

definition title_char :: "char \<Rightarrow> string" where
  "title_char c = (if code c = 0xDF then ''Ss'' else upper_char c)"

fun title_from :: "bool \<Rightarrow> string \<Rightarrow> string" where
  "title_from after [] = []"
| "title_from after (c # s) = (if after then [lower_char c] else title_char c) @ title_from (is_letter c) s"

definition title :: "string \<Rightarrow> string" where
  "title s = title_from False s"

text \<open>\<open>re.sub(r"^TFT\d*_...", "", s)\<close>: drop \<open>TFT\<close>, digits and the given rest when all are there.\<close>

definition strip_tft :: "string \<Rightarrow> string \<Rightarrow> string" where
  "strip_tft rest s =
     (let r = dropWhile is_digit (drop 3 s)
      in if prefix ''TFT'' s \<and> prefix rest r then drop (length rest) r else s)"

definition drop_trailing_digits :: "string \<Rightarrow> string" where
  "drop_trailing_digits s = rev (dropWhile is_digit (rev s))"

definition norm :: "string \<Rightarrow> string" where
  "norm s = filter (in_ranges [(0x61, 0x7A), (0x30, 0x39)]) (lower s)"

section \<open>Autocomplete\<close>

text \<open>The set of known ids is a list without repetitions.\<close>

definition KNOWN_IDS :: "string list" where "KNOWN_IDS = [''Hyperick#NA1'']"

definition register :: "string \<Rightarrow> string list \<Rightarrow> string list" where
  "register riot_id known =
     (if riot_id \<noteq> [] \<and> CHR ''#'' \<in> set riot_id then List.insert riot_id known else known)"

text \<open>
  \<open>order\<close> is the iteration order of the set: ids that agree up to case keep that order.
\<close>

definition suggest :: "(string list \<Rightarrow> string list) \<Rightarrow> string \<Rightarrow> int \<Rightarrow> string list \<Rightarrow> string list" where
  "suggest order q limit known =
     (let ql = lower (strip q);
          ids = sort_key lower (order known);
          ids = (if ql \<noteq> [] then
                   (let starts = filter (\<lambda>r. prefix ql (lower r)) ids;
                        others = filter (\<lambda>r. contains ql (lower r) \<and> r \<notin> set starts) ids
                    in starts @ others)
                 else ids)
      in py_take limit ids)"

section \<open>Rank snapshots\<close>

record rank =
  rk_tier :: string
  rk_division :: string
  rk_lp :: int
  rk_label :: string
  rk_wins :: int
  rk_losses :: int

record snapshot =
  sn_date :: string
  sn_tier :: string
  sn_division :: string
  sn_lp :: int
  sn_rating :: int
  sn_wins :: int
  sn_losses :: int
  sn_label :: string

text \<open>\<open>xs.index(x)\<close> of a present element.\<close>

fun index_of :: "'a \<Rightarrow> 'a list \<Rightarrow> nat" where
  "index_of x [] = 0"
| "index_of x (y # ys) = (if x = y then 0 else Suc (index_of x ys))"

definition rank_value :: "string \<Rightarrow> string \<Rightarrow> int \<Rightarrow> int" where
  "rank_value tr dv lp =
     (case map_of APEX_BASE tr of
        Some base \<Rightarrow> base + lp
      | None \<Rightarrow>
          if tr \<in> set LADDER_T then int (index_of tr LADDER_T) * 400 + dict_get DIV_V dv 0 * 100 + lp
          else 0)"

type_synonym rank_store = "(string, snapshot list) dict"

text \<open>
  The snapshot file: \<open>None\<close> when it is missing or unreadable. Writing goes through a temporary
  file; \<open>ok\<close> says whether that and the rename succeed, and a failure leaves the file as it was.
\<close>

definition load_store :: "rank_store option \<Rightarrow> rank_store" where
  "load_store file = (case file of Some store \<Rightarrow> store | None \<Rightarrow> [])"

definition save_store :: "bool \<Rightarrow> rank_store \<Rightarrow> rank_store option \<Rightarrow> rank_store option" where
  "save_store ok store file = (if ok then Some store else file)"

definition last_n :: "nat \<Rightarrow> 'a list \<Rightarrow> 'a list" where
  "last_n n xs = drop (length xs - n) xs"

definition snapshot_of :: "string \<Rightarrow> rank \<Rightarrow> snapshot" where
  "snapshot_of today rnk =
     \<lparr>sn_date = today, sn_tier = rk_tier rnk, sn_division = rk_division rnk, sn_lp = rk_lp rnk,
      sn_rating = rank_value (rk_tier rnk) (rk_division rnk) (rk_lp rnk),
      sn_wins = rk_wins rnk, sn_losses = rk_losses rnk, sn_label = rk_label rnk\<rparr>"

definition sig :: "snapshot \<Rightarrow> string \<times> string \<times> int" where
  "sig sn = (sn_tier sn, sn_division sn, sn_lp sn)"

definition add_snapshot :: "snapshot \<Rightarrow> snapshot list \<Rightarrow> snapshot list" where
  "add_snapshot snap hist =
     last_n 120
       (if hist \<noteq> [] \<and> sn_date (last hist) = sn_date snap then butlast hist @ [snap]
        else if hist = [] \<or> sig (last hist) \<noteq> sig snap then hist @ [snap]
        else hist)"

definition record_rank ::
    "bool \<Rightarrow> string \<Rightarrow> string \<Rightarrow> rank \<Rightarrow> rank_store option \<Rightarrow> snapshot list \<times> rank_store option" where
  "record_rank ok today pid rnk file =
     (let store = load_store file; hist = dict_get store pid [] in
      if rk_tier rnk = ''UNRANKED'' then (hist, file)
      else
        let hist = add_snapshot (snapshot_of today rnk) hist
        in (hist, save_store ok (AList.update pid hist store) file))"

section \<open>HTTP client\<close>

datatype retry_after =
    NoHeader
  | Seconds py_float
  | Garbled \<comment> \<open>not a finite number\<close>

datatype 'j http_answer =
    Body nat 'j \<comment> \<open>length in bytes, decoded JSON\<close>
  | BadJson nat \<comment> \<open>a body that is not JSON\<close>
  | Failure int string retry_after \<comment> \<open>\<open>HTTPError\<close>: code, reason, header\<close>
  | Unreachable string \<comment> \<open>\<open>URLError\<close> or timeout\<close>

text \<open>\<open>PyError\<close>: an exception of the language (\<open>ValueError\<close>, \<open>OverflowError\<close>), caught nowhere.\<close>

datatype riot_exc = RiotError string | PyError

definition MAX_RESPONSE_BYTES :: nat where "MAX_RESPONSE_BYTES = 8 * 1024 * 1024"

definition route :: "string \<Rightarrow> string \<times> string \<times> string" where
  "route tag = dict_get ROUTING (upper tag) (''na1'', ''americas'', ''americas'')"

text \<open>
  \<open>_get\<close>: \<open>fetch n\<close> is the answer to the request when \<open>n\<close> requests were made before it, so that
  Riot may answer the same question differently later; the second result counts the requests
  made so far. \<open>Inr None\<close> is the \<open>None\<close> returned for a 404. \<open>finish\<close> is what an attempt that is
  not repeated returns.
\<close>

definition finish :: "'j http_answer \<Rightarrow> riot_exc + 'j option" where
  "finish ans =
     (case ans of
        Body len j \<Rightarrow> if len > MAX_RESPONSE_BYTES then Inl (RiotError ''Riot API response too large'') else Inr (Some j)
      | BadJson len \<Rightarrow> if len > MAX_RESPONSE_BYTES then Inl (RiotError ''Riot API response too large'') else Inl PyError
      | Failure cde reason hdr \<Rightarrow>
          if cde = 404 then Inr None
          else if cde = 401 \<or> cde = 403 then Inl (RiotError ''invalid or expired RIOT_API_KEY (401/403)'')
          else Inl (RiotError (''Riot API '' @ show_int cde @ '' '' @ reason))
      | Unreachable msg \<Rightarrow> Inl (RiotError (''network error reaching Riot: '' @ msg)))"

definition can_sleep :: "retry_after \<Rightarrow> bool" where
  "can_sleep hdr = (case hdr of NoHeader \<Rightarrow> True | Seconds s \<Rightarrow> s + 0.2 \<ge> 0 | Garbled \<Rightarrow> False)"

function riot_get :: "(nat \<Rightarrow> 'j http_answer) \<Rightarrow> bool \<Rightarrow> nat \<Rightarrow> (riot_exc + 'j option) \<times> nat" where
  "riot_get fetch retried n =
     (case fetch n of
        Failure cde reason hdr \<Rightarrow>
          if cde = 429 \<and> \<not> retried then
            (if can_sleep hdr then riot_get fetch True (n + 1) else (Inl PyError, n + 1))
          else (finish (fetch n), n + 1)
      | _ \<Rightarrow> (finish (fetch n), n + 1))"
  by pat_completeness auto

termination
  by (relation "measure (\<lambda>(_, retried, _). if retried then 0 else 1)") auto

declare riot_get.simps [simp del]

section \<open>League entries and rounds\<close>

definition stage_round :: "int \<Rightarrow> string" where
  "stage_round last_round =
     (if last_round \<le> 3 then ''1-'' @ show_int (max 1 last_round)
      else let r = last_round - 3
           in show_int (2 + (r - 1) div 7) @ ''-'' @ show_int ((r - 1) mod 7 + 1))"

record league_entry =
  le_queueType :: "string option"
  le_tier :: "string option"
  le_rank :: "string option"
  le_leaguePoints :: "int option"
  le_wins :: "int option"
  le_losses :: "int option"

definition get_or :: "'a \<Rightarrow> 'a option \<Rightarrow> 'a" where
  "get_or d x = (case x of None \<Rightarrow> d | Some v \<Rightarrow> v)"

definition rank_from_league :: "league_entry option \<Rightarrow> rank" where
  "rank_from_league le =
     (case le of
        None \<Rightarrow> \<lparr>rk_tier = ''UNRANKED'', rk_division = [], rk_lp = 0, rk_label = ''Unranked'', rk_wins = 0, rk_losses = 0\<rparr>
      | Some e \<Rightarrow>
          (let tr = get_or ''UNRANKED'' (le_tier e); dv = get_or [] (le_rank e);
               lp = get_or 0 (le_leaguePoints e);
               apex = tr \<in> set APEX;
               dot = '' '' @ [CHR 0xB7] @ '' '';
               label = (if apex then title tr @ dot @ show_int lp @ '' LP''
                        else title tr @ '' '' @ dv @ dot @ show_int lp @ '' LP'')
           in \<lparr>rk_tier = tr, rk_division = (if apex then [] else dv), rk_lp = lp, rk_label = label,
               rk_wins = get_or 0 (le_wins e), rk_losses = get_or 0 (le_losses e)\<rparr>))"

section \<open>Requests\<close>

text \<open>\<open>urllib.parse.quote\<close>: UTF-8, then every byte that is not in the safe set as \<open>%XX\<close>.\<close>

definition utf8 :: "char \<Rightarrow> nat list" where
  "utf8 c = (if code c < 0x80 then [code c] else [0xC0 + code c div 64, 0x80 + code c mod 64])"

definition hex_digit :: "nat \<Rightarrow> char" where
  "hex_digit d = char_of (if d < 10 then 0x30 + d else 0x37 + d)"

definition quote_safe :: "char \<Rightarrow> bool" where
  "quote_safe c \<longleftrightarrow> is_ascii_alnum c \<or> c \<in> set ''_.-~/''"

definition quote :: "string \<Rightarrow> string" where
  "quote s = concat (map (\<lambda>c. if quote_safe c then [c]
      else concat (map (\<lambda>b. [CHR ''%'', hex_digit (b div 16), hex_digit (b mod 16)]) (utf8 c))) s)"

record riot_account =
  ac_puuid :: "string option"
  ac_gameName :: "string option"
  ac_tagLine :: "string option"

section \<open>Matches\<close>

record raw_unit =
  ru_character_id :: "string option"
  ru_itemNames :: "string list option"
  ru_tier :: "int option"
  ru_rarity :: "int option"

record raw_trait =
  rt_name :: "string option"
  rt_style :: "int option"
  rt_tier_current :: "int option"
  rt_num_units :: "int option"

record participant =
  pa_puuid :: "string option"
  pa_units :: "raw_unit list option"
  pa_traits :: "raw_trait list option"
  pa_placement :: "int option"
  pa_level :: "int option"
  pa_last_round :: "int option"
  pa_gold_left :: "int option"
  pa_damage :: "int option"
  pa_eliminated :: "int option"

record raw_match =
  rm_participants :: "participant list option"
  rm_game_datetime :: "int option"
  rm_queue_id :: "int option"
  rm_match_id :: "string option"

record display =
  champion_icons :: "(string, string) dict"
  item_icons :: "(string, string) dict"
  item_names :: "(string, string) dict"
  trait_by_norm :: "(string, string \<times> string) dict" \<comment> \<open>name and icon\<close>

record board_unit =
  bu_champion :: string
  bu_icon :: string
  bu_cost :: int
  bu_star :: int
  bu_items :: "(string \<times> string) list"
  bu_carry :: bool

record board_trait =
  bt_name :: string
  bt_count :: int
  bt_tier :: int
  bt_icon :: string
  bt_style :: string

record parsed_match =
  pm_match_id :: string
  pm_date :: string
  pm_timestamp :: int
  pm_queue :: string
  pm_placement :: int
  pm_level :: int
  pm_round :: string
  pm_gold_left :: int
  pm_damage :: int
  pm_eliminations :: int
  pm_traits :: "board_trait list"
  pm_units :: "board_unit list"

definition unit_cost :: "raw_unit \<Rightarrow> int" where
  "unit_cost u =
     (case map_of CHAMPION_COST (get_or [] (ru_character_id u)) of
        Some c \<Rightarrow> if c \<noteq> 0 then c else dict_get RARITY_COST (get_or 0 (ru_rarity u)) 1
      | None \<Rightarrow> dict_get RARITY_COST (get_or 0 (ru_rarity u)) 1)"

definition board_unit_of :: "display \<Rightarrow> raw_unit \<Rightarrow> board_unit" where
  "board_unit_of dsp u =
     (let cid = get_or [] (ru_character_id u)
      in \<lparr>bu_champion = cid, bu_icon = dict_get (champion_icons dsp) cid [], bu_cost = unit_cost u,
          bu_star = get_or 1 (ru_tier u),
          bu_items = map (\<lambda>it. (dict_get (item_names dsp) it (strip_tft ''_Item_'' it),
                                dict_get (item_icons dsp) it [])) (get_or [] (ru_itemNames u)),
          bu_carry = False\<rparr>)"

definition mark_carries :: "board_unit list \<Rightarrow> board_unit list" where
  "mark_carries us =
     (let cost_sorted = sort_key (\<lambda>i. - bu_cost (us ! i)) [0..<length us];
          carry_ids = take 2 cost_sorted
      in map (\<lambda>(i, un). un\<lparr>bu_carry := (i \<in> set carry_ids \<and> bu_cost un \<ge> 3)\<rparr>) (enumerate 0 us))"

definition board_trait_of :: "display \<Rightarrow> raw_trait \<Rightarrow> board_trait option" where
  "board_trait_of dsp t =
     (let style = get_or 0 (rt_style t); short = strip_tft ''_'' (get_or [] (rt_name t)) in
      if style \<le> 0 \<or> get_or 0 (rt_tier_current t) \<le> 0 then None
      else
        let meta = map_of (trait_by_norm dsp) (norm short) in
        Some \<lparr>bt_name = (case meta of Some (nm, _) \<Rightarrow> nm | None \<Rightarrow> short),
              bt_count = get_or 0 (rt_num_units t), bt_tier = get_or 0 (rt_tier_current t),
              bt_icon = (case meta of Some (_, ic) \<Rightarrow> ic | None \<Rightarrow> []),
              bt_style = dict_get TRAIT_STYLES style ''bronze''\<rparr>)"

definition parse_match :: "display \<Rightarrow> (int \<Rightarrow> string) \<Rightarrow> int \<Rightarrow> raw_match \<Rightarrow> string \<Rightarrow> parsed_match option" where
  "parse_match dsp iso_date now_ms raw pid =
     (case find (\<lambda>p. pa_puuid p = Some pid) (get_or [] (rm_participants raw)) of
        None \<Rightarrow> None
      | Some me \<Rightarrow>
          Some \<lparr>pm_match_id = get_or [] (rm_match_id raw),
            pm_date = iso_date (get_or now_ms (rm_game_datetime raw)),
            pm_timestamp = get_or 0 (rm_game_datetime raw),
            pm_queue = (case rm_queue_id raw of None \<Rightarrow> ''TFT'' | Some q \<Rightarrow> dict_get QUEUES q ''TFT''),
            pm_placement = get_or 8 (pa_placement me), pm_level = get_or 0 (pa_level me),
            pm_round = stage_round (get_or 0 (pa_last_round me)),
            pm_gold_left = get_or 0 (pa_gold_left me), pm_damage = get_or 0 (pa_damage me),
            pm_eliminations = get_or 0 (pa_eliminated me),
            pm_traits = sort_key (\<lambda>t. (- bt_tier t, - bt_count t))
              (List.map_filter (board_trait_of dsp) (get_or [] (pa_traits me))),
            pm_units = sort_key (\<lambda>x. (bu_cost x, bu_champion x))
              (mark_carries (map (board_unit_of dsp) (get_or [] (pa_units me))))\<rparr>)"

section \<open>Statistics of a profile\<close>

record stats =
  st_games :: int
  st_sample :: nat
  st_avg_placement :: py_float
  st_win_rate :: py_float
  st_top4_rate :: py_float
  st_firsts :: nat
  st_top4 :: nat
  st_top4_pct :: py_float
  st_won_pct :: py_float
  st_avg_level :: py_float
  st_avg_team_cost :: py_float
  st_avg_star_level :: py_float
  st_wins :: int
  st_losses :: int

text \<open>\<open>dist[min(8, max(1, p)) - 1] += 1\<close> for every placement.\<close>

definition bump :: "int \<Rightarrow> nat list \<Rightarrow> nat list" where
  "bump p cnts = (let i = nat (min 8 (max 1 p) - 1) in cnts[i := cnts ! i + 1])"

definition distribution :: "int list \<Rightarrow> nat list" where
  "distribution places = fold bump places (replicate 8 0)"

definition streak_of :: "int list \<Rightarrow> nat" where
  "streak_of places = length (takeWhile (\<lambda>p. p \<le> 4) places)"

definition star_gold :: "(int, int) dict" where "star_gold = [(1, 1), (2, 3), (3, 9)]"

definition usage_step ::
    "parsed_match \<Rightarrow> board_unit \<Rightarrow> string list \<times> (string, int) dict \<times> (string, py_float) dict \<Rightarrow>
     string list \<times> (string, int) dict \<times> (string, py_float) dict" where
  "usage_step m u = (\<lambda>(seen, cg, cp).
     let cid = bu_champion u in
     if cid \<in> set seen then (seen, cg, cp)
     else (cid # seen, AList.update cid (dict_get cg cid 0 + 1) cg,
           AList.update cid (dict_get cp cid 0 + of_int (pm_placement m)) cp))"

definition usage :: "parsed_match list \<Rightarrow> (string, int) dict \<times> (string, py_float) dict" where
  "usage ms = fold (\<lambda>m (cg, cp). snd (fold (usage_step m) (pm_units m) ([], cg, cp))) ms ([], [])"

definition most_played :: "parsed_match list \<Rightarrow> (string \<times> int \<times> py_float) list" where
  "most_played ms =
     (case usage ms of (cg, cp) \<Rightarrow>
        take 6 (sort_key (\<lambda>(_, g, _). - g)
          (map (\<lambda>(c, g). (c, g, py_round (dict_get cp c 0 / of_int g) 2)) cg)))"

definition carry_count :: "parsed_match list \<Rightarrow> (string, int) dict" where
  "carry_count ms =
     fold (\<lambda>u d. if bu_carry u \<and> bu_cost u \<ge> 4 then dict_incr (bu_champion u) 1 d else d)
       (concat (map pm_units ms)) []"

definition top_carry :: "display \<Rightarrow> parsed_match list \<Rightarrow> (string \<times> string \<times> string) option" where
  "top_carry dsp ms =
     (case carry_count ms of
        [] \<Rightarrow> None
      | kv # kvs \<Rightarrow>
          (let cid = fst (py_max snd kv kvs)
           in Some (cid, dict_get (champion_icons dsp) cid [], strip_tft ''_'' cid)))"

text \<open>The statistics part of \<open>build_player_profile\<close>; \<open>ranked\<close>: a league entry was found.\<close>

definition profile_stats :: "rank \<Rightarrow> bool \<Rightarrow> parsed_match list \<Rightarrow> stats" where
  "profile_stats current_rank ranked ms =
     (let places = map pm_placement ms; n = length ms;
          all_units = concat (map pm_units ms);
          top4 = length (filter (\<lambda>p. p \<le> 4) places); firsts = length (filter (\<lambda>p. p = 1) places)
      in \<lparr>st_games = (if ranked then rk_wins current_rank + rk_losses current_rank else int n),
          st_sample = n,
          st_avg_placement = py_round (of_int (sum_list places) / of_nat n) 2,
          st_win_rate = py_round (of_nat firsts / of_nat n) 4,
          st_top4_rate = py_round (of_nat top4 / of_nat n) 4,
          st_firsts = firsts, st_top4 = top4,
          st_top4_pct = py_round (of_nat top4 / of_nat n * 100) 1,
          st_won_pct = py_round (of_nat firsts / of_nat n * 100) 1,
          st_avg_level = py_round (of_int (sum_list (map pm_level ms)) / of_nat n) 2,
          st_avg_team_cost = py_round (of_int (sum_list (map (\<lambda>u. bu_cost u * dict_get star_gold (bu_star u) 1) all_units)) / of_nat n) 1,
          st_avg_star_level = py_round (of_int (sum_list (map bu_star all_units)) / of_nat (max 1 (length all_units))) 2,
          st_wins = rk_wins current_rank, st_losses = rk_losses current_rank\<rparr>)"

section \<open>The client and the profile\<close>

text \<open>
  Riot's API: for every kind of request its answers by host, path and number of requests made
  before. The state of the module: known ids, the snapshot file and the number of requests.
\<close>

record riot_api =
  api_account :: "string \<Rightarrow> string \<Rightarrow> nat \<Rightarrow> riot_account http_answer"
  api_league :: "string \<Rightarrow> string \<Rightarrow> nat \<Rightarrow> league_entry list http_answer"
  api_ids :: "string \<Rightarrow> string \<Rightarrow> nat \<Rightarrow> string list http_answer"
  api_match :: "string \<Rightarrow> string \<Rightarrow> nat \<Rightarrow> raw_match http_answer"

record riot_state =
  known_ids :: "string list"
  rank_file :: "rank_store option"
  requests :: nat

definition account :: "riot_api \<Rightarrow> string \<Rightarrow> string \<Rightarrow> nat \<Rightarrow> (riot_exc + riot_account option) \<times> nat" where
  "account api game_name tag =
     (case route tag of (_, acct_cluster, _) \<Rightarrow>
        riot_get (api_account api acct_cluster
          (''/riot/account/v1/accounts/by-riot-id/'' @ quote game_name @ ''/'' @ quote tag)) False)"

text \<open>\<open>x or []\<close> of an answer.\<close>

definition or_empty :: "(riot_exc + 'a list option) \<times> nat \<Rightarrow> (riot_exc + 'a list) \<times> nat" where
  "or_empty r = (case r of (Inl e, n) \<Rightarrow> (Inl e, n) | (Inr a, n) \<Rightarrow> (Inr (get_or [] a), n))"

definition league :: "riot_api \<Rightarrow> string \<Rightarrow> string \<Rightarrow> nat \<Rightarrow> (riot_exc + league_entry list) \<times> nat" where
  "league api pid platform n =
     or_empty (riot_get (api_league api platform (''/tft/league/v1/by-puuid/'' @ quote pid)) False n)"

definition match_ids :: "riot_api \<Rightarrow> string \<Rightarrow> string \<Rightarrow> int \<Rightarrow> nat \<Rightarrow> (riot_exc + string list) \<times> nat" where
  "match_ids api pid cluster cnt n =
     (let cnt = max 1 (min cnt 50)
      in or_empty (riot_get (api_ids api cluster
           (''/tft/match/v1/matches/by-puuid/'' @ quote pid @ ''/ids?count='' @ show_int cnt)) False n))"

definition get_match :: "riot_api \<Rightarrow> string \<Rightarrow> string \<Rightarrow> nat \<Rightarrow> (riot_exc + raw_match option) \<times> nat" where
  "get_match api mid cluster = riot_get (api_match api cluster (''/tft/match/v1/matches/'' @ quote mid)) False"

text \<open>\<open>for mid in ids: ...\<close> of \<open>build_player_profile\<close>.\<close>

primrec collect_matches ::
    "riot_api \<Rightarrow> (raw_match \<Rightarrow> parsed_match option) \<Rightarrow> string \<Rightarrow> string list \<Rightarrow> nat \<Rightarrow> (riot_exc + parsed_match list) \<times> nat" where
  "collect_matches api parse cluster [] n = (Inr [], n)"
| "collect_matches api parse cluster (mid # ids) n =
     (case get_match api mid cluster n of
        (Inl e, n') \<Rightarrow> (Inl e, n')
      | (Inr raw, n') \<Rightarrow>
          (case collect_matches api parse cluster ids n' of
             (Inl e, n'') \<Rightarrow> (Inl e, n'')
           | (Inr pms, n'') \<Rightarrow>
               (Inr (case Option.bind raw parse of None \<Rightarrow> pms | Some pm \<Rightarrow> pm # pms), n'')))"

record profile_head =
  ph_summoner_name :: string
  ph_game_name :: string
  ph_tag_line :: string
  ph_region :: string
  ph_current_rank :: rank
  ph_rank_history :: "snapshot list"
  ph_peak_rank :: "string \<times> string" \<comment> \<open>tier and label\<close>

record profile_body =
  pb_stats :: stats
  pb_distribution :: "(nat \<times> nat) list"
  pb_summary :: "py_float \<times> nat \<times> nat \<times> nat" \<comment> \<open>avg, top4, wins, streak\<close>
  pb_matches :: "parsed_match list"
  pb_most_played :: "(string \<times> int \<times> py_float) list"
  pb_top_carry :: "(string \<times> string \<times> string) option"

datatype profile =
    NotFound string
  | NoMatches profile_head
  | FullProfile profile_head profile_body

definition peak_of :: "rank \<Rightarrow> snapshot list \<Rightarrow> string \<times> string" where
  "peak_of current hist =
     (case hist of
        [] \<Rightarrow> (rk_tier current, rk_label current)
      | h # hs \<Rightarrow> (let peak = py_max sn_rating h hs in (sn_tier peak, sn_label peak)))"

definition body_of :: "display \<Rightarrow> rank \<Rightarrow> bool \<Rightarrow> parsed_match list \<Rightarrow> profile_body" where
  "body_of dsp current_rank ranked ms =
     (let ms = sort_desc pm_timestamp ms; places = map pm_placement ms;
          st = profile_stats current_rank ranked ms
      in \<lparr>pb_stats = st, pb_distribution = zip [1..<9] (distribution places),
          pb_summary = (st_avg_placement st, st_top4 st, st_firsts st, streak_of places),
          pb_matches = ms, pb_most_played = most_played ms, pb_top_carry = top_carry dsp ms\<rparr>)"

text \<open>
  \<open>build_player_profile\<close> in three parts: from the match ids on, from the league entries on, and
  the whole. The environment of a call is whether the snapshot file can be written, today's
  date, and the clock of \<open>parse_match\<close>.
\<close>

definition profile_from_matches ::
    "riot_api \<Rightarrow> display \<Rightarrow> (int \<Rightarrow> string) \<Rightarrow> int \<Rightarrow> string \<Rightarrow> string \<Rightarrow> bool \<Rightarrow> profile_head \<Rightarrow> nat \<Rightarrow>
     (riot_exc + profile) \<times> nat" where
  "profile_from_matches api dsp iso_date now_ms pid cluster ranked head n =
     (case match_ids api pid cluster 20 n of
        (Inl e, n) \<Rightarrow> (Inl e, n)
      | (Inr ids, n) \<Rightarrow>
        (case collect_matches api (\<lambda>raw. parse_match dsp iso_date now_ms raw pid) cluster ids n of
           (Inl e, n) \<Rightarrow> (Inl e, n)
         | (Inr ms, n) \<Rightarrow>
             (Inr (if ms = [] then NoMatches head
                   else FullProfile head (body_of dsp (ph_current_rank head) ranked ms)), n)))"

definition profile_of_account ::
    "riot_api \<Rightarrow> display \<Rightarrow> (int \<Rightarrow> string) \<Rightarrow> int \<Rightarrow> bool \<Rightarrow> string \<Rightarrow> string \<Rightarrow> string \<Rightarrow>
     string \<Rightarrow> string \<Rightarrow> string \<Rightarrow> string \<Rightarrow> riot_state \<Rightarrow> (riot_exc + profile) \<times> riot_state" where
  "profile_of_account api dsp iso_date now_ms ok today platform cluster display_id pid game_name tag st =
     (case league api pid platform (requests st) of
        (Inl e, n) \<Rightarrow> (Inl e, st\<lparr>requests := n\<rparr>)
      | (Inr es, n) \<Rightarrow>
        let ranked = find (\<lambda>e. le_queueType e = Some ''RANKED_TFT'') es;
            current_rank = rank_from_league ranked;
            (rank_history, file) = record_rank ok today pid current_rank (rank_file st);
            head = \<lparr>ph_summoner_name = display_id, ph_game_name = game_name, ph_tag_line = tag,
                  ph_region = (case upper (drop_trailing_digits tag) of [] \<Rightarrow> ''NA'' | r \<Rightarrow> r),
                  ph_current_rank = current_rank, ph_rank_history = rank_history,
                  ph_peak_rank = peak_of current_rank rank_history\<rparr>;
            (r, n) = profile_from_matches api dsp iso_date now_ms pid cluster (ranked \<noteq> None) head n
        in (r, st\<lparr>rank_file := file, requests := n\<rparr>))"

definition build_player_profile ::
    "riot_api \<Rightarrow> display \<Rightarrow> (int \<Rightarrow> string) \<Rightarrow> int \<Rightarrow> bool \<Rightarrow> string \<Rightarrow> string \<Rightarrow> string \<Rightarrow> riot_state \<Rightarrow>
     (riot_exc + profile) \<times> riot_state" where
  "build_player_profile api dsp iso_date now_ms ok today game_name tag st =
     (case route tag of (platform, _, cluster) \<Rightarrow>
      let display_id = (if tag \<noteq> [] then game_name @ ''#'' @ tag else game_name) in
      case account api game_name tag (requests st) of
        (Inl e, n) \<Rightarrow> (Inl e, st\<lparr>requests := n\<rparr>)
      | (Inr None, n) \<Rightarrow> (Inr (NotFound display_id), st\<lparr>requests := n\<rparr>)
      | (Inr (Some acct), n) \<Rightarrow>
        (case ac_puuid acct of
           None \<Rightarrow> (Inr (NotFound display_id), st\<lparr>requests := n\<rparr>)
         | Some pid \<Rightarrow>
           let game_name = get_or game_name (ac_gameName acct);
               tag = get_or tag (ac_tagLine acct);
               st = st\<lparr>known_ids := register (game_name @ ''#'' @ tag) (known_ids st), requests := n\<rparr>
           in profile_of_account api dsp iso_date now_ms ok today platform cluster display_id pid game_name tag st))"

section \<open>The client\<close>

lemma riot_get_once: "riot_get fetch True n = (finish (fetch n), n + 1)"
  by (simp add: riot_get.simps [of fetch True] split: http_answer.split)

text \<open>The answer that is repeated: a 429 whose waiting time can be slept.\<close>

definition limited :: "'j http_answer \<Rightarrow> bool" where
  "limited ans = (case ans of Failure cde _ hdr \<Rightarrow> cde = 429 \<and> can_sleep hdr | _ \<Rightarrow> False)"

lemma riot_get_limited: "limited (fetch n) \<Longrightarrow> riot_get fetch False n = (finish (fetch (n + 1)), n + 2)"
  using riot_get_once [of fetch "n + 1"]
  by (auto simp: riot_get.simps [of fetch False] limited_def split: http_answer.splits)

lemma riot_get_other:
  assumes "\<not> limited (fetch n)"
  shows "\<exists>r. riot_get fetch False n = (r, n + 1) \<and> (\<forall>a. r = Inr a \<longrightarrow> r = finish (fetch n))"
  using assms
  by (auto simp: riot_get.simps [of fetch False] limited_def split: http_answer.splits)

lemma riot_get_result:
  obtains r k where "riot_get fetch False n = (r, n + k)" "k = 1 \<or> k = 2 \<and> limited (fetch n)"
    "\<And>a. r = Inr a \<Longrightarrow> finish (fetch (n + k - 1)) = Inr a"
proof (cases "limited (fetch n)")
  case True
  with riot_get_limited [of fetch n] that [of "finish (fetch (n + 1))" 2] show thesis by simp
next
  case False
  from riot_get_other [of fetch n, OF this] obtain r where
    "riot_get fetch False n = (r, n + 1)" "\<forall>a. r = Inr a \<longrightarrow> r = finish (fetch n)" by blast
  with that [of r 1] show thesis by simp
qed

lemma riot_get_requests: "riot_get fetch False n = (r, n') \<Longrightarrow> n < n' \<and> n' \<le> n + 2"
  by (rule riot_get_result [of fetch n]) auto

lemma finish_body:
  "finish ans = Inr (Some j) \<longleftrightarrow> (\<exists>len. ans = Body len j \<and> len \<le> MAX_RESPONSE_BYTES)"
  by (auto simp: finish_def split: http_answer.splits if_splits)

lemma finish_None: "finish ans = Inr None \<longleftrightarrow> (\<exists>reason hdr. ans = Failure 404 reason hdr)"
  by (auto simp: finish_def split: http_answer.splits if_splits)

lemma or_empty_result:
  assumes "or_empty (riot_get fetch False n) = (r, n')"
  shows "n < n'" "n' \<le> n + 2" and "r = Inr xs \<Longrightarrow> xs = [] \<or> (\<exists>i len. fetch i = Body len xs)"
proof -
  obtain q k where g: "riot_get fetch False n = (q, n + k)" and k: "k = 1 \<or> k = 2 \<and> limited (fetch n)"
    and ok: "\<And>a. q = Inr a \<Longrightarrow> finish (fetch (n + k - 1)) = Inr a"
    using riot_get_result [of fetch n] by blast
  have n': "n' = n + k" using assms by (auto simp: or_empty_def g split: sum.splits)
  then show "n < n'" "n' \<le> n + 2" using k by auto
  assume "r = Inr xs"
  with assms obtain a where "q = Inr a" "xs = get_or [] a" by (auto simp: or_empty_def g split: sum.splits)
  with ok [of a] finish_body [of "fetch (n + k - 1)" xs]
  show "xs = [] \<or> (\<exists>i len. fetch i = Body len xs)" by (cases a) (auto simp: get_or_def)
qed

lemma collect_matches_requests:
  "collect_matches api parse cluster ids n = (r, n') \<Longrightarrow> n' \<le> n + 2 * length ids"
proof (induction ids arbitrary: n r n')
  case (Cons mid ids)
  obtain q k where g: "get_match api mid cluster n = (q, n + k)" and k: "k \<le> 2"
    unfolding get_match_def
    using riot_get_result [of "api_match api cluster (''/tft/match/v1/matches/'' @ quote mid)" n]
    by (metis One_nat_def le_refl one_le_numeral)
  show ?case
  proof (cases q)
    case (Inl e)
    with Cons.prems g k show ?thesis by simp
  next
    case (Inr raw)
    obtain r' m where c: "collect_matches api parse cluster ids (n + k) = (r', m)" by fastforce
    with Cons.prems g Inr have "n' = m" by (cases r') auto
    with Cons.IH [OF c] k show ?thesis by simp
  qed
qed simp

lemma collect_matches_mono: "collect_matches api parse cluster ids n = (r, n') \<Longrightarrow> n \<le> n'"
proof (induction ids arbitrary: n r n')
  case (Cons mid ids)
  obtain q m where g: "get_match api mid cluster n = (q, m)" by fastforce
  have "n < m" using riot_get_requests g unfolding get_match_def by blast
  with Cons g show ?case by (fastforce split: sum.splits prod.splits option.splits)
qed simp

section \<open>Effects of a lookup\<close>

lemma record_rank_other:
  assumes "record_rank ok today pid rnk file = (h, file')" "p \<noteq> pid"
  shows "dict_get (load_store file') p d = dict_get (load_store file) p d"
  using assms
  by (auto simp: record_rank_def save_store_def load_store_def Let_def dict_get_def split: if_splits option.splits)


text \<open>The rank file after a sequence of lookups.\<close>

type_synonym rank_lookup = "bool \<times> string \<times> string \<times> rank"

definition record_ranks :: "rank_lookup list \<Rightarrow> rank_store option \<Rightarrow> rank_store option" where
  "record_ranks ls file =
     fold (\<lambda>(ok, today, pid, rnk) f. snd (record_rank ok today pid rnk f)) ls file"

abbreviation history :: "rank_store option \<Rightarrow> string \<Rightarrow> snapshot list" where
  "history file pid \<equiv> dict_get (load_store file) pid []"

definition history_ok :: "string \<Rightarrow> snapshot list \<Rightarrow> bool" where
  "history_ok d h \<longleftrightarrow> sorted_wrt (<) (map sn_date h) \<and> (\<forall>s\<in>set h. sn_date s \<le> d) \<and> length h \<le> 120"

lemma last_n_facts [simp]: "length (last_n n xs) = min n (length xs)" "set (last_n n xs) \<subseteq> set xs"
  by (auto simp: last_n_def dest: in_set_dropD)

lemma sorted_wrt_last_n: "sorted_wrt P xs \<Longrightarrow> sorted_wrt P (last_n n xs)"
  by (simp add: last_n_def sorted_wrt_drop)

lemma map_last_n: "map f (last_n n xs) = last_n n (map f xs)"
  by (simp add: last_n_def drop_map)

lemma last_last_n [simp]: "0 < n \<Longrightarrow> last (last_n n xs) = last xs"
  by (cases "xs = []") (simp_all add: last_n_def)

lemma last_n_eq_Nil [simp]: "0 < n \<Longrightarrow> last_n n xs = [] \<longleftrightarrow> xs = []"
  by (cases xs) (auto simp: last_n_def)

lemma history_ok_drop: "history_ok d xs \<Longrightarrow> sorted_wrt (<) (map sn_date ys) \<Longrightarrow> set ys \<subseteq> set xs \<Longrightarrow>
    length ys \<le> 120 \<Longrightarrow> history_ok d ys"
  by (auto simp: history_ok_def)

lemma sorted_dates_snoc:
  "sorted_wrt (<) (map sn_date h) \<Longrightarrow> (\<And>s. s \<in> set h \<Longrightarrow> sn_date s < sn_date x) \<Longrightarrow>
   sorted_wrt (<) (map sn_date (h @ [x]))"
  by (auto simp: sorted_wrt_append)

lemma butlast_dates_less:
  assumes "sorted_wrt (<) (map sn_date h)" "h \<noteq> []" "s \<in> set (butlast h)"
  shows "sn_date s < sn_date (last h)"
proof -
  have "sorted_wrt (<) (map sn_date (butlast h @ [last h]))" using assms(1,2) by simp
  then show ?thesis using assms(3) by (simp add: sorted_wrt_append)
qed

lemma add_snapshot_subset: "set (add_snapshot x h) \<subseteq> insert x (set h)"
  unfolding add_snapshot_def by (rule subset_trans [OF last_n_facts(2)]) (auto dest: in_set_butlastD)

lemma add_snapshot_last: "add_snapshot x h \<noteq> [] \<and> sig (last (add_snapshot x h)) = sig x"
  by (auto simp: add_snapshot_def)

lemma add_snapshot_ok:
  assumes h: "history_ok d h" and le: "d \<le> sn_date x"
  shows "history_ok (sn_date x) (add_snapshot x h)"
proof -
  let ?ys = "if h \<noteq> [] \<and> sn_date (last h) = sn_date x then butlast h @ [x]
     else if h = [] \<or> sig (last h) \<noteq> sig x then h @ [x] else h"
  have dates: "sn_date s \<le> sn_date x" if "s \<in> set h" for s
    using h le that by (auto simp: history_ok_def)
  have s: "sorted_wrt (<) (map sn_date h)" using h by (simp add: history_ok_def)
  have lt: "sn_date s < sn_date x" if s_in: "s \<in> set h" and "h \<noteq> []" and ne: "sn_date (last h) \<noteq> sn_date x" for s
  proof (cases "s \<in> set (butlast h)")
    case True
    then show ?thesis using butlast_dates_less [OF s \<open>h \<noteq> []\<close> True] dates [of "last h"] \<open>h \<noteq> []\<close> by simp
  next
    case False
    moreover have "s \<in> set (butlast h @ [last h])" using s_in \<open>h \<noteq> []\<close> by simp
    ultimately have "s = last h" by simp
    then show ?thesis using ne dates [OF s_in] by simp
  qed
  have "sorted_wrt (<) (map sn_date ?ys)"
  proof (cases "h \<noteq> [] \<and> sn_date (last h) = sn_date x")
    case True
    moreover have "sorted_wrt (<) (map sn_date (butlast h))"
      using sorted_wrt_take [OF s, of "length h - 1"] by (simp add: take_map butlast_conv_take)
    ultimately show ?thesis using butlast_dates_less [OF s] by (auto intro!: sorted_dates_snoc simp del: map_append)
  next
    case False
    then show ?thesis using s lt by (cases "h = []") (auto intro!: sorted_dates_snoc simp del: map_append)
  qed
  then have "sorted_wrt (<) (map sn_date (add_snapshot x h))"
    by (simp only: add_snapshot_def map_last_n sorted_wrt_last_n)
  moreover have "length (add_snapshot x h) \<le> 120" by (simp add: add_snapshot_def)
  moreover have "\<forall>s\<in>set (add_snapshot x h). sn_date s \<le> sn_date x"
    using add_snapshot_subset [of x h] dates by blast
  ultimately show ?thesis by (simp add: history_ok_def)
qed


lemma record_rank_history:
  "history (snd (record_rank ok today pid rnk file)) p =
     (if p = pid \<and> ok \<and> rk_tier rnk \<noteq> ''UNRANKED'' then add_snapshot (snapshot_of today rnk) (history file pid)
      else history file p)"
  by (auto simp: record_rank_def save_store_def load_store_def Let_def)

lemma record_ranks_snoc:
  "record_ranks (ls @ [(ok, today, pid, rnk)]) file = snd (record_rank ok today pid rnk (record_ranks ls file))"
  by (simp add: record_ranks_def)

abbreviation lookup_date :: "rank_lookup \<Rightarrow> string" where
  "lookup_date l \<equiv> fst (snd l)"

lemma record_ranks_ok:
  "sorted (map lookup_date ls) \<Longrightarrow> (\<And>l. l \<in> set ls \<Longrightarrow> lookup_date l \<le> d) \<Longrightarrow>
   history_ok d (history (record_ranks ls None) p)"
proof (induction ls arbitrary: d p rule: rev_induct)
  case Nil
  then show ?case by (simp add: record_ranks_def load_store_def history_ok_def)
next
  case (snoc l ls)
  obtain ok today pid rnk where l: "l = (ok, today, pid, rnk)" by (cases l)
  have "history_ok today (history (record_ranks ls None) q)" for q
    using snoc.prems(1) by (intro snoc.IH) (auto simp: sorted_append l)
  from add_snapshot_ok [OF this, of "snapshot_of today rnk"] this
  have "history_ok today (history (record_ranks (ls @ [l]) None) p)"
    by (simp add: l record_ranks_snoc record_rank_history snapshot_of_def)
  then show ?case using snoc.prems(2) [of l] by (auto simp: history_ok_def l)
qed

lemma record_ranks_recorded:
  "s \<in> set (history (record_ranks ls None) p) \<Longrightarrow>
   \<exists>(ok, today, pid, rnk)\<in>set ls. ok \<and> pid = p \<and> rk_tier rnk \<noteq> ''UNRANKED'' \<and> s = snapshot_of today rnk"
proof (induction ls rule: rev_induct)
  case Nil
  then show ?case by (simp add: record_ranks_def load_store_def)
next
  case (snoc l ls)
  obtain ok today pid rnk where l: "l = (ok, today, pid, rnk)" by (cases l)
  show ?case
  proof (cases "s \<in> set (history (record_ranks ls None) p)")
    case True
    from snoc.IH [OF this] show ?thesis by auto
  next
    case False
    with snoc.prems have "p = pid" "ok" "rk_tier rnk \<noteq> ''UNRANKED''"
      "s \<in> set (add_snapshot (snapshot_of today rnk) (history (record_ranks ls None) pid))"
      by (auto simp: l record_ranks_snoc record_rank_history split: if_splits)
    with False add_snapshot_subset show ?thesis by (auto simp: l)
  qed
qed

lemma sorted_le_last: "sorted xs \<Longrightarrow> x \<in> set xs \<Longrightarrow> x \<le> last xs"
  by (cases xs rule: rev_cases) (auto simp: sorted_append)

lemma record_ranks_last:
  assumes "ls \<noteq> []" "last ls = (True, today, p, rnk)" "rk_tier rnk \<noteq> ''UNRANKED''"
  shows "history (record_ranks ls None) p \<noteq> []
    \<and> sig (last (history (record_ranks ls None) p)) = (rk_tier rnk, rk_division rnk, rk_lp rnk)"
proof -
  from assms(1,2) have "ls = butlast ls @ [(True, today, p, rnk)]" by (metis append_butlast_last_id)
  then have "history (record_ranks ls None) p =
      add_snapshot (snapshot_of today rnk) (history (record_ranks (butlast ls) None) p)"
    using assms(3) record_ranks_snoc [of "butlast ls" True today p rnk None]
    by (simp add: record_rank_history)
  then show ?thesis
    using add_snapshot_last [of "snapshot_of today rnk"] by (simp add: sig_def snapshot_of_def)
qed

text \<open>
  C9. Rank snapshots. Over any sequence of lookups on non-decreasing days, starting without a
  snapshot file, the history kept for a player has at most 120 snapshots, at most one per day in
  strictly increasing order of dates, every one of them taken from a ranked lookup of that
  player; and after a ranked lookup that could be saved, the last snapshot shows the player's
  tier, division and league points of that lookup.
\<close>

theorem rank_history:
  assumes "sorted (map lookup_date ls)"
  shows "length (history (record_ranks ls None) p) \<le> 120
    \<and> sorted_wrt (<) (map sn_date (history (record_ranks ls None) p))
    \<and> (\<forall>s\<in>set (history (record_ranks ls None) p).
         \<exists>(ok, today, pid, rnk)\<in>set ls. ok \<and> pid = p \<and> rk_tier rnk \<noteq> ''UNRANKED'' \<and> s = snapshot_of today rnk)
    \<and> (\<forall>today rnk. ls \<noteq> [] \<and> last ls = (True, today, p, rnk) \<and> rk_tier rnk \<noteq> ''UNRANKED'' \<longrightarrow>
         history (record_ranks ls None) p \<noteq> []
         \<and> sig (last (history (record_ranks ls None) p)) = (rk_tier rnk, rk_division rnk, rk_lp rnk))"
proof -
  have "history_ok (last (map lookup_date ls)) (history (record_ranks ls None) p)"
    by (rule record_ranks_ok [OF assms]) (simp add: sorted_le_last [OF assms])
  then have ok: "length (history (record_ranks ls None) p) \<le> 120"
      "sorted_wrt (<) (map sn_date (history (record_ranks ls None) p))"
    by (simp_all add: history_ok_def)
  show ?thesis
    by (intro conjI allI impI ballI ok record_ranks_recorded record_ranks_last [THEN conjunct1]
        record_ranks_last [THEN conjunct2]; (assumption | elim conjE; assumption)?)
qed

definition silver :: "string \<Rightarrow> int \<Rightarrow> rank" where
  "silver dv lp = \<lparr>rk_tier = ''SILVER'', rk_division = dv, rk_lp = lp, rk_label = [], rk_wins = 1, rk_losses = 0\<rparr>"

theorem rank_history_witness:
  "sorted_wrt (<) (map sn_date (history (record_ranks
      [(True, ''2025-01-02'', ''p'', silver ''I'' 10), (True, ''2025-01-02'', ''p'', silver ''I'' 40),
       (True, ''2025-01-05'', ''p'', silver ''I'' 60)] None) ''p''))
   \<and> sig (last (history (record_ranks
      [(True, ''2025-01-02'', ''p'', silver ''I'' 10), (True, ''2025-01-02'', ''p'', silver ''I'' 40),
       (True, ''2025-01-05'', ''p'', silver ''I'' 60)] None) ''p'')) = (''SILVER'', ''I'', 60)"
proof -
  let ?ls = "[(True, ''2025-01-02'', ''p'', silver ''I'' 10), (True, ''2025-01-02'', ''p'', silver ''I'' 40),
       (True, ''2025-01-05'', ''p'', silver ''I'' 60)]"
  have s: "sorted (map lookup_date ?ls)" by code_simp
  have r: "rk_tier (silver ''I'' 60) = ''SILVER''" "rk_division (silver ''I'' 60) = ''I''" "rk_lp (silver ''I'' 60) = 60"
    by (simp_all add: silver_def)
  note h = rank_history [OF s, of "''p''"]
  show ?thesis
    using h [THEN conjunct2, THEN conjunct1]
      h [THEN conjunct2, THEN conjunct2, THEN conjunct2, rule_format, of "''2025-01-05''" "silver ''I'' 60", unfolded r]
    by simp
qed

section \<open>Rounds\<close>

text \<open>The number of the round that a stage and round name: stage 1 has three rounds, the others seven.\<close>

definition round_number :: "string \<Rightarrow> int option" where
  "round_number s =
     (case partition_at (CHR ''-'') s of (a, _, b) \<Rightarrow>
        (case (py_int a, py_int b) of
           (Some st, Some r) \<Rightarrow> Some (if st = 1 then r else 3 + 7 * (st - 2) + r)
         | _ \<Rightarrow> None))"

lemma partition_at_sep: "sep \<notin> set a \<Longrightarrow> partition_at sep (a @ sep # b) = (a, [sep], b)"
  by (induction a) (auto simp: partition_at_def Let_def)

lemma show_int_no_dash: "0 \<le> i \<Longrightarrow> CHR ''-'' \<notin> set (show_int i)"
  using show_nat_digits [of "CHR ''-''" "nat i"] digit_not_special [of "CHR ''-''"] by (auto simp: show_int_def)

lemma round_number_pair:
  "0 \<le> st \<Longrightarrow> round_number (show_int st @ CHR ''-'' # show_int r) = Some (if st = 1 then r else 3 + 7 * (st - 2) + r)"
  by (simp add: round_number_def partition_at_sep show_int_no_dash py_int_show_int)

text \<open>
  \<open>_stage_round\<close> loses nothing: from the shown stage and round the sequential number of the
  last round is recovered, for every round from 1 on, with three rounds in stage 1 and seven in
  every later stage. So two different rounds are never shown alike.
\<close>

theorem stage_round_roundtrip:
  assumes "1 \<le> n"
  shows "round_number (stage_round n) = Some n"
proof (cases "n \<le> 3")
  case True
  have "show_int 1 = ''1''" by code_simp
  with True assms round_number_pair [of 1 n] show ?thesis by (simp add: stage_round_def max_def)
next
  case False
  then have "0 \<le> (n - 4) div 7" by simp
  moreover have "3 + 7 * (2 + (n - 4) div 7 - 2) + ((n - 4) mod 7 + 1) = n"
    using mult_div_mod_eq [of 7 "n - 4"] by (simp add: algebra_simps)
  ultimately show ?thesis
    using False round_number_pair [of "2 + (n - 4) div 7" "(n - 4) mod 7 + 1"] by (simp add: stage_round_def Let_def)
qed

theorem stage_round_roundtrip_witness:
  "stage_round 11 = ''3-1'' \<and> round_number ''3-1'' = Some 11"
proof -
  have s: "stage_round 11 = ''3-1''" by code_simp
  have "(1 :: int) \<le> 11" by simp
  from stage_round_roundtrip [OF this] s show ?thesis by (simp only: s simp_thms)
qed

section \<open>Statistics\<close>

lemma length_bump [simp]: "length (bump p d) = length d"
  by (simp add: bump_def Let_def)

lemma sum_take_bump:
  assumes "length d = 8" "m \<le> 8"
  shows "sum_list (take m (bump p d)) = sum_list (take m d) + (if min 8 (max 1 p) \<le> int m then 1 else 0)"
proof -
  define i where "i = nat (min 8 (max 1 p) - 1)"
  have i: "i < 8" "i < m \<longleftrightarrow> min 8 (max 1 p) \<le> int m" by (auto simp: i_def)
  have "sum_list ((take m d)[i := d ! i + 1]) = sum_list (take m d) + (if i < m then 1 else 0)"
  proof (cases "i < m")
    case True
    then have "i < length (take m d)" "d ! i = take m d ! i" using i(1) assms by auto
    then show ?thesis using True elem_le_sum_list [of i "take m d"] by (simp add: sum_list_update)
  next
    case False
    then show ?thesis using assms by (simp add: list_update_beyond)
  qed
  then show ?thesis by (simp add: bump_def Let_def take_update_swap i(2) flip: i_def)
qed

lemma distribution_take:
  assumes "m \<le> 8"
  shows "sum_list (take m (distribution places)) = length (filter (\<lambda>p. min 8 (max 1 p) \<le> int m) places)"
proof -
  have "length (fold bump places d) = 8 \<and>
      sum_list (take m (fold bump places d)) = sum_list (take m d) + length (filter (\<lambda>p. min 8 (max 1 p) \<le> int m) places)"
    if "length d = 8" for d
    using that
  proof (induction places arbitrary: d)
    case (Cons p places)
    with Cons.IH [of "bump p d"] sum_take_bump [OF Cons.prems assms, of p] show ?case by simp
  qed simp
  from this [of "replicate 8 0"] show ?thesis by (simp add: distribution_def)
qed

lemma length_distribution [simp]: "length (distribution places) = 8"
proof -
  have "length (fold bump places d) = length d" for d by (induction places arbitrary: d) simp_all
  then show ?thesis by (simp add: distribution_def)
qed


lemma streak_le: "streak_of places \<le> length (filter (\<lambda>p. p \<le> 4) places)"
  by (induction places) (auto simp: streak_of_def)

lemma filter_length_mono: "(\<And>x. x \<in> set xs \<Longrightarrow> P x \<Longrightarrow> Q x) \<Longrightarrow> length (filter P xs) \<le> length (filter Q xs)"
  by (induction xs) (auto simp: le_SucI)

text \<open>
  C40. The numbers of a profile agree with each other. For a non-empty list of matches with
  placements from 1 to 8, the placement distribution has eight places that sum to the sample
  size, its first entry is the number of first places, its first four sum to the top-four count,
  the current streak is within the top-four count, the win rate is at most the top-four rate,
  both lie in the unit interval, and the average placement lies between 1 and 8.
\<close>

theorem profile_numbers_agree:
  assumes "ms \<noteq> []" and "\<forall>m\<in>set ms. 1 \<le> pm_placement m \<and> pm_placement m \<le> 8"
  shows "let ps = map pm_placement ms; dst = distribution ps; st = profile_stats rnk ranked ms in
      length dst = 8 \<and> sum_list dst = st_sample st \<and> hd dst = st_firsts st \<and> sum_list (take 4 dst) = st_top4 st
    \<and> streak_of ps \<le> st_top4 st
    \<and> 0 \<le> st_win_rate st \<and> st_win_rate st \<le> st_top4_rate st \<and> st_top4_rate st \<le> 1
    \<and> 1 \<le> st_avg_placement st \<and> st_avg_placement st \<le> 8"
proof -
  let ?ps = "map pm_placement ms" and ?n = "real (length ms)"
  let ?top4 = "length (filter (\<lambda>p. p \<le> 4) ?ps)" and ?firsts = "length (filter (\<lambda>p. p = 1) ?ps)"
  have places: "1 \<le> p \<and> p \<le> 8" if "p \<in> set ?ps" for p using assms(2) that by auto
  have "filter (\<lambda>p. min 8 (max 1 p) \<le> 8) ?ps = ?ps" by (rule filter_True) simp
  moreover have "filter (\<lambda>p. min 8 (max 1 p) \<le> 4) ?ps = filter (\<lambda>p. p \<le> 4) ?ps"
    and "filter (\<lambda>p. min 8 (max 1 p) \<le> 1) ?ps = filter (\<lambda>p. p = 1) ?ps"
    by (rule filter_cong [OF refl], drule places, linarith)+
  ultimately have cnt: "filter (\<lambda>p. min 8 (max 1 p) \<le> 8) ?ps = ?ps"
    "filter (\<lambda>p. min 8 (max 1 p) \<le> 4) ?ps = filter (\<lambda>p. p \<le> 4) ?ps"
    "filter (\<lambda>p. min 8 (max 1 p) \<le> 1) ?ps = filter (\<lambda>p. p = 1) ?ps" by blast+
  have d: "sum_list (distribution ?ps) = length ms" "sum_list (take 4 (distribution ?ps)) = ?top4"
    using distribution_take [of 8 ?ps] distribution_take [of 4 ?ps] cnt by simp_all
  have "take 1 (distribution ?ps) = [hd (distribution ?ps)]"
    using length_distribution [of ?ps] by (cases "distribution ?ps") simp_all
  then have h: "hd (distribution ?ps) = ?firsts"
    using distribution_take [of 1 ?ps] cnt(3) by simp
  have n: "0 < ?n" using assms(1) by simp
  have "?firsts \<le> ?top4" "?top4 \<le> length ms"
    using filter_length_mono [of ?ps "\<lambda>p. p = 1" "\<lambda>p. p \<le> 4"] length_filter_le [of _ ?ps] by simp_all
  then have f: "real ?firsts / ?n \<le> real ?top4 / ?n" "real ?top4 / ?n \<le> 1" "0 \<le> real ?firsts / ?n"
    using n by (simp_all add: divide_right_mono)
  have r: "py_round (real ?firsts / ?n) 4 \<le> py_round (real ?top4 / ?n) 4" "py_round (real ?top4 / ?n) 4 \<le> 1"
    "0 \<le> py_round (real ?firsts / ?n) 4"
    using py_round_mono [OF f(1)] py_round_bounds(2) [of 0 "real ?top4 / ?n" 1] py_round_bounds(1) [of 0 "real ?firsts / ?n" 1] f
    by simp_all
  have "1 \<le> py_round (of_int (sum_list ?ps) / ?n) 2" "py_round (of_int (sum_list ?ps) / ?n) 2 \<le> 8"
    using mean_bounds [of ?ps 1 8, OF _ ballI [OF places]] assms(1)
      py_round_bounds [of 1 "of_int (sum_list ?ps) / ?n" 8 2] by simp_all
  with d h r streak_le [of ?ps] show ?thesis by (simp add: profile_stats_def Let_def)
qed


definition sample_pm :: "int \<Rightarrow> parsed_match" where
  "sample_pm pl = \<lparr>pm_match_id = [], pm_date = [], pm_timestamp = 0, pm_queue = [], pm_placement = pl, pm_level = 8,
     pm_round = [], pm_gold_left = 0, pm_damage = 0, pm_eliminations = 0, pm_traits = [], pm_units = []\<rparr>"

theorem profile_numbers_agree_witness:
  "sum_list (take 4 (distribution [1, 3, 6])) = 2 \<and> hd (distribution [1, 3, 6]) = 1
   \<and> 1 \<le> st_avg_placement (profile_stats (silver ''I'' 5) True [sample_pm 1, sample_pm 3, sample_pm 6])"
proof -
  let ?ms = "[sample_pm 1, sample_pm 3, sample_pm 6]"
  have ps: "map pm_placement ?ms = [1, 3, 6]" by (simp add: sample_pm_def)
  have st: "st_top4 (profile_stats (silver ''I'' 5) True ?ms) = 2" "st_firsts (profile_stats (silver ''I'' 5) True ?ms) = 1"
    by (simp_all add: profile_stats_def Let_def sample_pm_def)
  have "\<forall>m\<in>set ?ms. 1 \<le> pm_placement m \<and> pm_placement m \<le> 8" by (simp add: sample_pm_def)
  from profile_numbers_agree [OF _ this, of "silver ''I'' 5" True, unfolded ps Let_def st]
  show ?thesis by simp
qed

section \<open>A lookup as a whole\<close>

lemma account_requests: "account api g t n = (r, n') \<Longrightarrow> n < n' \<and> n' \<le> n + 2"
  unfolding account_def by (auto split: prod.splits dest: riot_get_requests)

lemma league_requests: "league api pid pl n = (r, n') \<Longrightarrow> n < n' \<and> n' \<le> n + 2"
  unfolding league_def using or_empty_result(1,2) by blast

lemma match_ids_result:
  assumes "match_ids api pid cl cnt n = (r, n')"
  shows "n < n' \<and> n' \<le> n + 2" and "r = Inr ids \<Longrightarrow> ids = [] \<or> (\<exists>host path i len. api_ids api host path i = Body len ids)"
proof -
  note r = or_empty_result [OF assms [unfolded match_ids_def Let_def]]
  show "n < n' \<and> n' \<le> n + 2" using r(1,2) by blast
  assume "r = Inr ids"
  from r(3) [OF this] show "ids = [] \<or> (\<exists>host path i len. api_ids api host path i = Body len ids)"
    by (elim disjE exE) blast+
qed

lemma register_mono: "set known \<subseteq> set (register x known)"
  by (auto simp: register_def)

definition newest_first :: "riot_exc + profile \<Rightarrow> bool" where
  "newest_first r \<longleftrightarrow> (\<forall>h b. r = Inr (FullProfile h b) \<longrightarrow>
     pb_matches b \<noteq> [] \<and> sorted_wrt (\<lambda>m m'. pm_timestamp m' \<le> pm_timestamp m) (pb_matches b))"

lemma body_newest_first: "ms \<noteq> [] \<Longrightarrow> newest_first (Inr (FullProfile h (body_of dsp rnk ranked ms)))"
  using sorted_sort_desc [of pm_timestamp ms] length_sort_desc [of pm_timestamp ms]
  by (simp add: newest_first_def body_of_def Let_def del: length_sort_desc) (metis length_0_conv)

lemma profile_from_matches_result:
  assumes ids: "\<forall>host path i len ids. api_ids api host path i = Body len ids \<longrightarrow> length ids \<le> 20"
    and run: "profile_from_matches api dsp iso_date now_ms pid cluster ranked head n = (r, n')"
  shows "n < n' \<and> n' \<le> n + 42 \<and> newest_first r \<and> r \<noteq> Inr (NotFound nm)"
proof -
  obtain q m where mi: "match_ids api pid cluster 20 n = (q, m)" by fastforce
  note m = match_ids_result(1) [OF mi]
  show ?thesis
  proof (cases q)
    case (Inl e)
    with run mi m show ?thesis by (auto simp: profile_from_matches_def newest_first_def)
  next
    case (Inr mids)
    have len: "length mids \<le> 20" using match_ids_result(2) [OF mi Inr] ids by auto
    obtain q' m' where c: "collect_matches api (\<lambda>raw. parse_match dsp iso_date now_ms raw pid) cluster mids m = (q', m')"
      by fastforce
    have "m \<le> m'" using collect_matches_mono [OF c] .
    with collect_matches_requests [OF c] len m run mi Inr c body_newest_first show ?thesis
      by (cases q') (auto simp: profile_from_matches_def newest_first_def split: if_splits)
  qed
qed

lemma profile_of_account_result:
  assumes ids: "\<forall>host path i len ids. api_ids api host path i = Body len ids \<longrightarrow> length ids \<le> 20"
    and run: "profile_of_account api dsp iso_date now_ms ok today platform cluster d pid g t st = (r, st')"
  shows "requests st < requests st' \<and> requests st' \<le> requests st + 44 \<and> known_ids st' = known_ids st
    \<and> (\<forall>p. p \<noteq> pid \<longrightarrow> history (rank_file st') p = history (rank_file st) p)
    \<and> newest_first r \<and> r \<noteq> Inr (NotFound nm)"
proof -
  obtain q n where lg: "league api pid platform (requests st) = (q, n)" by fastforce
  note n = league_requests [OF lg]
  show ?thesis
  proof (cases q)
    case (Inl e)
    with run lg n show ?thesis by (auto simp: profile_of_account_def newest_first_def)
  next
    case (Inr es)
    obtain h f' where rr: "record_rank ok today pid (rank_from_league (find (\<lambda>e. le_queueType e = Some ''RANKED_TFT'') es))
        (rank_file st) = (h, f')" by fastforce
    from run lg Inr rr obtain head ranked m where
      pm: "profile_from_matches api dsp iso_date now_ms pid cluster ranked head n = (r, m)"
      and st': "st' = st\<lparr>rank_file := f', requests := m\<rparr>"
      by (auto simp: profile_of_account_def Let_def split: prod.splits)
    from profile_from_matches_result [OF ids pm, of nm] record_rank_other [OF rr] n st'
    show ?thesis by simp
  qed
qed

text \<open>
  C11. What a player lookup does. When Riot returns at most 20 match ids for the 20 asked for, a
  lookup, whether it succeeds or fails, makes at least one and at most 46 requests, forgets no
  autocomplete id and changes the rank history of at most one player. A lookup that finds no
  account changes nothing but the number of requests, and one that returns matches lists them
  from the most recent on.
\<close>

theorem lookup_effects:
  assumes ids: "\<forall>host path i len ids. api_ids api host path i = Body len ids \<longrightarrow> length ids \<le> 20"
    and run: "build_player_profile api dsp iso_date now_ms ok today game_name tag st = (r, st')"
  shows "requests st < requests st' \<and> requests st' \<le> requests st + 46
    \<and> set (known_ids st) \<subseteq> set (known_ids st')
    \<and> (\<exists>pid. \<forall>p. p \<noteq> pid \<longrightarrow> history (rank_file st') p = history (rank_file st) p)
    \<and> (\<forall>nm. r = Inr (NotFound nm) \<longrightarrow> known_ids st' = known_ids st \<and> rank_file st' = rank_file st)
    \<and> (\<forall>h b. r = Inr (FullProfile h b) \<longrightarrow>
         pb_matches b \<noteq> [] \<and> sorted_wrt (\<lambda>m m'. pm_timestamp m' \<le> pm_timestamp m) (pb_matches b))"
proof -
  obtain platform ac cluster where rt: "route tag = (platform, ac, cluster)" by (cases "route tag")
  obtain q n where acct: "account api game_name tag (requests st) = (q, n)" by fastforce
  note n = account_requests [OF acct]
  note run' = run [unfolded build_player_profile_def rt prod.case Let_def acct]
  show ?thesis
  proof (cases "\<exists>a pid. q = Inr (Some a) \<and> ac_puuid a = Some pid")
    case False
    then have "st' = st\<lparr>requests := n\<rparr> \<and> (\<forall>h b. r \<noteq> Inr (FullProfile h b))"
      using run' by (auto split: sum.splits option.splits)
    with n show ?thesis by simp
  next
    case True
    then obtain a pid where q: "q = Inr (Some a)" "ac_puuid a = Some pid" by blast
    from run' q profile_of_account_result [OF ids, of dsp iso_date now_ms ok today platform cluster]
    obtain x where "requests st' \<le> n + 44" "n < requests st'" "known_ids st' = register x (known_ids st)"
      "\<forall>p. p \<noteq> pid \<longrightarrow> history (rank_file st') p = history (rank_file st) p"
      "newest_first r" "\<forall>nm. r \<noteq> Inr (NotFound nm)"
      by fastforce
    with n register_mono [of "known_ids st" x] show ?thesis by (simp add: newest_first_def) blast
  qed
qed


definition sample_raw :: raw_match where
  "sample_raw = \<lparr>rm_participants = Some [\<lparr>pa_puuid = Some ''P'', pa_units = None, pa_traits = None, pa_placement = Some 3,
     pa_level = Some 8, pa_last_round = Some 30, pa_gold_left = None, pa_damage = None, pa_eliminated = None\<rparr>],
     rm_game_datetime = Some 5, rm_queue_id = Some 1100, rm_match_id = Some ''M''\<rparr>"

text \<open>An API that knows one account, asks once to come back later, and has one match.\<close>

definition sample_api :: riot_api where
  "sample_api = \<lparr>
     api_account = (\<lambda>_ _ n. if n = 0 then Failure 429 ''Too Many Requests'' (Seconds 1)
                            else Body 90 \<lparr>ac_puuid = Some ''P'', ac_gameName = None, ac_tagLine = None\<rparr>),
     api_league = (\<lambda>_ _ _. Body 2 []), api_ids = (\<lambda>_ _ _. Body 5 [''M'']), api_match = (\<lambda>_ _ _. Body 900 sample_raw)\<rparr>"

abbreviation sample_lookup :: "(riot_exc + profile) \<times> riot_state" where
  "sample_lookup \<equiv> build_player_profile sample_api \<lparr>champion_icons = [], item_icons = [], item_names = [], trait_by_norm = []\<rparr>
     show_int 0 True ''2025-01-02'' ''Some One'' ''NA1'' \<lparr>known_ids = KNOWN_IDS, rank_file = None, requests = 0\<rparr>"

definition is_full :: "riot_exc + profile \<Rightarrow> bool" where
  "is_full r = (case r of Inr (FullProfile _ _) \<Rightarrow> True | _ \<Rightarrow> False)"

lemma sample_lookup_full: "is_full (fst sample_lookup) \<and> requests (snd sample_lookup) = 5"
proof -
  have rt: "route ''NA1'' = (''na1'', ''americas'', ''americas'')" by code_simp
  obtain pm where pm: "parse_match \<lparr>champion_icons = [], item_icons = [], item_names = [], trait_by_norm = []\<rparr>
      show_int 0 sample_raw ''P'' = Some pm"
    by (simp add: parse_match_def sample_raw_def get_or_def)
  show ?thesis
    by (simp add: build_player_profile_def rt pm account_def league_def match_ids_def get_match_def riot_get.simps sample_api_def
        finish_def can_sleep_def MAX_RESPONSE_BYTES_def get_or_def or_empty_def profile_of_account_def profile_from_matches_def
        rank_from_league_def record_rank_def Let_def is_full_def)
qed

theorem lookup_effects_witness:
  "requests (snd sample_lookup) \<le> 46 \<and> set KNOWN_IDS \<subseteq> set (known_ids (snd sample_lookup))
   \<and> (\<exists>h b. fst sample_lookup = Inr (FullProfile h b) \<and> pb_matches b \<noteq> [])"
proof -
  have "\<forall>host path i len ids. api_ids sample_api host path i = Body len ids \<longrightarrow> length ids \<le> 20"
    by (simp add: sample_api_def)
  note e = lookup_effects [OF this prod.collapse [symmetric],
      where st = "\<lparr>known_ids = KNOWN_IDS, rank_file = None, requests = 0\<rparr>"]
  obtain h b where f: "fst sample_lookup = Inr (FullProfile h b)"
    using sample_lookup_full by (auto simp only: is_full_def split: sum.splits profile.splits)
  show ?thesis using e f by simp
qed

end
