(* ===== verification/Tft_Display.thy ===== *)
theory Tft_Display
  imports Tft_Data Tft_Augments
begin

text \<open>
  The tables of \<open>common/tft_data.py\<close> that the dashboard and the player profiles show: champion
  icons, the items, traits and augments of the team builder, and the named compositions by id. All
  icons are under one address, which \<open>asset\<close> puts in front of their paths.
\<close>

section \<open>Icons\<close>

definition asset :: "string \<Rightarrow> string" where
  "asset path = ''https://raw.communitydragon.org/latest/game/assets/'' @ path"

definition CHAMPION_ICONS :: "(string, string) dict" where
  "CHAMPION_ICONS = map (\<lambda>(cid, path). (cid, asset path)) [
    (''TFT17_Aatrox'', ''characters/tft17_aatrox/hud/tft17_aatrox_square.tft_set17.png''),
    (''TFT17_Briar'', ''characters/tft17_briar/hud/tft17_briar_square.tft_set17.png''),
    (''TFT17_Caitlyn'', ''characters/tft17_caitlyn/hud/tft17_caitlyn_square.tft_set17.png''),
    (''TFT17_Chogath'', ''characters/tft17_chogath/hud/tft17_chogath_square.tft_set17.png''),
    (''TFT17_Ezreal'', ''characters/tft17_ezreal/hud/tft17_ezreal_square.tft_set17.png''),
    (''TFT17_Leona'', ''characters/tft17_leona/hud/tft17_leona_square.tft_set17.png''),
    (''TFT17_Lissandra'', ''characters/tft17_lissandra/hud/tft17_lissandra_square.tft_set17.png''),
    (''TFT17_Nasus'', ''characters/tft17_nasus/hud/tft17_nasus_square.tft_set17.png''),
    (''TFT17_Poppy'', ''characters/tft17_poppy/hud/tft17_poppy_square.tft_set17.png''),
    (''TFT17_RekSai'', ''characters/tft17_reksai/hud/tft17_reksai_square.tft_set17.png''),
    (''TFT17_Talon'', ''characters/tft17_talon/hud/tft17_talon_square.tft_set17.png''),
    (''TFT17_Teemo'', ''characters/tft17_teemo/hud/tft17_teemo_square.tft_set17.png''),
    (''TFT17_TwistedFate'', ''characters/tft17_twistedfate/hud/tft17_twistedfate_square.tft_set17.png''),
    (''TFT17_Veigar'', ''characters/tft17_veigar/hud/tft17_veigar_square.tft_set17.png''),
    (''TFT17_Akali'', ''characters/tft17_akali/hud/tft17_akali_square.tft_set17.png''),
    (''TFT17_Belveth'', ''characters/tft17_belveth/hud/tft17_belveth_square.tft_set17.png''),
    (''TFT17_Gnar'', ''characters/tft17_gnar/hud/tft17_gnar_square.tft_set17.png''),
    (''TFT17_Gragas'', ''characters/tft17_gragas/hud/tft17_gragas_square.tft_set17.png''),
    (''TFT17_Gwen'', ''characters/tft17_gwen/hud/tft17_gwen_square.tft_set17.png''),
    (''TFT17_Jax'', ''characters/tft17_jax/hud/tft17_jax_square.tft_set17.png''),
    (''TFT17_Jinx'', ''characters/tft17_jinx/hud/tft17_jinx_square.tft_set17.png''),
    (''TFT17_IvernMinion'', ''characters/tft17_ivernminion/hud/tft17_ivernminion_square.tft_set17.png''),
    (''TFT17_Milio'', ''characters/tft17_milio/hud/tft17_milio_square.tft_set17.png''),
    (''TFT17_Mordekaiser'', ''characters/tft17_mordekaiser/hud/tft17_mordekaiser_square.tft_set17.png''),
    (''TFT17_Pantheon'', ''characters/tft17_pantheon/hud/tft17_pantheon_square.tft_set17.png''),
    (''TFT17_Pyke'', ''characters/tft17_pyke/hud/tft17_pyke_square.tft_set17.png''),
    (''TFT17_Zoe'', ''characters/tft17_zoe/hud/tft17_zoe_square.tft_set17.png''),
    (''TFT17_Aurora'', ''characters/tft17_aurora/hud/tft17_aurora_square.tft_set17.png''),
    (''TFT17_Diana'', ''ux/tft/championsplashes/patching/tft17_diana_teamplanner_splash.tft_set17.png''),
    (''TFT17_Fizz'', ''characters/tft17_fizz/hud/tft17_fizz_square.tft_set17.png''),
    (''TFT17_Illaoi'', ''characters/tft17_illaoi/hud/tft17_illaoi_square.tft_set17.png''),
    (''TFT17_Kaisa'', ''characters/tft17_kaisa/hud/tft17_kaisa_square.tft_set17.png''),
    (''TFT17_Lulu'', ''characters/tft17_lulu/hud/tft17_lulu_square.tft_set17.png''),
    (''TFT17_Maokai'', ''characters/tft17_maokai/hud/tft17_maokai_square.tft_set17.png''),
    (''TFT17_MissFortune'', ''characters/tft17_missfortune/hud/tft17_missfortune_square.tft_set17.png''),
    (''TFT17_Ornn'', ''characters/tft17_ornn/hud/tft17_ornn_square.tft_set17.png''),
    (''TFT17_Rhaast'', ''characters/tft17_rhaast/hud/tft17_kayn_slay_square.tft_set17.png''),
    (''TFT17_Samira'', ''characters/tft17_samira/hud/tft17_samira_square.tft_set17.png''),
    (''TFT17_Urgot'', ''characters/tft17_urgot/hud/tft17_urgot_square.tft_set17.png''),
    (''TFT17_Viktor'', ''characters/tft17_viktor/hud/tft17_viktor_square.tft_set17.png''),
    (''TFT17_AurelionSol'', ''characters/tft17_aurelionsol/hud/tft17_aurelionsol_square.tft_set17.png''),
    (''TFT17_Corki'', ''characters/tft17_corki/hud/tft17_corki_square.tft_set17.png''),
    (''TFT17_Karma'', ''characters/tft17_karma/hud/tft17_karma_square.tft_set17.png''),
    (''TFT17_Kindred'', ''characters/tft17_kindred/hud/tft17_kindred_square.tft_set17.png''),
    (''TFT17_Leblanc'', ''characters/tft17_leblanc/hud/tft17_leblanc_square.tft_set17.png''),
    (''TFT17_MasterYi'', ''characters/tft17_masteryi/hud/tft17_masteryi_square.tft_set17.png''),
    (''TFT17_Morgana'', ''characters/tft17_morgana/hud/tft17_morgana_square.tft_set17.png''),
    (''TFT17_Nami'', ''characters/tft17_nami/hud/tft17_nami_square.tft_set17.png''),
    (''TFT17_Nunu'', ''characters/tft17_nunu/hud/tft17_nunu_square.tft_set17.png''),
    (''TFT17_Rammus'', ''characters/tft17_rammus/hud/tft17_rammus_square.tft_set17.png''),
    (''TFT17_Riven'', ''characters/tft17_riven/hud/tft17_riven_square.tft_set17.png''),
    (''TFT17_TahmKench'', ''characters/tft17_tahmkench/hud/tft17_tahmkench_square.tft_set17.png''),
    (''TFT17_Galio'', ''characters/tft17_galio/hud/tft17_galio_square.tft_set17.png''),
    (''TFT17_Xayah'', ''characters/tft17_xayah/hud/tft17_xayah_square.tft_set17.png''),
    (''TFT17_Bard'', ''characters/tft17_bard/hud/tft17_bard_square.tft_set17.png''),
    (''TFT17_Blitzcrank'', ''characters/tft17_blitzcrank/hud/tft17_blitzcrank_square.tft_set17.png''),
    (''TFT17_Fiora'', ''characters/tft17_fiora/hud/tft17_fiora_square.tft_set17.png''),
    (''TFT17_Graves'', ''characters/tft17_graves/hud/tft17_graves_square.tft_set17.png''),
    (''TFT17_Jhin'', ''characters/tft17_jhin/hud/tft17_jhin_square.tft_set17.png''),
    (''TFT17_Shen'', ''characters/tft17_shen/hud/tft17_shen_square.tft_set17.png''),
    (''TFT17_Sona'', ''characters/tft17_sona/hud/tft17_sona_square.tft_set17.png''),
    (''TFT17_Vex'', ''characters/tft17_vex/hud/tft17_vex_square.tft_set17.png''),
    (''TFT17_Zed'', ''characters/tft17_zed/hud/tft17_zed_square.tft_set17.png'')]"

section \<open>Items\<close>

record builder_item =
  bi_id :: string
  bi_name :: string
  bi_icon :: string
  bi_kind :: string
  bi_recipe :: "string list option"

definition completed :: "string \<Rightarrow> string \<Rightarrow> string \<Rightarrow> string list \<Rightarrow> builder_item" where
  "completed i nm path recipe =
     \<lparr>bi_id = i, bi_name = nm, bi_icon = asset path, bi_kind = ''completed'', bi_recipe = Some recipe\<rparr>"

definition basic :: "string \<Rightarrow> string \<Rightarrow> string \<Rightarrow> builder_item" where
  "basic i nm path = \<lparr>bi_id = i, bi_name = nm, bi_icon = asset path, bi_kind = ''component'', bi_recipe = None\<rparr>"

definition BUILDER_ITEMS :: "builder_item list" where
  "BUILDER_ITEMS = [
    completed ''TFT_Item_AdaptiveHelm'' ''Adaptive Helm'' ''maps/tft/icons/items/hexcore/tft_item_adaptivehelm.tft_set13.png'' [''TFT_Item_NegatronCloak'', ''TFT_Item_TearOfTheGoddess''],
    completed ''TFT_Item_ArchangelsStaff'' ''Archangel's Staff'' ''maps/tft/icons/items/hexcore/tft_item_archangelsstaff.tft_set13.png'' [''TFT_Item_NeedlesslyLargeRod'', ''TFT_Item_TearOfTheGoddess''],
    completed ''TFT_Item_Bloodthirster'' ''Bloodthirster'' ''maps/tft/icons/items/hexcore/tft_item_bloodthirster.tft_set13.png'' [''TFT_Item_BFSword'', ''TFT_Item_NegatronCloak''],
    completed ''TFT_Item_BlueBuff'' ''Blue Buff'' ''maps/tft/icons/items/hexcore/tft_item_bluebuff.tft_set13.png'' [''TFT_Item_TearOfTheGoddess'', ''TFT_Item_TearOfTheGoddess''],
    completed ''TFT_Item_BrambleVest'' ''Bramble Vest'' ''maps/tft/icons/items/hexcore/tft_item_bramblevest.tft_set13.png'' [''TFT_Item_ChainVest'', ''TFT_Item_ChainVest''],
    completed ''TFT_Item_Crownguard'' ''Crownguard'' ''maps/tft/icons/items/hexcore/tft_item_crownguard.tft_set13.png'' [''TFT_Item_NeedlesslyLargeRod'', ''TFT_Item_ChainVest''],
    completed ''TFT_Item_Deathblade'' ''Deathblade'' ''maps/tft/icons/items/hexcore/tft_item_deathblade.tft_set13.png'' [''TFT_Item_BFSword'', ''TFT_Item_BFSword''],
    completed ''TFT_Item_CorruptedDeathblade'' ''Deathblade'' ''maps/tft/icons/items/hexcore/tft_item_deathblade.tft_set13.png'' [''TFT_Item_BFSword'', ''TFT_Item_BFSword''],
    completed ''TFT_Item_DragonsClaw'' ''Dragon's Claw'' ''maps/tft/icons/items/hexcore/tft_item_dragonsclaw.tft_set13.png'' [''TFT_Item_NegatronCloak'', ''TFT_Item_NegatronCloak''],
    completed ''TFT_Item_GuardianAngel'' ''Edge of Night'' ''maps/tft/icons/items/hexcore/tft_item_guardianangel.tft_set13.png'' [''TFT_Item_BFSword'', ''TFT_Item_ChainVest''],
    completed ''TFT_Item_SpectralGauntlet'' ''Evenshroud'' ''maps/tft/icons/items/hexcore/tft_item_spectralgauntlet.tft_set13.png'' [''TFT_Item_NegatronCloak'', ''TFT_Item_GiantsBelt''],
    completed ''TFT_Item_GargoyleStoneplate'' ''Gargoyle Stoneplate'' ''maps/tft/icons/items/hexcore/tft_item_gargoylestoneplate.tft_set13.png'' [''TFT_Item_ChainVest'', ''TFT_Item_NegatronCloak''],
    completed ''TFT_Item_CorruptedGargoyleStoneplate'' ''Gargoyle Stoneplate'' ''maps/tft/icons/items/hexcore/tft_item_gargoylestoneplate.tft_set13.png'' [''TFT_Item_ChainVest'', ''TFT_Item_NegatronCloak''],
    completed ''TFT_Item_MadredsBloodrazor'' ''Giant Slayer'' ''maps/tft/icons/items/hexcore/tft_item_madredsbloodrazor.tft_set13.png'' [''TFT_Item_BFSword'', ''TFT_Item_RecurveBow''],
    completed ''TFT_Item_GuinsoosRageblade'' ''Guinsoo's Rageblade'' ''maps/tft/icons/items/hexcore/tft_item_guinsoosrageblade.tft_set13.png'' [''TFT_Item_RecurveBow'', ''TFT_Item_NeedlesslyLargeRod''],
    completed ''TFT_Item_CorruptedGuinsoosRageblade'' ''Guinsoo's Rageblade'' ''maps/tft/icons/items/hexcore/tft_item_guinsoosrageblade.tft_set13.png'' [''TFT_Item_RecurveBow'', ''TFT_Item_NeedlesslyLargeRod''],
    completed ''TFT_Item_UnstableConcoction'' ''Hand Of Justice'' ''maps/tft/icons/items/hexcore/tft_item_unstableconcoction.tft_set13.png'' [''TFT_Item_TearOfTheGoddess'', ''TFT_Item_SparringGloves''],
    completed ''TFT_Item_CorruptedHandOfJustice'' ''Hand Of Justice'' ''maps/tft/icons/items/hexcore/tft_item_unstableconcoction.tft_set13.png'' [''TFT_Item_TearOfTheGoddess'', ''TFT_Item_SparringGloves''],
    completed ''TFT_Item_HextechGunblade'' ''Hextech Gunblade'' ''maps/tft/icons/items/hexcore/tft_item_hextechgunblade.tft_set13.png'' [''TFT_Item_BFSword'', ''TFT_Item_NeedlesslyLargeRod''],
    completed ''TFT_Item_InfinityEdge'' ''Infinity Edge'' ''maps/tft/icons/items/hexcore/tft_item_infinityedge.tft_set13.png'' [''TFT_Item_BFSword'', ''TFT_Item_SparringGloves''],
    completed ''TFT_Item_CorruptedInfinityEdge'' ''Infinity Edge'' ''maps/tft/icons/items/hexcore/tft_item_infinityedge.tft_set13.png'' [''TFT_Item_BFSword'', ''TFT_Item_SparringGloves''],
    completed ''TFT_Item_IonicSpark'' ''Ionic Spark'' ''maps/tft/icons/items/hexcore/tft_item_ionicspark.tft_set13.png'' [''TFT_Item_NeedlesslyLargeRod'', ''TFT_Item_NegatronCloak''],
    completed ''TFT_Item_JeweledGauntlet'' ''Jeweled Gauntlet'' ''maps/tft/icons/items/hexcore/tft_item_jeweledgauntlet.tft_set13.png'' [''TFT_Item_NeedlesslyLargeRod'', ''TFT_Item_SparringGloves''],
    completed ''TFT_Item_CorruptedJeweledGauntlet'' ''Jeweled Gauntlet'' ''maps/tft/icons/items/hexcore/tft_item_jeweledgauntlet.tft_set13.png'' [''TFT_Item_NeedlesslyLargeRod'', ''TFT_Item_SparringGloves''],
    completed ''TFT_Item_RunaansHurricane'' ''Kraken's Fury'' ''maps/tft/icons/items/hexcore/tft_item_krakenslayer.png'' [''TFT_Item_NegatronCloak'', ''TFT_Item_RecurveBow''],
    completed ''TFT_Item_LastWhisper'' ''Last Whisper'' ''maps/tft/icons/items/hexcore/tft_item_lastwhisper.tft_set13.png'' [''TFT_Item_RecurveBow'', ''TFT_Item_SparringGloves''],
    completed ''TFT_Item_Morellonomicon'' ''Morellonomicon'' ''maps/tft/icons/items/hexcore/tft_item_morellonomicon.tft_set13.png'' [''TFT_Item_NeedlesslyLargeRod'', ''TFT_Item_GiantsBelt''],
    completed ''TFT_Item_Leviathan'' ''Nashor's Tooth'' ''maps/tft/icons/items/hexcore/tft_item_leviathan.tft_set13.png'' [''TFT_Item_RecurveBow'', ''TFT_Item_GiantsBelt''],
    completed ''TFT_Item_FrozenHeart'' ''Protector's Vow'' ''maps/tft/icons/items/hexcore/tft_item_frozenheart.tft_set13.png'' [''TFT_Item_TearOfTheGoddess'', ''TFT_Item_ChainVest''],
    completed ''TFT_Item_Quicksilver'' ''Quicksilver'' ''maps/tft/icons/items/hexcore/tft_item_quicksilver.tft_set13.png'' [''TFT_Item_SparringGloves'', ''TFT_Item_NegatronCloak''],
    completed ''TFT_Item_RabadonsDeathcap'' ''Rabadon's Deathcap'' ''maps/tft/icons/items/hexcore/tft_item_rabadonsdeathcap.tft_set13.png'' [''TFT_Item_NeedlesslyLargeRod'', ''TFT_Item_NeedlesslyLargeRod''],
    completed ''TFT_Item_CorruptedRabadonsDeathcap'' ''Rabadon's Deathcap'' ''maps/tft/icons/items/hexcore/tft_item_rabadonsdeathcap.tft_set13.png'' [''TFT_Item_NeedlesslyLargeRod'', ''TFT_Item_NeedlesslyLargeRod''],
    completed ''TFT_Item_RapidFireCannon'' ''Red Buff'' ''maps/tft/icons/items/hexcore/tft_item_rapidfirecannon.tft_set13.png'' [''TFT_Item_RecurveBow'', ''TFT_Item_RecurveBow''],
    completed ''TFT_Item_SpearOfShojin'' ''Spear of Shojin'' ''maps/tft/icons/items/hexcore/tft_item_spearofshojin.tft_set13.png'' [''TFT_Item_BFSword'', ''TFT_Item_TearOfTheGoddess''],
    completed ''TFT_Item_CorruptedSpearOfShojin'' ''Spear of Shojin'' ''maps/tft/icons/items/hexcore/tft_item_spearofshojin.tft_set13.png'' [''TFT_Item_BFSword'', ''TFT_Item_TearOfTheGoddess''],
    completed ''TFT_Item_Redemption'' ''Spirit Visage'' ''maps/tft/icons/items/hexcore/tft_item_spiritvisagerr.png'' [''TFT_Item_TearOfTheGoddess'', ''TFT_Item_GiantsBelt''],
    completed ''TFT_Item_CorruptedRedemption'' ''Spirit Visage'' ''maps/tft/icons/items/hexcore/tft_item_spiritvisagerr.png'' [''TFT_Item_TearOfTheGoddess'', ''TFT_Item_GiantsBelt''],
    completed ''TFT_Item_NightHarvester'' ''Steadfast Heart'' ''maps/tft/icons/items/hexcore/tft_item_nightharvester.tft_set13.png'' [''TFT_Item_ChainVest'', ''TFT_Item_SparringGloves''],
    completed ''TFT_Item_SteraksGage'' ''Sterak's Gage'' ''maps/tft/icons/items/hexcore/tft_item_steraksgage.tft_set13.png'' [''TFT_Item_BFSword'', ''TFT_Item_GiantsBelt''],
    completed ''TFT_Item_PowerGauntlet'' ''Striker's Flail'' ''maps/tft/icons/items/hexcore/tft_item_powergauntlet.tft_set13.png'' [''TFT_Item_GiantsBelt'', ''TFT_Item_SparringGloves''],
    completed ''TFT_Item_RedBuff'' ''Sunfire Cape'' ''maps/tft/icons/items/hexcore/tft_item_redbuff.tft_set13.png'' [''TFT_Item_ChainVest'', ''TFT_Item_GiantsBelt''],
    completed ''TFT_Item_TacticiansRing'' ''Tactician's Cape'' ''maps/tft/icons/items/hexcore/tft_item_tacticiansring.tft_set13.png'' [''TFT_Item_Spatula'', ''TFT_Item_FryingPan''],
    completed ''TFT_Item_ForceOfNature'' ''Tactician's Crown'' ''maps/tft/icons/items/hexcore/tft_item_forceofnature.tft_set13.png'' [''TFT_Item_Spatula'', ''TFT_Item_Spatula''],
    completed ''TFT_Item_TacticiansScepter'' ''Tactician's Shield'' ''maps/tft/icons/items/hexcore/tft_item_tacticiansscepter.tft_set13.png'' [''TFT_Item_FryingPan'', ''TFT_Item_FryingPan''],
    completed ''TFT_Item_ThiefsGloves'' ''Thief's Gloves'' ''maps/tft/icons/items/hexcore/tft_item_thiefsgloves.tft_set13.png'' [''TFT_Item_SparringGloves'', ''TFT_Item_SparringGloves''],
    completed ''TFT_Item_TitansResolve'' ''Titan's Resolve'' ''maps/tft/icons/items/hexcore/tft_item_titansresolve.tft_set13.png'' [''TFT_Item_ChainVest'', ''TFT_Item_RecurveBow''],
    completed ''TFT_Item_StatikkShiv'' ''Void Staff'' ''maps/tft/icons/items/hexcore/tft_item_voidstaff.png'' [''TFT_Item_RecurveBow'', ''TFT_Item_TearOfTheGoddess''],
    completed ''TFT_Item_WarmogsArmor'' ''Warmog's Armor'' ''maps/tft/icons/items/hexcore/tft_item_warmogsarmor.tft_set13.png'' [''TFT_Item_GiantsBelt'', ''TFT_Item_GiantsBelt''],
    completed ''TFT_Item_CorruptedWarmogsArmor'' ''Warmog's Armor'' ''maps/tft/icons/items/hexcore/tft_item_warmogsarmor.tft_set13.png'' [''TFT_Item_GiantsBelt'', ''TFT_Item_GiantsBelt''],
    completed ''TFT_Item_CursedBlade'' ''tft_item_name_CursedBlade'' ''maps/particles/tft/tft_item_cursedblade.png'' [''TFT_Item_CursedBlade'', ''TFT_Item_CursedBlade''],
    completed ''TFT_Item_HextechChestguard'' ''tft_item_name_HextechChestguard'' ''maps/particles/tft/tft_item_hextechchestguard.png'' [''TFT_Item_HextechChestguard'', ''TFT_Item_HextechChestguard''],
    basic ''TFT_Item_BFSword'' ''B.F. Sword'' ''maps/tft/icons/items/hexcore/tft_item_bfsword.tft_set13.png'',
    basic ''TFT_Item_ChainVest'' ''Chain Vest'' ''maps/tft/icons/items/hexcore/tft_item_chainvest.tft_set13.png'',
    basic ''TFT_Item_CursedBlade'' ''Cursed Blade'' ''maps/particles/tft/tft_item_cursedblade.png'',
    basic ''TFT_Item_FryingPan'' ''Frying Pan'' ''maps/tft/icons/items/hexcore/tft_item_fryingpan.tft_set13.png'',
    basic ''TFT_Item_GiantsBelt'' ''Giant's Belt'' ''maps/tft/icons/items/hexcore/tft_item_giantsbelt.tft_set13.png'',
    basic ''TFT_Item_HextechChestguard'' ''Hextech Chestguard'' ''maps/particles/tft/tft_item_hextechchestguard.png'',
    basic ''TFT_Item_NeedlesslyLargeRod'' ''Needlessly Large Rod'' ''maps/tft/icons/items/hexcore/tft_item_needlesslylargerod.tft_set13.png'',
    basic ''TFT_Item_NegatronCloak'' ''Negatron Cloak'' ''maps/tft/icons/items/hexcore/tft_item_negatroncloak.tft_set13.png'',
    basic ''TFT_Item_RecurveBow'' ''Recurve Bow'' ''maps/tft/icons/items/hexcore/tft_item_recurvebow.tft_set13.png'',
    basic ''TFT_Item_SparringGloves'' ''Sparring Gloves'' ''maps/tft/icons/items/hexcore/tft_item_sparringgloves.tft_set13.png'',
    basic ''TFT_Item_Spatula'' ''Spatula'' ''maps/tft/icons/items/hexcore/tft_item_spatula.tft_set13.png'',
    basic ''TFT_Item_TearOfTheGoddess'' ''Tear of the Goddess'' ''maps/tft/icons/items/hexcore/tft_item_tearofthegoddess.tft_set13.png'']"

section \<open>Traits\<close>

record trait_meta =
  tm_name :: string
  tm_icon :: string
  tm_breakpoints :: "int list"

definition trait_meta_of :: "string \<times> string \<times> int list \<Rightarrow> trait_meta" where
  "trait_meta_of = (\<lambda>(nm, path, bps). \<lparr>tm_name = nm, tm_icon = asset path, tm_breakpoints = bps\<rparr>)"

definition TRAITS_DATA :: "trait_meta list" where
  "TRAITS_DATA = map trait_meta_of [
    (''Anima'', ''ux/traiticons/trait_icon_17_animatech.tft_set17.png'', [3, 6]),
    (''Arbiter'', ''ux/traiticons/trait_icon_17_arbiter.tft_set17.png'', [2, 3]),
    (''Bastion'', ''ux/traiticons/trait_icon_9_bastion.png'', [2, 4, 6]),
    (''Brawler'', ''ux/traiticons/trait_icon_brawler.png'', [2, 4, 6]),
    (''Bulwark'', ''ux/traiticons/trait_icon_17_bulwark.tft_set17.png'', [1]),
    (''Challenger'', ''ux/traiticons/trait_icon_17_challenger.tft_set17.png'', [2, 3, 4, 5]),
    (''Choose Trait'', ''ux/traiticons/trait_icon_17_missfortuneundetermindedtrait.tft_set17.png'', []),
    (''Commander'', ''ux/traiticons/trait_icon_17_commander.tft_set17.png'', [1]),
    (''Conduit'', ''ux/traiticons/trait_icon_17_channeler.tft_set17.png'', [2, 3, 4, 5]),
    (''Dark Lady'', ''ux/traiticons/trait_icon_17_darklady.tft_set17.png'', [1]),
    (''Dark Star'', ''ux/traiticons/trait_icon_17_darkstar.tft_set17.png'', [2, 4, 6, 9]),
    (''Divine Duelist'', ''ux/traiticons/trait_icon_17_divineduelist.tft_set17.png'', [1]),
    (''Doomer'', ''ux/traiticons/trait_icon_17_doomer.tft_set17.png'', [1]),
    (''Eradicator'', ''ux/traiticons/trait_icon_17_singularity.tft_set17.png'', [1]),
    (''Factory New'', ''ux/traiticons/trait_icon_17_factorynew.tft_set17.png'', [1]),
    (''Fateweaver'', ''ux/traiticons/trait_icon_17_fateweaver.tft_set17.png'', [2, 4]),
    (''Galaxy Hunter'', ''ux/traiticons/trait_icon_17_galaxyhunter.tft_set17.png'', [1]),
    (''Gun Goddess'', ''ux/traiticons/trait_icon_17_gungoddess.tft_set17.png'', [1]),
    (''Marauder'', ''ux/traiticons/trait_icon_16_slayer.png'', [2, 4, 6]),
    (''Mecha'', ''ux/traiticons/trait_icon_17_mecha.tft_set17.png'', [3, 4, 6]),
    (''Meeple'', ''ux/traiticons/trait_icon_17_astronaut.tft_set17.png'', [3, 5, 7, 10]),
    (''N.O.V.A.'', ''ux/traiticons/trait_icon_17_nova.tft_set17.png'', [2, 5]),
    (''Oracle'', ''ux/traiticons/trait_icon_12_arcana.tft_set12.png'', [1]),
    (''Party Animal'', ''ux/traiticons/trait_icon_17_partyanimal.tft_set17.png'', [1]),
    (''Primordian'', ''ux/traiticons/trait_icon_17_primordian.tft_set17.png'', [2, 3]),
    (''Psionic'', ''ux/traiticons/trait_icon_17_psyops.tft_set17.png'', [2, 4]),
    (''Redeemer'', ''ux/traiticons/trait_icon_17_redeemer.tft_set17.png'', [1]),
    (''Replicator'', ''ux/traiticons/trait_icon_17_replicator.tft_set17.png'', [2, 4]),
    (''Rogue'', ''ux/traiticons/trait_icon_17_rogue.tft_set17.png'', [2, 3, 4, 5]),
    (''Shepherd'', ''ux/traiticons/trait_icon_17_shepherd.tft_set17.png'', [3, 5, 7]),
    (''Sniper'', ''ux/traiticons/trait_icon_6_sniper.png'', [2, 3, 4]),
    (''Space Groove'', ''ux/traiticons/trait_icon_17_spacegroove.tft_set17.png'', [1, 3, 5, 7, 10]),
    (''Stargazer'', ''ux/traiticons/trait_icon_17_stargazer.tft_set17.png'', [3, 4, 5, 6]),
    (''Stargazer'', ''ux/traiticons/trait_icon_17_stargazer.tft_set17.png'', [3]),
    (''Stargazer'', ''ux/traiticons/trait_icon_17_stargazer.tft_set17.png'', [3, 5, 7]),
    (''Stargazer'', ''ux/traiticons/trait_icon_17_stargazer.tft_set17.png'', [3, 5, 7]),
    (''Stargazer'', ''ux/traiticons/trait_icon_17_stargazer.tft_set17.png'', [3]),
    (''Stargazer'', ''ux/traiticons/trait_icon_17_stargazer.tft_set17.png'', [3, 5]),
    (''Stargazer'', ''ux/traiticons/trait_icon_17_stargazer.tft_set17.png'', [3, 4, 5, 6, 7, 8, 9, 10, 11]),
    (''Stargazer'', ''ux/traiticons/trait_icon_17_stargazer.tft_set17.png'', [3, 5, 7, 8, 9, 10]),
    (''Timebreaker'', ''ux/traiticons/trait_icon_17_timebreaker.tft_set17.png'', [2, 3, 4]),
    (''Vanguard'', ''ux/traiticons/trait_icon_12_vanguard.tft_set12.png'', [2, 4, 6]),
    (''Voyager'', ''ux/traiticons/trait_icon_17_voyager.tft_set17.png'', [2, 3, 4, 5, 6])]"

section \<open>Augments\<close>

record builder_augment =
  ba_id :: string
  ba_name :: string
  ba_icon :: string
  ba_tier :: string
  ba_category :: string

definition builder_augment_of :: "string \<times> string \<times> string \<times> string \<times> string \<Rightarrow> builder_augment" where
  "builder_augment_of = (\<lambda>(i, nm, path, tr, cat).
     \<lparr>ba_id = i, ba_name = nm, ba_icon = asset path, ba_tier = tr, ba_category = cat\<rparr>)"


text \<open>The augments of numbered sets, then the generic ones.\<close>

definition SET_AUGMENTS :: "builder_augment list" where
  "SET_AUGMENTS = map builder_augment_of [
    (''TFT10_Augment_CrashTestDummies'', ''Crash Test Dummies'', ''maps/tft/icons/augments/hexcore/crash-test-dummies-ii.png'', ''gold'', ''standard''),
    (''TFT10_Augment_GoingLong'', ''Going Long'', ''maps/tft/icons/augments/hexcore/going-long-iii.png'', ''gold'', ''standard''),
    (''TFT10_Augment_GoodForSomethingSilver'', ''Good For Something I'', ''maps/tft/icons/augments/hexcore/good-for-something-i.png'', ''silver'', ''standard''),
    (''TFT10_Augment_HeroicGrabBag'', ''Heroic Grab Bag'', ''maps/tft/icons/augments/hexcore/heroic-grab-bag-ii.png'', ''gold'', ''standard''),
    (''TFT10_Augment_LittleBuddies'', ''Little Buddies'', ''maps/tft/icons/augments/hexcore/little-buddies-ii.png'', ''gold'', ''standard''),
    (''TFT11_Augment_AtWhatCost'', ''At What Cost'', ''maps/tft/icons/augments/hexcore/atwhatcost_iii.png'', ''gold'', ''standard''),
    (''TFT11_Augment_BloodBank'', ''Lunch Money'', ''maps/tft/icons/augments/hexcore/bloodbank_i.png'', ''gold'', ''standard''),
    (''TFT11_Augment_Buildabud'', ''Build a Bud'', ''maps/tft/icons/augments/hexcore/constructacompanion_iii.tft_set16.png'', ''gold'', ''standard''),
    (''TFT11_Augment_Calltochaos'', ''Call to Chaos'', ''maps/tft/icons/augments/hexcore/calltochaos_iii.png'', ''gold'', ''standard''),
    (''TFT11_Augment_Epoch'', ''Epoch'', ''maps/tft/icons/augments/hexcore/epoch_ii.png'', ''gold'', ''standard''),
    (''TFT11_Augment_EpochPlus'', ''Epoch+'', ''maps/tft/icons/augments/hexcore/epoch_ii.png'', ''gold'', ''standard''),
    (''TFT11_Augment_Prizefighter'', ''Prizefighter'', ''maps/tft/icons/augments/hexcore/prizefighter_ii.png'', ''gold'', ''standard''),
    (''TFT11_Augment_Reinfourcement'', ''ReinFOURcement'', ''maps/tft/icons/augments/hexcore/reinfourcement_ii.png'', ''gold'', ''standard''),
    (''TFT11_Augment_Slammin'', (''Slammin'' @ [CHR 0x27]), ''maps/tft/icons/augments/hexcore/slammin_ii.png'', ''gold'', ''standard''),
    (''TFT11_Augment_Slammin_Plus'', ''Slammin'+'', ''maps/tft/icons/augments/hexcore/slammin_ii.png'', ''gold'', ''standard''),
    (''TFT11_Augment_TinyButDeadly'', ''Tiny, but Deadly'', ''maps/tft/icons/augments/hexcore/tinybutdeadly_iii.png'', ''gold'', ''standard''),
    (''TFT16_Augment_UltraRapidFire'', ''U.R.F'', ''maps/tft/icons/augments/hexcore/ultrarapidfire_ii.tft_set16.png'', ''gold'', ''standard''),
    (''TFT17_Augment_AatroxCarry'', ''Stellar Combo'', ''maps/tft/icons/augments/hexcore/aatroxhero_i.tft_set17.png'', ''gold'', ''standard''),
    (''TFT17_Augment_AhriGodAugment'', ''Ahri's Boon'', ''maps/tft/icons/augments/hexcore/godaugmentahri_ii.tft_set17.png'', ''gold'', ''god''),
    (''TFT17_Augment_AnimaSquad_Commander'', ''Anima Commander'', ''maps/tft/icons/augments/hexcore/animacommander_ii.tft_set17.png'', ''gold'', ''standard''),
    (''TFT17_Augment_ApotheoticForge'', ''Apotheotic Forge'', ''maps/tft/icons/augments/hexcore/job_s-done-ii.png'', ''gold'', ''standard''),
    (''TFT17_Augment_Arbiter_DivineAmendment'', ''Divine Amendment'', ''maps/tft/icons/augments/hexcore/divineamendment_ii.tft_set17_postlaunchaugments.png'', ''gold'', ''standard''),
    (''TFT17_Augment_AurelionSolGodAugment'', ''Aurelion Sol's Boon'', ''maps/tft/icons/augments/hexcore/godaugmentaurelionsol_ii.tft_set17.png'', ''gold'', ''god''),
    (''TFT17_Augment_AurelionSolGodAugment_BoonOfResurrection'', ''Boon of Resurrection'', ''maps/tft/icons/augments/hexcore/missing-t2.png'', ''gold'', ''god''),
    (''TFT17_Augment_Concentration'', ''Concentration'', ''maps/tft/icons/augments/hexcore/concentration_ii.tft_17_3.png'', ''gold'', ''standard''),
    (''TFT17_Augment_DarkStar_WhiteHole'', ''Loot Singularity'', ''maps/tft/icons/augments/hexcore/whitehole_ii.tft_17_3.png'', ''gold'', ''standard''),
    (''TFT17_Augment_EkkoGodAugment'', ''Ekko's Boon'', ''maps/tft/icons/augments/hexcore/godaugmentekko_ii.tft_set17.png'', ''gold'', ''god''),
    (''TFT17_Augment_EvelynnGodAugment'', ''Evelynn's Boon'', ''maps/tft/icons/augments/hexcore/godaugmentevelynn_ii.tft_set17.png'', ''gold'', ''god''),
    (''TFT17_Augment_EvelynnGodAugment_BloodPrice'', ''Blood Price'', ''maps/tft/icons/augments/hexcore/missing-t2.png'', ''gold'', ''god''),
    (''TFT17_Augment_GragasCarry'', ''Self Destruct'', ''maps/tft/icons/augments/hexcore/selfdestruct_ii.tft_set17.png'', ''gold'', ''standard''),
    (''TFT17_Augment_InvaderZed'', ''Invader Zed'', ''maps/tft/icons/augments/hexcore/invaderzed_ii.tft_set17.png'', ''gold'', ''standard''),
    (''TFT17_Augment_IvernMinionCarry'', ''The Big Bang'', ''maps/tft/icons/augments/hexcore/meepspace9_ii.tft_set17.png'', ''gold'', ''standard''),
    (''TFT17_Augment_JaxCarry'', ''Reach for the Stars'', ''maps/tft/icons/augments/hexcore/reachforthestars_ii.tft_set17.png'', ''gold'', ''standard''),
    (''TFT17_Augment_KayleGodAugment'', ''Kayle's Boon'', ''maps/tft/icons/augments/hexcore/godaugmentkayle_ii.tft_set17.png'', ''gold'', ''god''),
    (''TFT17_Augment_KayleGodAugment_Scrapper'', ''Boon of the Scrapper'', ''maps/tft/icons/augments/hexcore/missing-t2.png'', ''gold'', ''god''),
    (''TFT17_Augment_LeonaCarry'', ''Shieldmaiden'', ''maps/tft/icons/augments/hexcore/leonahero_i.tft_set17_postlaunchaugments.png'', ''gold'', ''standard''),
    (''TFT17_Augment_MordekaiserCarry'', ''Heat Death'', ''maps/tft/icons/augments/hexcore/starconqueror_ii.tft_set17.png'', ''gold'', ''standard''),
    (''TFT17_Augment_NasusCarry'', ''Bonk!'', ''maps/tft/icons/augments/hexcore/bonk_i.tft_set17.png'', ''gold'', ''standard''),
    (''TFT17_Augment_PoppyCarry'', ''Termeepnal Velocity'', ''maps/tft/icons/augments/hexcore/poppyhero_i.tft_set17.png'', ''gold'', ''standard''),
    (''TFT17_Augment_PrimordianPrismaticAugment'', ''Heart of the Swarm'', ''maps/tft/icons/augments/hexcore/heartoftheswarm_iii.tft_set17_postlaunchaugments.png'', ''gold'', ''standard''),
    (''TFT17_Augment_PykeCarry'', ''Contract Killer'', ''maps/tft/icons/augments/hexcore/contractkiller_ii.tft_set17.png'', ''gold'', ''standard''),
    (''TFT17_Augment_SorakaGodAugment'', ''Soraka's Boon'', ''maps/tft/icons/augments/hexcore/godaugmentsoraka_ii.tft_set17.png'', ''gold'', ''god''),
    (''TFT17_Augment_ThreshGodAugment'', ''Thresh's Boon'', ''maps/tft/icons/augments/hexcore/godaugmentthresh_ii.tft_set17.png'', ''gold'', ''god''),
    (''TFT17_Augment_Timebreaker_Timestream'', ''Timestream'', ''maps/tft/icons/augments/hexcore/timestream_ii.tft_set17_postlaunchaugments.png'', ''gold'', ''standard''),
    (''TFT17_Augment_TourOfTheGalaxy'', ''Tour of the Galaxy'', ''maps/tft/icons/augments/hexcore/tourofthegalaxy_ii.tft_set17_postlaunchaugments.png'', ''gold'', ''standard''),
    (''TFT17_Augment_VarusGodAugment_BoonOfStars'', ''Varus's Boon'', ''maps/tft/icons/augments/hexcore/godaugmentvarus_ii.tft_set17.png'', ''gold'', ''god''),
    (''TFT17_Augment_YasuoGodAugment_GoldenHex'', ''Yasuo's Golden Hex'', ''maps/tft/icons/augments/hexcore/findyourcenter_i.tft_set12.png'', ''gold'', ''god''),
    (''TFT17_Augment_YasuoGodAugment_MoreHexes'', ''Yasuo's Share The Spotlight'', ''maps/tft/icons/augments/hexcore/sharespotlight2.png'', ''gold'', ''god''),
    (''TFT17_Augment_YasuoGodAugment_PaintedPower'', ''Yasuo's Boon'', ''maps/tft/icons/augments/hexcore/godaugmentyasuo_ii.tft_set17.png'', ''gold'', ''god''),
    (''TFT6_Augment_BandOfThieves2'', ''Band of Thieves II'', ''maps/tft/icons/augments/hexcore/bandthieves3.png'', ''gold'', ''standard''),
    (''TFT6_Augment_BandOfThieves2Plus'', ''Band of Thieves II+'', ''maps/tft/icons/augments/hexcore/bandthieves3.png'', ''gold'', ''standard''),
    (''TFT6_Augment_BandOfThieves2PlusPlus'', ''Band of Thieves II++'', ''maps/tft/icons/augments/hexcore/bandthieves3.png'', ''gold'', ''standard''),
    (''TFT6_Augment_CalculatedLoss'', ''Calculated Loss'', ''maps/tft/icons/augments/hexcore/calculatedloss2.png'', ''gold'', ''standard''),
    (''TFT6_Augment_ClearMind'', ''Clear Mind'', ''maps/tft/icons/augments/hexcore/clearmind2.png'', ''gold'', ''standard''),
    (''TFT6_Augment_CyberneticImplants2'', ''Cybernetic Implants'', ''maps/tft/icons/augments/hexcore/cybernetic2.png'', ''gold'', ''standard''),
    (''TFT6_Augment_CyberneticUplink2'', ''Cybernetic Uplink'', ''maps/tft/icons/augments/hexcore/cybernetic-uplink-ii.png'', ''gold'', ''standard''),
    (''TFT6_Augment_Distancing'', ''Exiles I'', ''maps/tft/icons/augments/hexcore/exiles1.png'', ''silver'', ''standard''),
    (''TFT6_Augment_Distancing2'', ''Exiles II'', ''maps/tft/icons/augments/hexcore/exiles2.png'', ''gold'', ''standard''),
    (''TFT6_Augment_Diversify1'', ''Stand United'', ''maps/tft/icons/augments/hexcore/standunited1.png'', ''gold'', ''standard''),
    (''TFT6_Augment_Electrocharge1'', ''Electrocharge I'', ''maps/tft/icons/augments/hexcore/electrocharge-i.png'', ''silver'', ''standard''),
    (''TFT6_Augment_Electrocharge2'', ''Electrocharge II'', ''maps/tft/icons/augments/hexcore/electrocharge-ii.png'', ''gold'', ''standard''),
    (''TFT6_Augment_ForceOfNature'', ''New Recruit'', ''maps/tft/icons/augments/hexcore/newrecruit3.png'', ''gold'', ''standard''),
    (''TFT6_Augment_ForceOfNaturePlus'', ''New Recruit+'', ''maps/tft/icons/augments/hexcore/newrecruit3.png'', ''gold'', ''standard''),
    (''TFT6_Augment_GachaAddict'', ''Prismatic Ticket'', ''maps/tft/icons/augments/hexcore/goldenticket3.png'', ''gold'', ''standard''),
    (''TFT6_Augment_HyperRoll'', ''Hustler'', ''maps/tft/icons/augments/hexcore/hyperroll2.png'', ''gold'', ''standard''),
    (''TFT6_Augment_ItemGrabBag1'', ''Item Grab Bag'', ''maps/tft/icons/augments/hexcore/itemgrabbag1.png'', ''gold'', ''standard''),
    (''TFT6_Augment_MakeshiftArmor1'', ''Makeshift Armor I'', ''maps/tft/icons/augments/hexcore/makeshift1.png'', ''silver'', ''standard''),
    (''TFT6_Augment_MakeshiftArmor2'', ''Makeshift Armor II'', ''maps/tft/icons/augments/hexcore/makeshift2.png'', ''gold'', ''standard''),
    (''TFT6_Augment_MaxLevel10'', ''Level Up!'', ''maps/tft/icons/augments/hexcore/levelup3.png'', ''gold'', ''standard''),
    (''TFT6_Augment_OneTwoFive'', ''One, Two, Five!'', ''maps/tft/icons/augments/hexcore/one-two-five-i.png'', ''gold'', ''standard''),
    (''TFT6_Augment_PandorasItems'', ''Pandora's Items'', ''maps/tft/icons/augments/hexcore/pandora1.png'', ''gold'', ''standard''),
    (''TFT6_Augment_PortableForge'', ''Portable Forge'', ''maps/tft/icons/augments/hexcore/portableforge2.png'', ''gold'', ''standard''),
    (''TFT6_Augment_Recombobulator'', ''Recombobulator'', ''maps/tft/icons/augments/hexcore/recombobulator-i.png'', ''gold'', ''standard''),
    (''TFT6_Augment_SalvageBin'', ''Salvage Bin'', ''maps/tft/icons/augments/hexcore/salvage2.png'', ''gold'', ''standard''),
    (''TFT6_Augment_SecondWind1'', ''Second Wind'', ''maps/tft/icons/augments/hexcore/second--wind-i.png'', ''gold'', ''standard''),
    (''TFT6_Augment_SecondWind2'', ''Second Wind II'', ''maps/tft/icons/augments/hexcore/second--wind-ii.png'', ''gold'', ''standard''),
    (''TFT6_Augment_SunfireBoard'', ''Sunfire Board'', ''maps/tft/icons/augments/hexcore/sunfireboard2.png'', ''gold'', ''standard''),
    (''TFT6_Augment_TheGoldenEgg'', ''The Golden Egg'', ''maps/tft/icons/augments/hexcore/the-golden-egg-iii.png'', ''gold'', ''standard''),
    (''TFT6_Augment_ThriftShop'', ''Wise Spending'', ''maps/tft/icons/augments/hexcore/wisespending3.png'', ''gold'', ''standard''),
    (''TFT6_Augment_TinyTitans'', ''Tiny Titans'', ''maps/tft/icons/augments/hexcore/tiny-titans-i.png'', ''gold'', ''standard''),
    (''TFT6_Augment_TradeSector'', ''Trade Sector'', ''maps/tft/icons/augments/hexcore/trade2.png'', ''gold'', ''standard''),
    (''TFT6_Augment_TradeSector2'', ''Commerce Core'', ''maps/tft/icons/augments/hexcore/trade3.png'', ''gold'', ''standard''),
    (''TFT7_Augment_AFK'', ''AFK'', ''maps/tft/icons/augments/hexcore/afk-i.png'', ''gold'', ''standard''),
    (''TFT7_Augment_BandOfThieves1'', ''Band of Thieves'', ''maps/tft/icons/augments/hexcore/bandthieves1.png'', ''gold'', ''standard''),
    (''TFT7_Augment_BestFriends1'', ''Best Friends I'', ''maps/tft/icons/augments/hexcore/best-friends-i.png'', ''silver'', ''standard''),
    (''TFT7_Augment_BestFriends2'', ''Best Friends II'', ''maps/tft/icons/augments/hexcore/best-friends-ii.png'', ''gold'', ''standard''),
    (''TFT7_Augment_BirthdayPresents'', ''Birthday Present'', ''maps/tft/icons/augments/hexcore/golden-gifts-iii.png'', ''gold'', ''standard''),
    (''TFT7_Augment_ClutteredMind'', ''Cluttered Mind'', ''maps/tft/icons/augments/hexcore/dizzy-ii.png'', ''gold'', ''standard''),
    (''TFT7_Augment_CursedCrown'', ''Cursed Crown'', ''maps/tft/icons/augments/hexcore/cursedcrown-iii.png'', ''gold'', ''standard''),
    (''TFT7_Augment_LategameSpecialist'', ''Late Game Specialist'', ''maps/tft/icons/augments/hexcore/late-game-specialist-i.png'', ''gold'', ''standard''),
    (''TFT7_Augment_LivingForge'', ''Living Forge'', ''maps/tft/icons/augments/hexcore/living-forge-iii.png'', ''gold'', ''standard''),
    (''TFT7_Augment_LuckyGloves'', ''Lucky Gloves'', ''maps/tft/icons/augments/hexcore/lucky-gloves-iii.png'', ''gold'', ''standard''),
    (''TFT7_Augment_LuckyGlovesPlus'', ''Lucky Gloves+'', ''maps/tft/icons/augments/hexcore/lucky-gloves-iii.png'', ''gold'', ''standard''),
    (''TFT7_Augment_UrfsGrabBag2'', ''Urf's Grab Bag'', ''maps/tft/icons/augments/hexcore/urfs-grab-bag-iii.png'', ''gold'', ''standard''),
    (''TFT8_Augment_SalvageBinPlus'', ''Salvage Bin+'', ''maps/tft/icons/augments/hexcore/salvage2.png'', ''gold'', ''standard''),
    (''TFT9_Augment_ArmyBuilding'', ''Team Building'', ''maps/tft/icons/augments/hexcore/building-an-army-i.png'', ''gold'', ''standard''),
    (''TFT9_Augment_BardPlaybook1'', ''Caretaker's Ally'', ''maps/tft/icons/augments/hexcore/caretaker_s-chosen-i.png'', ''gold'', ''standard''),
    (''TFT9_Augment_BigGrabBag'', ''Big Grab Bag'', ''maps/tft/icons/augments/hexcore/grab-bag-ii.png'', ''gold'', ''standard''),
    (''TFT9_Augment_BuildingACollectionPlusPlus'', ''Buried Treasures'', ''maps/tft/icons/augments/hexcore/buried-treasures-iii.png'', ''gold'', ''standard''),
    (''TFT9_Augment_Commander_Ascension'', ''Ascension'', ''maps/tft/icons/augments/hexcore/ascension2.png'', ''gold'', ''standard''),
    (''TFT9_Augment_Commander_PartialAscension'', ''Partial Ascension'', ''maps/tft/icons/augments/hexcore/ascension1.png'', ''gold'', ''standard''),
    (''TFT9_Augment_Commander_RollingForDays'', ''Rolling For Days I'', ''maps/tft/icons/augments/hexcore/rolling-for-days-i.png'', ''silver'', ''standard''),
    (''TFT9_Augment_Commander_TeamingUp1'', ''Teaming Up'', ''maps/tft/icons/augments/hexcore/teaming-up-i.png'', ''gold'', ''standard''),
    (''TFT9_Augment_GreaterJeweledLotus'', ''Jeweled Lotus II'', ''maps/tft/icons/augments/hexcore/jeweled-lotus-iii.png'', ''gold'', ''standard''),
    (''TFT9_Augment_HealingOrbsI'', ''Healing Orbs I'', ''maps/tft/icons/augments/hexcore/healing-orbs-i.png'', ''silver'', ''standard''),
    (''TFT9_Augment_HealingOrbsII'', ''Healing Orbs II'', ''maps/tft/icons/augments/hexcore/healing-orbs-ii.png'', ''gold'', ''standard''),
    (''TFT9_Augment_HedgeFund'', ''Hedge Fund'', ''maps/tft/icons/augments/hexcore/richgetricher3.png'', ''gold'', ''standard''),
    (''TFT9_Augment_HedgeFundPlus'', ''Hedge Fund+'', ''maps/tft/icons/augments/hexcore/richgetricher3.png'', ''gold'', ''standard''),
    (''TFT9_Augment_IronAssets'', ''Iron Assets'', ''maps/tft/icons/augments/hexcore/iron-assets-i.png'', ''gold'', ''standard''),
    (''TFT9_Augment_JeweledLotus'', ''Jeweled Lotus I'', ''maps/tft/icons/augments/hexcore/jeweled-lotus-ii.png'', ''silver'', ''standard''),
    (''TFT9_Augment_LearningFromExperience2'', ''Patient Study'', ''maps/tft/icons/augments/hexcore/learning-from-experience-ii.png'', ''gold'', ''standard''),
    (''TFT9_Augment_Legend_HighEndSector'', ''Shopping Spree'', ''maps/tft/icons/augments/hexcore/silver-ticket-iii.png'', ''gold'', ''standard''),
    (''TFT9_Augment_LongTimeCrafting'', ''Latent Forge'', ''maps/tft/icons/augments/hexcore/long-time-crafting-i.png'', ''gold'', ''standard''),
    (''TFT9_Augment_MissedConnections'', ''Missed Connections'', ''maps/tft/icons/augments/hexcore/missed-connections-i.png'', ''gold'', ''standard''),
    (''TFT9_Augment_OneTwosThree'', ''One Two Three'', ''maps/tft/icons/augments/hexcore/threes-company-i.png'', ''gold'', ''standard''),
    (''TFT9_Augment_PandorasItems2'', ''Pandora's Items II'', ''maps/tft/icons/augments/hexcore/pandora2.png'', ''gold'', ''standard''),
    (''TFT9_Augment_PandorasRadiantBox'', ''Pandora's Items III'', ''maps/tft/icons/augments/hexcore/pandora3.png'', ''prismatic'', ''standard''),
    (''TFT9_Augment_RiskyMoves'', ''Risky Moves'', ''maps/tft/icons/augments/hexcore/risky-moves-i.png'', ''gold'', ''standard''),
    (''TFT9_Augment_RollTheDice'', ''Radiant Rascal'', ''maps/tft/icons/augments/hexcore/roll-the-dice-iii.png'', ''gold'', ''standard''),
    (''TFT9_Augment_SilverSpoon'', ''Silver Spoon'', ''maps/tft/icons/augments/hexcore/silver-spoon-i.png'', ''gold'', ''standard''),
    (''TFT9_Augment_TiniestTitanPlus'', ''Tiniest Titan'', ''maps/tft/icons/augments/hexcore/tiniest-titaniii.png'', ''gold'', ''standard''),
    (''TFT9_Augment_TonsOfStats'', ''Tons of Stats!'', ''maps/tft/icons/augments/hexcore/tons-of-stats-ii.png'', ''gold'', ''standard''),
    (''TFT9_Augment_YouHaveMyBow'', ''You Have My Bow'', ''maps/tft/icons/augments/hexcore/you-have-my-bow-ii.png'', ''gold'', ''standard'')]"

definition GENERIC_AUGMENTS :: "builder_augment list" where
  "GENERIC_AUGMENTS = map builder_augment_of [
    (''TFT_Augment_AdvancedLoan'', ''Advanced Loan'', ''maps/tft/icons/augments/hexcore/advancedloan_ii.tft_set16.png'', ''gold'', ''standard''),
    (''TFT_Augment_AdvancedLoanPlus'', ''Advanced Loan+'', ''maps/tft/icons/augments/hexcore/advancedloan_ii.tft_set16.png'', ''gold'', ''standard''),
    (''TFT_Augment_AnExaltedAdventure'', ''An Exalted Adventure'', ''maps/tft/icons/augments/hexcore/exaltedadventure_iii.tft_set13.png'', ''gold'', ''standard''),
    (''TFT_Augment_ArcaneViktory'', ''Arcane Viktor-y'', ''maps/tft/icons/augments/hexcore/arcaneviktory_ii.png'', ''gold'', ''standard''),
    (''TFT_Augment_AuraFarming'', ''Aura Farming'', ''maps/tft/icons/augments/hexcore/aurafarming_ii.tft_set15.png'', ''gold'', ''standard''),
    (''TFT_Augment_AwakenedSoul'', ''Soul Awakening'', ''maps/tft/icons/augments/hexcore/awakenedsoul_iii.tft_set16.png'', ''gold'', ''standard''),
    (''TFT_Augment_BacklineBlueprint'', ''Backline Blueprint'', ''maps/tft/icons/augments/hexcore/backlineblueprint_ii.tft_set17.png'', ''gold'', ''standard''),
    (''TFT_Augment_BeltOverflow'', ''Belt Overflow'', ''maps/tft/icons/augments/hexcore/beltoverflow_iii.tft_set13.png'', ''gold'', ''standard''),
    (''TFT_Augment_BirthdayReunion'', ''Birthday Reunion'', ''maps/tft/icons/augments/hexcore/birthdayreunion_ii.png'', ''gold'', ''standard''),
    (''TFT_Augment_BodyguardTraining'', ''Bodyguard Training'', ''maps/tft/icons/augments/hexcore/bodyguardstraining_ii.png'', ''gold'', ''standard''),
    (''TFT_Augment_BoosterPack'', ''Booster Pack'', ''maps/tft/icons/augments/hexcore/boosterpack1_ii.tft_set17.png'', ''gold'', ''standard''),
    (''TFT_Augment_BoosterPackPlus'', ''Booster Pack+'', ''maps/tft/icons/augments/hexcore/boosterpack1_ii.tft_set17.png'', ''gold'', ''standard''),
    (''TFT_Augment_BoxingLessons'', ''Boxing Lessons'', ''maps/tft/icons/augments/hexcore/boxinglessons_i.tft_set16.png'', ''gold'', ''standard''),
    (''TFT_Augment_BranchingOut'', ''Branching Out'', ''maps/tft/icons/augments/hexcore/branching-out-i.png'', ''gold'', ''standard''),
    (''TFT_Augment_BranchingOutPlus'', ''Branching Out+'', ''maps/tft/icons/augments/hexcore/branching-out-i.png'', ''gold'', ''standard''),
    (''TFT_Augment_BronzeForLife2'', ''Bronze For Life II'', ''maps/tft/icons/augments/hexcore/bronzeforlife_iii.tft_set13.png'', ''gold'', ''standard''),
    (''TFT_Augment_BronzeForLifeI'', ''Bronze For Life I'', ''maps/tft/icons/augments/hexcore/bronzeforlife_ii.tft_set13.png'', ''silver'', ''standard''),
    (''TFT_Augment_ChargeTransfer1'', ''Charge Transfer I'', ''maps/tft/icons/augments/hexcore/chargetransfer1_i.tft_set17.png'', ''silver'', ''standard''),
    (''TFT_Augment_ChargeTransfer2'', ''Charge Transfer II'', ''maps/tft/icons/augments/hexcore/chargetransfer2_ii.tft_set17.png'', ''gold'', ''standard''),
    (''TFT_Augment_ClimbTheLadder1'', ''Climb The Ladder I'', ''maps/tft/icons/augments/hexcore/climbtheladder_i.tft_set13.png'', ''silver'', ''standard''),
    (''TFT_Augment_ClimbTheLadder2'', ''Climb The Ladder II'', ''maps/tft/icons/augments/hexcore/climbtheladder_ii.tft_set13.png'', ''gold'', ''standard''),
    (''TFT_Augment_ClockworkAccelerator'', ''Clockwork Accelerator'', ''maps/tft/icons/augments/hexcore/clockworkaccelerator_ii.tft_set12.png'', ''gold'', ''standard''),
    (''TFT_Augment_CognitiveOverload'', ''Cognitive Overload'', ''maps/tft/icons/augments/hexcore/cognitiveoverload_ii.tft_set17.png'', ''gold'', ''standard''),
    (''TFT_Augment_CognitiveTax'', ''Cognitive Tax'', ''maps/tft/icons/augments/hexcore/cognitivetax_i.tft_set17.png'', ''gold'', ''standard''),
    (''TFT_Augment_CognitiveTaxPlus'', ''Cognitive Tax+'', ''maps/tft/icons/augments/hexcore/cognitivetax_i.tft_set17.png'', ''gold'', ''standard''),
    (''TFT_Augment_ComebackStory'', ''Comeback Story'', ''maps/tft/icons/augments/hexcore/comebackstory_iii.tft_set16.png'', ''gold'', ''standard''),
    (''TFT_Augment_ComponentQuestBow'', ''Backup Bows'', ''maps/tft/icons/augments/hexcore/recurvewrecker_i.tft_set16.png'', ''gold'', ''standard''),
    (''TFT_Augment_ComponentQuestRod'', ''Continuous Conjuration'', ''maps/tft/icons/augments/hexcore/hyperbolicrodextender_i.tft_set16.png'', ''gold'', ''standard''),
    (''TFT_Augment_ComponentQuestSword'', ''Carve a Path'', ''maps/tft/icons/augments/hexcore/carveapath_i.tft_set16.png'', ''gold'', ''standard''),
    (''TFT_Augment_ComponentQuestTear'', ''Flowing Tears'', ''maps/tft/icons/augments/hexcore/griefofthegreatgoddess_i.tft_set16.png'', ''gold'', ''standard''),
    (''TFT_Augment_ConstructACompanion'', ''Construct a Companion'', ''maps/tft/icons/augments/hexcore/constructacompanion_iii.tft_set16.png'', ''gold'', ''standard''),
    (''TFT_Augment_Corrosion'', ''Corrosion'', ''maps/tft/icons/augments/hexcore/corrosion_i.tft_set13.png'', ''gold'', ''standard''),
    (''TFT_Augment_CosmicRestart'', ''Cosmic Restart'', ''maps/tft/icons/augments/hexcore/cosmicrestart_ii.tft_set17.png'', ''gold'', ''standard''),
    (''TFT_Augment_CraftedCrafting'', ''Crafted Crafting'', ''maps/tft/icons/augments/hexcore/craftedcrafting_i.tft_set13.png'', ''gold'', ''standard''),
    (''TFT_Augment_CryMeARiver'', ''Cry Me A River'', ''maps/tft/icons/augments/hexcore/crymeariver_ii.tft_set15.png'', ''gold'', ''standard''),
    (''TFT_Augment_DeadlierCaps'', ''Deadlier Caps'', ''maps/tft/icons/augments/hexcore/deadliercaps_ii.tft_set15.png'', ''gold'', ''standard''),
    (''TFT_Augment_Dhampyr1'', ''Vampiric Vitality I'', ''maps/tft/icons/augments/hexcore/dhampyr_ii.tft_set13.png'', ''silver'', ''standard''),
    (''TFT_Augment_Dummify'', ''Dummify'', ''maps/tft/icons/augments/hexcore/dummify_i.tft_set13.png'', ''gold'', ''standard''),
    (''TFT_Augment_DuoQueue'', ''Duo Queue'', ''maps/tft/icons/augments/hexcore/duoqueue_ii.tft_set12.png'', ''gold'', ''standard''),
    (''TFT_Augment_EarlyLearning'', ''Early Learnings'', ''maps/tft/icons/augments/hexcore/earlylearning_ii.png'', ''gold'', ''standard''),
    (''TFT_Augment_EpicRolldown'', ''Epic Rolldown'', ''maps/tft/icons/augments/hexcore/epicrolldown_ii.png'', ''gold'', ''standard''),
    (''TFT_Augment_ExclusiveCustomization'', ''Exclusive Customization'', ''maps/tft/icons/augments/hexcore/exclusivecustomization_ii.tft_set15.png'', ''gold'', ''standard''),
    (''TFT_Augment_ExclusiveCustomization2'', ''Exclusive Customization II'', ''maps/tft/icons/augments/hexcore/exclusivecustomization_ii.tft_set15.png'', ''gold'', ''standard''),
    (''TFT_Augment_ExpectedUnexpectedness'', ''Expected Unexpectedness'', ''maps/tft/icons/augments/hexcore/addicted-to-rolling-iii.png'', ''gold'', ''standard''),
    (''TFT_Augment_Expedition'', ''Expedition'', ''maps/tft/icons/augments/hexcore/expedition_i.tft_set17.png'', ''gold'', ''standard''),
    (''TFT_Augment_ExplosiveGrowth'', ''Explosive Growth'', ''maps/tft/icons/augments/hexcore/explosivegrowth_ii.tft_set12.png'', ''gold'', ''standard''),
    (''TFT_Augment_ExplosiveGrowthPlus'', ''Explosive Growth+'', ''maps/tft/icons/augments/hexcore/explosivegrowth_ii.tft_set12.png'', ''gold'', ''standard''),
    (''TFT_Augment_FeedTheFlames'', ''Feed the Flames'', ''maps/tft/icons/augments/hexcore/feedtheflames_ii.tft_set16.png'', ''gold'', ''standard''),
    (''TFT_Augment_FeelingLucky'', ''Feeling Lucky'', ''maps/tft/icons/augments/hexcore/feelinglucky_i.tft_set17.png'', ''gold'', ''standard''),
    (''TFT_Augment_FindYourCenter'', ''Find Your Center'', ''maps/tft/icons/augments/hexcore/findyourcenter_i.tft_set12.png'', ''gold'', ''standard''),
    (''TFT_Augment_FiresalePlus'', ''Firesale'', ''maps/tft/icons/augments/hexcore/firesale_i.tft_set13.png'', ''gold'', ''standard''),
    (''TFT_Augment_Flexible'', ''Flexible'', ''maps/tft/icons/augments/hexcore/flexible_ii.tft_set12.png'', ''gold'', ''standard''),
    (''TFT_Augment_ForgeAFriend'', ''Forge a Friend'', ''maps/tft/icons/augments/hexcore/constructacompanion_iii.tft_set16.png'', ''gold'', ''standard''),
    (''TFT_Augment_ForgeRod'', ''Staffsmith'', ''maps/tft/icons/augments/hexcore/rodsmith_ii.tft_set16.png'', ''gold'', ''standard''),
    (''TFT_Augment_ForgeSword'', ''Swordsmith'', ''maps/tft/icons/augments/hexcore/swordsmith_ii.tft_set16.png'', ''gold'', ''standard''),
    (''TFT_Augment_ForgedInStrength'', ''Forged in Strength'', ''maps/tft/icons/augments/hexcore/forgedinstrength_iii.png'', ''gold'', ''standard''),
    (''TFT_Augment_ForwardThinking'', ''Forward Thinking'', ''maps/tft/icons/augments/hexcore/forwardthinking_ii.tft_set13.png'', ''gold'', ''standard''),
    (''TFT_Augment_FrontlineFoundation'', ''Frontline Foundation'', ''maps/tft/icons/augments/hexcore/frontlinefoundation_ii.tft_set17.png'', ''gold'', ''standard''),
    (''TFT_Augment_FuriousBlows'', ''Kahunahuna'', ''maps/tft/icons/augments/hexcore/furiousblows_ii.tft_set16.png'', ''gold'', ''standard''),
    (''TFT_Augment_GainGold'', ''Gain @Gold@ Gold'', ''maps/tft/icons/augments/hexcore/windfall2.png'', ''gold'', ''standard''),
    (''TFT_Augment_GiantAndMighty'', ''Giant and Mighty'', ''maps/tft/icons/augments/hexcore/giantandmighty_iii.tft_set12.png'', ''gold'', ''standard''),
    (''TFT_Augment_GildedSteel'', ''Gilded Steel'', ''maps/tft/icons/augments/hexcore/gildedsteel_ii.tft_16_4.png'', ''gold'', ''standard''),
    (''TFT_Augment_GlassCannonI'', ''Glass Cannon I'', ''maps/tft/icons/augments/hexcore/glasscannon_i.tft_set13.png'', ''silver'', ''standard''),
    (''TFT_Augment_GlassCannonII'', ''Glass Cannon II'', ''maps/tft/icons/augments/hexcore/glasscannon_ii.tft_set13.png'', ''gold'', ''standard''),
    (''TFT_Augment_GoldenGamble'', ''Golden Gamble'', ''maps/tft/icons/augments/hexcore/goldengamble_iii.tft_set17.png'', ''gold'', ''standard''),
    (''TFT_Augment_GoldenGamblePlus'', ''Golden Gamble+'', ''maps/tft/icons/augments/hexcore/goldengamble_iii.tft_set17.png'', ''gold'', ''standard''),
    (''TFT_Augment_GoldenGamblePlusPlus'', ''Golden Gamble++'', ''maps/tft/icons/augments/hexcore/goldengamble_iii.tft_set17.png'', ''gold'', ''standard''),
    (''TFT_Augment_GroupHug1'', ''Group Hug I'', ''maps/tft/icons/augments/hexcore/grouphug1_i.tft_set17.png'', ''silver'', ''standard''),
    (''TFT_Augment_GroupHug2'', ''Group Hug II'', ''maps/tft/icons/augments/hexcore/grouphug2_ii.tft_set17.png'', ''gold'', ''standard''),
    (''TFT_Augment_GuardbreakerSpirit'', ''Mace's Will'', ''maps/tft/icons/augments/hexcore/will-of-the-flail-ii.png'', ''gold'', ''standard''),
    (''TFT_Augment_HardCommit'', ''Hard Commit'', ''maps/tft/icons/augments/hexcore/hardcommit_iii.tft_set12.png'', ''gold'', ''standard''),
    (''TFT_Augment_HeavyIsTheCrown'', ''Heavy Is the Crown'', ''maps/tft/icons/augments/hexcore/heavyisthecrown_ii.tft_set15.png'', ''gold'', ''standard''),
    (''TFT_Augment_HeroicGrabBagPlus'', ''Heroic Grab Bag+'', ''maps/tft/icons/augments/hexcore/heroic-grab-bag-ii.png'', ''gold'', ''standard''),
    (''TFT_Augment_HeroicGrabBagPlusPlus'', ''Heroic Grab Bag++'', ''maps/tft/icons/augments/hexcore/heroic-grab-bag-ii.png'', ''gold'', ''standard''),
    (''TFT_Augment_HighVoltage'', ''High Voltage'', ''maps/tft/icons/augments/hexcore/highvoltage_ii.tft_set12.png'', ''gold'', ''standard''),
    (''TFT_Augment_HoldTheLine'', ''Hold the Line'', ''maps/tft/icons/augments/hexcore/holdtheline_iii.tft_set15.png'', ''gold'', ''standard''),
    (''TFT_Augment_HomeCooking'', ''Care Package'', ''maps/tft/icons/augments/hexcore/carepackage_ii.tft_set15.png'', ''gold'', ''standard''),
    (''TFT_Augment_InfinityProtection'', ''Infinity Protection'', ''maps/tft/icons/augments/hexcore/infinityprotection_ii.png'', ''gold'', ''standard''),
    (''TFT_Augment_InvestedPlus'', ''Invested+'', ''maps/tft/icons/augments/hexcore/invested-iii.png'', ''gold'', ''standard''),
    (''TFT_Augment_InvestedPlusPlus'', ''Invested++'', ''maps/tft/icons/augments/hexcore/invested-iii.png'', ''gold'', ''standard''),
    (''TFT_Augment_ItemGargoyleStoneplate'', ''Solo Plate'', ''maps/tft/icons/augments/hexcore/soloplate_ii.tft_set16.png'', ''gold'', ''standard''),
    (''TFT_Augment_ItemSpiritVisage'', ''Spirit of Redemption'', ''maps/tft/icons/augments/hexcore/spiritofredemption_ii.tft_set16.png'', ''gold'', ''standard''),
    (''TFT_Augment_JustSlayer'', ''Indiscriminate Killer'', ''maps/tft/icons/augments/hexcore/indiscriminateslayer_ii.tft_set16.png'', ''gold'', ''standard''),
    (''TFT_Augment_KickStart'', ''Kick Start'', ''maps/tft/icons/augments/hexcore/kickstart_i.tft_set17.png'', ''gold'', ''standard''),
    (''TFT_Augment_LateGameScaling'', ''Late Game Scaling'', ''maps/tft/icons/augments/hexcore/lategamescaling_ii.png'', ''gold'', ''standard''),
    (''TFT_Augment_LegionOfThrees'', ''Legion of Threes'', ''maps/tft/icons/augments/hexcore/legionofthrees_ii.png'', ''gold'', ''standard''),
    (''TFT_Augment_Lineup'', ''Lineup'', ''maps/tft/icons/augments/hexcore/lineup-i.png'', ''gold'', ''standard''),
    (''TFT_Augment_LuxurySubscription'', ''Luxury Subscription'', ''maps/tft/icons/augments/hexcore/luxurysubscription_iii.tft_set16.png'', ''gold'', ''standard''),
    (''TFT_Augment_MagicRoll'', ''A Magic Roll'', ''maps/tft/icons/augments/hexcore/a-magical-roll-ii.png'', ''gold'', ''standard''),
    (''TFT_Augment_MagicRollMinus'', ''Slightly Magic Roll'', ''maps/tft/icons/augments/hexcore/slightlymagicroll_i.tft_set16.png'', ''gold'', ''standard''),
    (''TFT_Augment_MarksMan'', ''Focused Fire'', ''maps/tft/icons/augments/hexcore/marksman_i.tft_set16.png'', ''gold'', ''standard''),
    (''TFT_Augment_MayTheFoursBeWithYou'', ''May the Fours Be With You'', ''maps/tft/icons/augments/hexcore/maythefoursbewithyou_ii.tft_set17.png'', ''gold'', ''standard''),
    (''TFT_Augment_MinMaxer'', ''Min-Max'', ''maps/tft/icons/augments/hexcore/minmax_iii.tft_set16.png'', ''gold'', ''standard''),
    (''TFT_Augment_MirroredMonetization'', ''Malicious Monetization'', ''maps/tft/icons/augments/hexcore/mirroredmonetization_ii.tft_set13.png'', ''gold'', ''standard''),
    (''TFT_Augment_Misfits'', ''Misfits'', ''maps/tft/icons/augments/hexcore/misfits_ii.tft_set17.png'', ''gold'', ''standard''),
    (''TFT_Augment_MoneyHungry'', ''Money Hungry'', ''maps/tft/icons/augments/hexcore/moneyhungry1_ii.tft_set17.png'', ''gold'', ''standard''),
    (''TFT_Augment_MoneyMonsoon'', ''Money Monsoon'', ''maps/tft/icons/augments/hexcore/moneymonsoon_iii.tft_set16.png'', ''gold'', ''standard''),
    (''TFT_Augment_MuseumHeist'', ''Component Heist'', ''maps/tft/icons/augments/hexcore/museumheist_iii.tft_set16.png'', ''gold'', ''standard''),
    (''TFT_Augment_NoScoutNoPivot'', ''NO SCOUT NO PIVOT'', ''maps/tft/icons/augments/hexcore/noscoutnopivot_ii.tft_set13.png'', ''gold'', ''standard''),
    (''TFT_Augment_OneBuffTwoBuff'', ''One Buff, Two Buff'', ''maps/tft/icons/augments/hexcore/onebufftwobuff_iii.tft_set13.png'', ''gold'', ''standard''),
    (''TFT_Augment_PatienceIsAVirtue'', ''Patience is a Virtue'', ''maps/tft/icons/augments/hexcore/patienceisavirtue_i.tft_set12.png'', ''gold'', ''standard''),
    (''TFT_Augment_Pilfer'', ''Pilfer'', ''maps/tft/icons/augments/hexcore/pilfer_ii.tft_set12.png'', ''gold'', ''standard''),
    (''TFT_Augment_PlotArmor'', ''Plot Armor'', ''maps/tft/icons/augments/hexcore/plotarmor_ii.tft_set15.png'', ''gold'', ''standard''),
    (''TFT_Augment_PowerUp'', ''Augmented Power'', ''maps/tft/icons/augments/hexcore/powerup_i.tft_set13.png'', ''gold'', ''standard''),
    (''TFT_Augment_Replication'', ''Replication'', ''maps/tft/icons/augments/hexcore/replication-ii.png'', ''gold'', ''standard''),
    (''TFT_Augment_RestartMission'', ''Restart Mission'', ''maps/tft/icons/augments/hexcore/restartmission_i.tft_set12.png'', ''gold'', ''standard''),
    (''TFT_Augment_Retribution'', ''Retribution'', ''maps/tft/icons/augments/hexcore/retribution_iii.tft_set16.png'', ''gold'', ''standard''),
    (''TFT_Augment_SavingsAccount'', ''Savings Account'', ''maps/tft/icons/augments/hexcore/savingsaccount_ii.tft_set16.png'', ''gold'', ''standard''),
    (''TFT_Augment_SeraphimsStaff'', ''Seraphim's Staff'', ''maps/tft/icons/augments/hexcore/seraphimsstaff_ii.tft_set16.png'', ''gold'', ''standard''),
    (''TFT_Augment_ShimmerscaleEssence'', ''Shimmerscale Essence'', ''maps/tft/icons/augments/hexcore/shimmerscaleessence_iii.tft_set12.png'', ''gold'', ''standard''),
    (''TFT_Augment_SideEffects'', ''Side Effects'', ''maps/tft/icons/augments/hexcore/sideeffects_ii.tft_set17.png'', ''gold'', ''standard''),
    (''TFT_Augment_SizeMatters'', ''Size Matters'', ''maps/tft/icons/augments/hexcore/sizematters_i.tft_set17.png'', ''gold'', ''standard''),
    (''TFT_Augment_SliceOfLife'', ''Slice of Life'', ''maps/tft/icons/augments/hexcore/slice_of_life_i.tft_set15.png'', ''gold'', ''standard''),
    (''TFT_Augment_SmallGrabBag'', ''Small Grab Bag'', ''maps/tft/icons/augments/hexcore/smallgrabbag_i.tft_set16.png'', ''gold'', ''standard''),
    (''TFT_Augment_SoloLeveling'', ''Solo Leveling'', ''maps/tft/icons/augments/hexcore/sololeveling_ii.tft_set15.png'', ''gold'', ''standard''),
    (''TFT_Augment_SpeedyDoubleKill'', ''Speedy Double Kill'', ''maps/tft/icons/augments/hexcore/speedydoublekill_ii.png'', ''gold'', ''standard''),
    (''TFT_Augment_SpreadingRoots'', ''Spreading Roots'', ''maps/tft/icons/augments/hexcore/spreadingroots_ii.tft_set16.png'', ''gold'', ''standard''),
    (''TFT_Augment_SpreadingRootsPlus'', ''Spreading Roots+'', ''maps/tft/icons/augments/hexcore/spreadingroots_ii.tft_set16.png'', ''gold'', ''standard''),
    (''TFT_Augment_SubscriptionService'', ''Subscription Service'', ''maps/tft/icons/augments/hexcore/subscriptionservice_iii.tft_set12.png'', ''gold'', ''standard''),
    (''TFT_Augment_Survivor'', ''Survivor'', ''maps/tft/icons/augments/hexcore/survivor_i.tft_set13.png'', ''gold'', ''standard''),
    (''TFT_Augment_SweetTreats'', ''Sweet Treats'', ''maps/tft/icons/augments/hexcore/sweettreats_iii.png'', ''gold'', ''standard''),
    (''TFT_Augment_SwordOverflow'', ''Sword Overflow'', ''maps/tft/icons/augments/hexcore/bladeoverflow_iii.tft_set13.png'', ''gold'', ''standard''),
    (''TFT_Augment_TacticiansKitchen'', ''Tactician's Kitchen'', ''maps/tft/icons/augments/hexcore/tacticianskitchen_iii.tft_set13.png'', ''gold'', ''standard''),
    (''TFT_Augment_TheBaronsLair'', ''Baron's Lair'', ''maps/tft/icons/augments/hexcore/thebaronslair_iii.tft_16_4.png'', ''gold'', ''standard''),
    (''TFT_Augment_TheDarkinBlade'', ''Blood Offering'', ''maps/tft/icons/augments/hexcore/trailofblood_ii.tft_set16.png'', ''gold'', ''standard''),
    (''TFT_Augment_TheGoldenDragon'', ''The Golden Dragon'', ''maps/tft/icons/augments/hexcore/thegoldendragon_ii.png'', ''gold'', ''standard''),
    (''TFT_Augment_TheTower'', ''The Tower'', ''maps/tft/icons/augments/hexcore/thetower_i.tft_set17.png'', ''gold'', ''standard''),
    (''TFT_Augment_TheVidalion'', ''Woven Magic'', ''maps/tft/icons/augments/hexcore/wovenmagic_iii.tft_set16.png'', ''gold'', ''standard''),
    (''TFT_Augment_TragicalBlade'', ''Deadlier Blades'', ''maps/tft/icons/augments/hexcore/deadlierblades_ii.tft_set15.png'', ''gold'', ''standard''),
    (''TFT_Augment_TraitTree'', ''The Trait Tree'', ''maps/tft/icons/augments/hexcore/thetraittree_iii.tft_set16.png'', ''gold'', ''standard''),
    (''TFT_Augment_TraitTreePlus'', ''The Trait Tree+'', ''maps/tft/icons/augments/hexcore/thetraittree_iii.tft_set16.png'', ''gold'', ''standard''),
    (''TFT_Augment_TreasureHunt'', ''Treasure Hunt'', ''maps/tft/icons/augments/hexcore/treasurehunt_ii.tft_set15.png'', ''gold'', ''standard''),
    (''TFT_Augment_Trifecta1'', ''Trifecta I'', ''maps/tft/icons/augments/hexcore/trifecta-ii.png'', ''silver'', ''standard''),
    (''TFT_Augment_Trifecta2'', ''Trifecta II'', ''maps/tft/icons/augments/hexcore/trifecta-iii.png'', ''gold'', ''standard''),
    (''TFT_Augment_TwinGuardians'', ''Twin Guardians'', ''maps/tft/icons/augments/hexcore/twinguardians_i.tft_set16.png'', ''gold'', ''standard''),
    (''TFT_Augment_TwoMuchValue'', ''Two Much Value'', ''maps/tft/icons/augments/hexcore/twomuchvalue_ii.tft_set13.png'', ''gold'', ''standard''),
    (''TFT_Augment_TwoTanky'', ''Two Tanky'', ''maps/tft/icons/augments/hexcore/two-tanky-ii.png'', ''gold'', ''standard''),
    (''TFT_Augment_Unforgotten'', ''Warlord's Honor'', ''maps/tft/icons/augments/hexcore/unforgotten_ii.tft_set16.png'', ''gold'', ''standard''),
    (''TFT_Augment_UpwardMobility'', ''Upward Mobility'', ''maps/tft/icons/augments/hexcore/upwardmobility_iii.tft_set12.png'', ''gold'', ''standard''),
    (''TFT_Augment_UrfsGambit'', ''Urf's Gambit'', ''maps/tft/icons/augments/hexcore/urfsgambit_ii.tft_set16.png'', ''gold'', ''standard''),
    (''TFT_Augment_WandOverflow'', ''Wand Overflow'', ''maps/tft/icons/augments/hexcore/wandoverflow_iii.tft_set13.png'', ''gold'', ''standard''),
    (''TFT_Augment_WarmogsBuckle'', ''Heart of Steel'', ''maps/tft/icons/augments/hexcore/healthygains_ii.tft_set16.png'', ''gold'', ''standard''),
    (''TFT_Augment_Warpath'', ''Warpath'', ''maps/tft/icons/augments/hexcore/warpath_ii.tft_set13.png'', ''gold'', ''standard''),
    (''TFT_Augment_Waverider'', ''On a Roll'', ''maps/tft/icons/augments/hexcore/onaroll_i.tft_set16.png'', ''gold'', ''standard''),
    (''TFT_Augment_WeStickTogether'', ''We Stick Together'', ''maps/tft/icons/augments/hexcore/westicktogether_iii.png'', ''gold'', ''standard''),
    (''TFT_Augment_WinOut'', ''Win Out'', ''maps/tft/icons/augments/hexcore/winout_iii.tft_set16.png'', ''gold'', ''standard''),
    (''TFT_Augment_WorthTheWaitGold'', ''Worth the Wait'', ''maps/tft/icons/augments/hexcore/worththewait_ii.tft_set12.png'', ''gold'', ''standard''),
    (''TFT_Augment_WorthTheWaitPrismatic'', ''Worth the Wait II'', ''maps/tft/icons/augments/hexcore/worththewait_iii.tft_set12.png'', ''gold'', ''standard'')]"

definition BUILDER_AUGMENTS :: "builder_augment list" where
  "BUILDER_AUGMENTS = SET_AUGMENTS @ GENERIC_AUGMENTS"

section \<open>Compositions by id\<close>

definition COMP_BY_ID :: "(string, comp) dict" where
  "COMP_BY_ID = fold (\<lambda>c. AList.update (comp_id c) c) COMPS []"

section \<open>Facts about the tables\<close>

lemma asset_nonempty: "asset path \<noteq> []"
  by (simp add: asset_def)

lemma champion_icon_keys: "map fst CHAMPION_ICONS = CHAMPION_IDS"
  by code_simp

lemma champion_icons_nonempty: "ic \<in> snd ` set CHAMPION_ICONS \<Longrightarrow> ic \<noteq> []"
  unfolding CHAMPION_ICONS_def set_map image_image split_def snd_conv by (elim imageE) (simp only: asset_nonempty not_False_eq_True)

lemma item_icons_nonempty: "b \<in> set BUILDER_ITEMS \<Longrightarrow> bi_icon b \<noteq> []"
proof -
  have "list_all (\<lambda>b. bi_icon b \<noteq> []) BUILDER_ITEMS"
    by (simp only: BUILDER_ITEMS_def completed_def basic_def list.pred_inject builder_item.simps asset_nonempty not_False_eq_True simp_thms)
  then show "b \<in> set BUILDER_ITEMS \<Longrightarrow> bi_icon b \<noteq> []" by (simp add: list_all_iff)
qed

definition component_ids :: "string list" where
  "component_ids = map bi_id (filter (\<lambda>b. bi_kind b = ''component'') BUILDER_ITEMS)"

lemma component_ids_eq [code]:
  "component_ids = [''TFT_Item_BFSword'',
     ''TFT_Item_ChainVest'',
     ''TFT_Item_CursedBlade'',
     ''TFT_Item_FryingPan'',
     ''TFT_Item_GiantsBelt'',
     ''TFT_Item_HextechChestguard'',
     ''TFT_Item_NeedlesslyLargeRod'',
     ''TFT_Item_NegatronCloak'',
     ''TFT_Item_RecurveBow'',
     ''TFT_Item_SparringGloves'',
     ''TFT_Item_Spatula'',
     ''TFT_Item_TearOfTheGoddess'']"
  by code_simp

text \<open>An item as the builder needs it: a component without a recipe, or two components make it.\<close>

definition wf_item :: "builder_item \<Rightarrow> bool" where
  "wf_item b \<longleftrightarrow>
     (case bi_recipe b of
        None \<Rightarrow> bi_kind b = ''component''
      | Some r \<Rightarrow> bi_kind b = ''completed'' \<and> length r = 2 \<and> list_all (\<lambda>i. i \<in> set component_ids) r)"

lemma items_wf: "list_all wf_item BUILDER_ITEMS"
  by code_simp

lemma completed_items: "map bi_id (filter (\<lambda>b. bi_kind b = ''completed'') BUILDER_ITEMS) = ITEMS"
  by code_simp

lemma trait_breakpoints: "list_all (\<lambda>t. sorted_wrt (<) (0 # tm_breakpoints t)) TRAITS_DATA"
  by code_simp

lemma trait_meta_names: "remdups (map tm_name TRAITS_DATA) = TRAITS"
  by code_simp

lemma builder_augment_ids: "map (\<lambda>a. (ba_id a, ba_tier a)) BUILDER_AUGMENTS = AUGMENT_TIERS"
  by code_simp

lemma builder_augment_categories: "map (\<lambda>a. (ba_id a, ba_category a)) BUILDER_AUGMENTS = AUGMENT_CATEGORIES"
  by code_simp

lemma comp_by_id: "COMP_BY_ID = map (\<lambda>c. (comp_id c, c)) COMPS"
  by code_simp

end
