(* ===== verification/Endpoints.thy ===== *)
theory Endpoints
  imports Security Service Riot Config Tft_Display
begin

text \<open>
  The REST endpoints, \<open>api/main.py\<close>. An \<open>api_request\<close> is a path with its parameters as FastAPI hands
  them to the handler, defaults filled in. \<open>endpoint\<close> is what the handlers do with them before
  they call the service, \<open>dispatch\<close> the call itself, and \<open>handle\<close> the two together; the rate
  limiting middleware around it is in the theory \<open>Security\<close>. The clock and the meta store are
  parameters; FastAPI's parsing, the CORS middleware and the start of the server
  are left out.
\<close>

section \<open>Requests and service calls\<close>

datatype api_request =
    HealthReq
  | MetricsReq
  | ListReq string string string string string int \<comment> \<open>type; patch, region, tier, tier range, limit\<close>
  | AugmentsReq string string string string string int \<comment> \<open>patch, region, tier, tier range, category, limit\<close>
  | EntityReq string string string string string \<comment> \<open>type; entity id, patch, tier, region\<close>
  | AnomaliesReq int
  | TierComparisonReq string string \<comment> \<open>entity id, patch\<close>
  | RankGapReq string string int \<comment> \<open>patch, entity type, limit\<close>
  | HeatmapReq string string \<comment> \<open>tier, patch\<close>
  | PatchHistoryReq string
  | RosterReq
  | SuggestReq string int
  | PlayerReq string string string string \<comment> \<open>name, region, key, header\<close>

datatype service_call =
    NoCall
  | CountAnomalies
  | ListEntities string string string string string string int \<comment> \<open>type, patch, region, tier, range, category, limit\<close>
  | GetEntity string string string string string \<comment> \<open>type, id, patch, tier, region\<close>
  | GetAnomalies int
  | TierComparison string string
  | RankGap string string int
  | Heatmap string string
  | PatchHistory string
  | Roster
  | PlayerSuggest string int
  | PlayerAnalysis string string "string option"

definition MAX_LIMIT :: int where "MAX_LIMIT = 1000"

definition allowed_origins :: "environ \<Rightarrow> string list" where
  "allowed_origins env = stripped_list (split_on (CHR '','')
     (dict_get env ''ALLOWED_ORIGINS'' ''http://localhost:8080,http://localhost:3000,http://localhost:5173''))"

definition with_param :: "string \<Rightarrow> string \<Rightarrow> (string \<Rightarrow> http_error + 'a) \<Rightarrow> http_error + 'a" where
  "with_param field v f = (case clean_param field (Some v) of Inl e \<Rightarrow> Inl e | Inr w \<Rightarrow> f w)"

definition with_filters ::
    "string \<Rightarrow> string \<Rightarrow> string \<Rightarrow> string \<Rightarrow> (string \<Rightarrow> string \<Rightarrow> string \<Rightarrow> string \<Rightarrow> http_error + 'a) \<Rightarrow> http_error + 'a" where
  "with_filters pt rgn tr rng f =
     with_param ''patch'' pt (\<lambda>p. with_param ''region'' rgn (\<lambda>r.
     with_param ''tier'' tr (\<lambda>t. with_param ''tier_range'' rng (\<lambda>g. f p r t g))))"

definition player_call :: "string \<Rightarrow> string \<Rightarrow> string \<Rightarrow> string \<Rightarrow> http_error + service_call" where
  "player_call summoner_name rgn key x_riot_key =
     (case validate_riot_id (Some summoner_name) of
        Inl e \<Rightarrow> Inl e
      | Inr nm \<Rightarrow> with_param ''region'' rgn (\<lambda>r.
          let r = (case take 8 r of [] \<Rightarrow> ''NA'' | r' \<Rightarrow> r');
              k = strip (if x_riot_key \<noteq> [] then x_riot_key else key)
          in Inr (PlayerAnalysis nm r (if k = [] then None else Some k))))"

fun endpoint :: "api_request \<Rightarrow> http_error + service_call" where
  "endpoint HealthReq = Inr NoCall"
| "endpoint MetricsReq = Inr CountAnomalies"
| "endpoint (ListReq et pt rgn tr rng limit) =
     with_filters pt rgn tr rng (\<lambda>p r t g. Inr (ListEntities et p r t g [] (clamp limit 1 MAX_LIMIT)))"
| "endpoint (AugmentsReq pt rgn tr rng cat limit) =
     with_filters pt rgn tr rng (\<lambda>p r t g. with_param ''category'' cat (\<lambda>c.
       Inr (ListEntities ''augment'' p r t g c (clamp limit 1 MAX_LIMIT))))"
| "endpoint (EntityReq et eid pt tr rgn) =
     with_filters pt rgn tr [] (\<lambda>p r t _. with_param ''entity_id'' eid (\<lambda>i. Inr (GetEntity et i p t r)))"
| "endpoint (AnomaliesReq window_hours) = Inr (GetAnomalies (clamp window_hours 1 720))"
| "endpoint (TierComparisonReq eid pt) =
     with_param ''entity_id'' eid (\<lambda>i. with_param ''patch'' pt (\<lambda>p. Inr (TierComparison i p)))"
| "endpoint (RankGapReq pt et limit) =
     with_param ''entity_type'' et (\<lambda>e. with_param ''patch'' pt (\<lambda>p. Inr (RankGap e p (clamp limit 1 MAX_LIMIT))))"
| "endpoint (HeatmapReq tr pt) = with_param ''tier'' tr (\<lambda>t. with_param ''patch'' pt (\<lambda>p. Inr (Heatmap t p)))"
| "endpoint (PatchHistoryReq eid) = with_param ''entity_id'' eid (\<lambda>i. Inr (PatchHistory i))"
| "endpoint RosterReq = Inr Roster"
| "endpoint (SuggestReq q limit) = with_param ''q'' q (\<lambda>w. Inr (PlayerSuggest w (clamp limit 1 25)))"
| "endpoint (PlayerReq nm rgn key hdr) = player_call nm rgn key hdr"

section \<open>Roster\<close>

record roster_row =
  ro_id :: string
  ro_cost :: int
  ro_traits :: "string list"
  ro_icon :: string
  ro_role :: string
  ro_range :: py_float

definition roster :: "roster_row list" where
  "roster =
     sort_key (\<lambda>c. (ro_cost c, ro_id c))
       (map (\<lambda>(cid, cost, traits). \<lparr>ro_id = cid, ro_cost = cost, ro_traits = traits, ro_icon = dict_get CHAMPION_ICONS cid [],
          ro_role = dict_get CHAMPION_ROLE cid [], ro_range = dict_get CHAMPION_RANGE cid 1\<rparr>) CHAMPIONS)"

section \<open>Dispatch\<close>

record api_env =
  en_scan :: scan_fun
  en_now :: py_float
  en_now_ms :: int
  en_set_order :: "string list \<Rightarrow> string list" \<comment> \<open>iteration order of a set\<close>
  en_configured_key :: "string option"

record api_state =
  as_cache :: scan_cache
  as_alerts :: "alert list"
  as_riot :: riot_state

datatype api_response =
    Ok
  | Refused http_error
  | MetricsText string
  | Rows "svc_error + row list"
  | Entity "svc_error + entity_answer"
  | Alerts "alert list"
  | Tiers "svc_error + (string \<times> tier_point list) option"
  | Gaps "svc_error + gap_row list"
  | Grid "svc_error + string list \<times> string list \<times> grid_cell list"
  | History "svc_error + patch_answer"
  | RosterRows string string "roster_row list" "builder_item list" "trait_meta list" "builder_augment list" "comp list"
  | Suggestions "string list"
  | PlayerAnswer "profile player_answer"
  | ServerError

text \<open>
  \<open>build\<close> is the profile lookup of the theory \<open>Riot\<close> for a key, a name and a tag. The service
  turns a \<open>RiotError\<close> into an answer; any other exception becomes FastAPI's status 500. The
  lookup may change the state of the Riot module either way.
\<close>

type_synonym player_lookup = "string \<Rightarrow> string \<Rightarrow> string \<Rightarrow> riot_state \<Rightarrow> (riot_exc + profile) \<times> riot_state"

definition answer_player :: "player_lookup \<Rightarrow> string option \<Rightarrow> string \<Rightarrow> string option \<Rightarrow> riot_state \<Rightarrow> api_response \<times> riot_state" where
  "answer_player build configured_key nm k rs =
     (case player_analysis (\<lambda>key g t. Inr (build key g t rs)) configured_key nm k of
        Profile (Inr p, rs') \<Rightarrow> (PlayerAnswer (Profile p), rs')
      | Profile (Inl (RiotError m), rs') \<Rightarrow> (PlayerAnswer (player_analysis (\<lambda>_ _ _. Inl m) configured_key nm k), rs')
      | Profile (Inl PyError, rs') \<Rightarrow> (ServerError, rs')
      | _ \<Rightarrow> (PlayerAnswer (player_analysis (\<lambda>_ _ _. Inl []) configured_key nm k), rs))"

fun dispatch ::
    "api_env \<Rightarrow> player_lookup \<Rightarrow> service_call \<Rightarrow> api_state \<Rightarrow> api_response \<times> api_state" where
  "dispatch env build NoCall st = (Ok, st)"
| "dispatch env build CountAnomalies st =
     (MetricsText (''# TYPE api_recent_anomalies gauge'' @ [CHR 10] @ ''api_recent_anomalies ''
        @ show_nat (length (get_anomalies (en_now_ms env) 24 (as_alerts st))) @ [CHR 10]), st)"
| "dispatch env build (ListEntities et p r t g cat limit) st =
     (case list_entities (en_scan env) et p r t g limit ''win_rate'' cat (en_now env) (as_cache st) of
        (res, c) \<Rightarrow> (Rows res, st\<lparr>as_cache := c\<rparr>))"
| "dispatch env build (GetEntity et i p t r) st =
     (case get_entity (en_scan env) et i p t r (en_now env) (as_cache st) of (res, c) \<Rightarrow> (Entity res, st\<lparr>as_cache := c\<rparr>))"
| "dispatch env build (GetAnomalies w) st = (Alerts (get_anomalies (en_now_ms env) w (as_alerts st)), st)"
| "dispatch env build (TierComparison i p) st =
     (case tier_comparison (en_scan env) i p (en_now env) (as_cache st) of (res, c) \<Rightarrow> (Tiers res, st\<lparr>as_cache := c\<rparr>))"
| "dispatch env build (RankGap e p limit) st =
     (case rank_gap (en_scan env) (en_set_order env) e p limit (en_now env) (as_cache st) of (res, c) \<Rightarrow> (Gaps res, st\<lparr>as_cache := c\<rparr>))"
| "dispatch env build (Heatmap t p) st =
     (case champion_item_pairs (en_scan env) t p 14 12 (en_now env) (as_cache st) of (res, c) \<Rightarrow> (Grid res, st\<lparr>as_cache := c\<rparr>))"
| "dispatch env build (PatchHistory i) st =
     (case patch_history (en_scan env) i (en_now env) (as_cache st) of (res, c) \<Rightarrow> (History res, st\<lparr>as_cache := c\<rparr>))"
| "dispatch env build Roster st = 
     (RosterRows TFT_SET SET_NAME roster BUILDER_ITEMS TRAITS_DATA BUILDER_AUGMENTS COMPS, st)"
| "dispatch env build (PlayerSuggest q limit) st = (Suggestions (suggest (en_set_order env) q limit (known_ids (as_riot st))), st)"
| "dispatch env build (PlayerAnalysis nm r k) st =
     (case answer_player build (en_configured_key env) nm k (as_riot st) of (res, rs) \<Rightarrow> (res, st\<lparr>as_riot := rs\<rparr>))"

definition handle ::
    "api_env \<Rightarrow> player_lookup \<Rightarrow> api_request \<Rightarrow> api_state \<Rightarrow> api_response \<times> api_state" where
  "handle env build req st =
     (case endpoint req of Inl e \<Rightarrow> (Refused e, st) | Inr call \<Rightarrow> dispatch env build call st)"

section \<open>Only clean values reach the service\<close>

definition safe :: "string \<Rightarrow> bool" where
  "safe w \<longleftrightarrow> length w \<le> 120 \<and> (\<forall>c\<in>set w. \<not> is_control c) \<and> \<not> sublist ''..'' w \<and> \<not> sublist ''://'' (lower w)"

fun call_strings :: "service_call \<Rightarrow> string list" where
  "call_strings (ListEntities et p r t g cat limit) = [p, r, t, g, cat]"
| "call_strings (GetEntity et i p t r) = [i, p, t, r]"
| "call_strings (TierComparison i p) = [i, p]"
| "call_strings (RankGap e p limit) = [e, p]"
| "call_strings (Heatmap t p) = [t, p]"
| "call_strings (PatchHistory i) = [i]"
| "call_strings (PlayerSuggest q limit) = [q]"
| "call_strings (PlayerAnalysis nm r k) = [nm, r]"
| "call_strings _ = []"

fun call_limit :: "service_call \<Rightarrow> int" where
  "call_limit (ListEntities et p r t g cat limit) = limit"
| "call_limit (RankGap e p limit) = limit"
| "call_limit (PlayerSuggest q limit) = limit"
| "call_limit (GetAnomalies w) = w"
| "call_limit _ = 1"

lemma safe_sublist:
  assumes "safe w" "sublist v w"
  shows "safe v"
proof -
  have "sublist (lower v) (lower w)" unfolding lower_def using assms(2) by (rule map_mono_sublist)
  moreover have "set v \<subseteq> set w" "length v \<le> length w"
    using assms(2) by (simp_all add: set_mono_sublist sublist_length_le)
  ultimately show ?thesis
    using assms unfolding safe_def by (meson subsetD le_trans sublist_order.order_trans)
qed

lemma clean_param_is_safe: "clean_param field (Some v) = Inr w \<Longrightarrow> safe w"
  using clean_param_result [of field v w] by (auto simp: safe_def MAX_PARAM_LEN_def contains_sublist list_ex_iff)

lemma clean_param_refuses: "clean_param field v = Inl e \<Longrightarrow> \<exists>msg. e = HTTPException 422 msg"
  by (auto simp: clean_param_def split: option.splits if_splits)

text \<open>A result is clean when it is a 422 or satisfies the given predicate.\<close>

definition clean_result :: "('a \<Rightarrow> bool) \<Rightarrow> http_error + 'a \<Rightarrow> bool" where
  "clean_result P r = (case r of Inl e \<Rightarrow> (\<exists>msg. e = HTTPException 422 msg) | Inr x \<Rightarrow> P x)"

lemma clean_result_Inr [simp]: "clean_result P (Inr x) = P x"
  by (simp add: clean_result_def)

lemma with_param_clean:
  "(\<And>w. safe w \<Longrightarrow> clean_result P (f w)) \<Longrightarrow> clean_result P (with_param field v f)"
  using clean_param_is_safe [of field v] clean_param_refuses [of field "Some v"]
  by (cases "clean_param field (Some v)") (auto simp: with_param_def clean_result_def)

lemma with_filters_clean:
  "(\<And>p r t g. safe p \<Longrightarrow> safe r \<Longrightarrow> safe t \<Longrightarrow> safe g \<Longrightarrow> clean_result P (f p r t g)) \<Longrightarrow>
   clean_result P (with_filters pt rgn tr rng f)"
  unfolding with_filters_def by (intro with_param_clean)

lemma safe_const [simp]: "safe []" "safe ''NA''"
  by (simp_all add: safe_def lower_def lower_char_def is_control_def in_ranges_def sublist_code) 

lemma clamp_limit: "1 \<le> hi \<Longrightarrow> hi \<le> MAX_LIMIT \<Longrightarrow> 1 \<le> clamp v 1 hi \<and> clamp v 1 hi \<le> MAX_LIMIT"
  by (auto simp: clamp_def)

abbreviation good_call :: "service_call \<Rightarrow> bool" where
  "good_call call \<equiv> list_all safe (call_strings call) \<and> 1 \<le> call_limit call \<and> call_limit call \<le> MAX_LIMIT"

lemma player_call_clean: "clean_result good_call (player_call nm rgn key hdr)"
proof (cases "validate_riot_id (Some nm)")
  case (Inl e)
  then have "\<exists>msg. e = HTTPException 422 msg"
    using clean_param_refuses by (fastforce simp: validate_riot_id_def split: sum.splits if_splits)
  with Inl show ?thesis by (simp add: player_call_def clean_result_def)
next
  case (Inr v)
  then have "safe v" using clean_param_is_safe by (auto simp: validate_riot_id_def split: sum.splits if_splits)
  moreover have "safe (case take 8 r of [] \<Rightarrow> ''NA'' | c # r' \<Rightarrow> c # r')" if "safe r" for r
    using safe_sublist [OF that, of "take 8 r"] by (auto split: list.split)
  ultimately show ?thesis
    unfolding player_call_def Inr sum.case by (intro with_param_clean) (simp add: Let_def MAX_LIMIT_def)
qed

lemma endpoint_clean: "clean_result good_call (endpoint req)"
proof -
  have lim: "1 \<le> MAX_LIMIT" "720 \<le> MAX_LIMIT" "25 \<le> MAX_LIMIT" by (simp_all add: MAX_LIMIT_def)
  show ?thesis
    by (cases req) (auto intro!: with_filters_clean with_param_clean player_call_clean simp: clamp_limit lim)
qed


end
