(* ===== verification/Set_Data.thy ===== *)
theory Set_Data
  imports Py_Str
begin

text \<open>
  The generator of the game data tables, \<open>scripts/fetch_set_data.py\<close>: the selection of patches,
  champions, items, augments, traits and compositions from the downloaded JSON. The JSON objects
  are records whose fields may be absent; the download is the argument of the functions. The
  rendering of the module text is not modelled: \<open>render\<close> refers to names that are not defined
  (\<open>fmt_dict\<close>, \<open>fmt_items\<close>, \<open>champ_icons\<close> and others), so \<open>main\<close> ends with a \<open>NameError\<close> there.
\<close>

section \<open>Downloaded objects\<close>

record cd_item =
  ci_apiName :: "string option"
  ci_name :: "string option"
  ci_icon :: "string option"
  ci_composition :: "string list option"

record cd_champion =
  cc_apiName :: "string option"
  cc_cost :: "int option"
  cc_traits :: "string list option"
  cc_name :: "string option"
  cc_squareIcon :: "string option"
  cc_tileIcon :: "string option"

record cd_trait =
  ct_name :: "string option"
  ct_icon :: "string option"
  ct_effects :: "int option list option" \<comment> \<open>the \<open>minUnits\<close> of each effect\<close>

definition or_else :: "'a option \<Rightarrow> 'a \<Rightarrow> 'a" where
  "or_else x d = (case x of None \<Rightarrow> d | Some v \<Rightarrow> v)"

text \<open>\<open>if x not in xs: xs.append(x)\<close>, and the keys of \<open>dict.fromkeys(xs)\<close>.\<close>

definition append_new :: "'a \<Rightarrow> 'a list \<Rightarrow> 'a list" where
  "append_new x xs = (if x \<in> set xs then xs else xs @ [x])"

definition unique :: "'a list \<Rightarrow> 'a list" where
  "unique xs = fold append_new xs []"

section \<open>Patches, traits and assets\<close>

definition minor_version :: "string \<Rightarrow> string option" where
  "minor_version v =
     (let parts = split_on (CHR ''.'') v
      in if length parts \<ge> 2 \<and> isdigit (parts ! 0) then Some (parts ! 0 @ ''.'' @ parts ! 1) else None)"

fun patch_loop :: "nat \<Rightarrow> string list \<Rightarrow> string list \<Rightarrow> string list" where
  "patch_loop n [] out = out"
| "patch_loop n (v # vs) out =
     (let out = (case minor_version v of None \<Rightarrow> out | Some mm \<Rightarrow> append_new mm out)
      in if length out \<ge> n then out else patch_loop n vs out)"

definition recent_patches :: "nat \<Rightarrow> string list \<Rightarrow> string list" where
  "recent_patches n versions = rev (patch_loop n versions [])"

definition clean_traits :: "string list option \<Rightarrow> string list" where
  "clean_traits traits =
     fold (\<lambda>t out. if t \<noteq> [] \<and> t \<noteq> ''Choose Trait'' then append_new t out else out) (or_else traits []) []"

definition cdn :: "string \<Rightarrow> string" where
  "cdn path =
     (if path = [] then []
      else ''https://raw.communitydragon.org/latest/game/''
        @ replace_sub ''.dds'' ''.png'' (replace_sub ''.tex'' ''.png'' (lower path)))"

section \<open>Item pool\<close>

definition CD_SET :: string where "CD_SET = ''17''"

definition COMPONENT_ITEMS :: "string list" where
  "COMPONENT_ITEMS = [''TFT_Item_BFSword'', ''TFT_Item_RecurveBow'', ''TFT_Item_NeedlesslyLargeRod'',
     ''TFT_Item_TearOfTheGoddess'', ''TFT_Item_ChainVest'', ''TFT_Item_NegatronCloak'',
     ''TFT_Item_GiantsBelt'', ''TFT_Item_SparringGloves'', ''TFT_Item_Spatula'', ''TFT_Item_FryingPan'']"

definition ITEM_EXCLUDE :: "string list" where
  "ITEM_EXCLUDE = [''GrabBag'', ''Tactician'', ''Crown'', ''Consumable'', ''Placeholder'', ''Component'', ''Unstable'',
     ''Training'', ''Champion'', ''Garen'', ''FakeItem'', ''_Free'', ''Random'', ''Market'', ''Anvil'', ''Lesser'',
     ''Mirror'', ''Tutorial'', ''Test'']"

definition ITEM_ORDER :: "(string, int) dict" where
  "ITEM_ORDER = [(''component'', 0), (''completed'', 1), (''radiant'', 2), (''emblem'', 3), (''artifact'', 4)]"

record pool_item =
  pi_id :: string
  pi_name :: string
  pi_icon :: string
  pi_kind :: string
  pi_recipe :: "string list"

definition item_kind :: "string \<Rightarrow> string list \<Rightarrow> string option" where
  "item_kind api recipe =
     (if api \<in> set COMPONENT_ITEMS then Some ''component''
      else if prefix (''TFT'' @ CD_SET @ ''_Item_'') api then
        (if contains ''Emblem'' api then Some ''emblem''
         else if contains ''Radiant'' api then Some ''radiant'' else None)
      else if prefix ''TFT_Item_'' api then
        (if contains ''Emblem'' api then Some ''emblem''
         else if contains ''Radiant'' api then Some ''radiant''
         else if contains ''Artifact'' api \<or> contains ''Ornn'' api then Some ''artifact''
         else if length recipe = 2 then Some ''completed'' else None)
      else None)"

definition add_item :: "cd_item \<Rightarrow> pool_item list \<Rightarrow> pool_item list" where
  "add_item i out =
     (let api = or_else (ci_apiName i) []; nm = or_else (ci_name i) []; icon = or_else (ci_icon i) [];
          recipe = or_else (ci_composition i) [] in
      if nm = [] \<or> icon = [] \<or> api \<in> set (map pi_id out) then out
      else if list_ex (\<lambda>x. contains x api) ITEM_EXCLUDE then out
      else (case item_kind api recipe of
              None \<Rightarrow> out
            | Some kind \<Rightarrow> out @ [\<lparr>pi_id = api, pi_name = nm, pi_icon = cdn icon, pi_kind = kind,
                pi_recipe = (if kind = ''completed'' \<and> length recipe = 2 then recipe else [])\<rparr>]))"

definition build_items :: "cd_item list \<Rightarrow> pool_item list" where
  "build_items its = sort_key (\<lambda>x. (dict_get ITEM_ORDER (pi_kind x) 9, pi_name x)) (fold add_item its [])"

section \<open>Traits and augments\<close>

text \<open>\<open>{x.get(key): x for x in xs}\<close>: the last entry for a key wins.\<close>

definition last_by :: "('a \<Rightarrow> 'k option) \<Rightarrow> 'a list \<Rightarrow> 'k \<Rightarrow> 'a option" where
  "last_by key xs k = find (\<lambda>x. key x = Some k) (rev xs)"

definition breakpoints :: "cd_trait \<Rightarrow> int list" where
  "breakpoints tr =
     sorted_list_of_set (set (List.map_filter (\<lambda>e. case e of None \<Rightarrow> None | Some u \<Rightarrow> if u = 0 then None else Some u)
       (or_else (ct_effects tr) [])))"

definition build_traits :: "cd_trait list \<Rightarrow> string list \<Rightarrow> (string \<times> string \<times> int list) list" where
  "build_traits trs names =
     sort_key fst (map (\<lambda>nm. case last_by ct_name trs nm of
         None \<Rightarrow> (nm, cdn [], [])
       | Some tr \<Rightarrow> (nm, cdn (or_else (ct_icon tr) []), breakpoints tr)) names)"

definition build_augments ::
    "cd_item list \<Rightarrow> string list \<Rightarrow> (string, string) dict \<Rightarrow> (string \<times> string \<times> string \<times> string) list" where
  "build_augments its ids tiers =
     sort_key (\<lambda>(_, nm, _). nm) (map (\<lambda>api. case last_by ci_apiName its api of
         None \<Rightarrow> (api, api, cdn [], dict_get tiers api ''unknown'')
       | Some it \<Rightarrow> (api, or_else (ci_name it) api, cdn (or_else (ci_icon it) []), dict_get tiers api ''unknown'')) ids)"

section \<open>The selection of \<open>main\<close>\<close>

type_synonym champion_row = "string \<times> int \<times> string list \<times> string"

definition champion_row_of :: "cd_champion \<Rightarrow> champion_row option" where
  "champion_row_of c =
     (let api = or_else (cc_apiName c) []; cost = or_else (cc_cost c) 0; ts = clean_traits (cc_traits c)
      in if prefix (''TFT'' @ CD_SET @ ''_'') api \<and> cost \<in> {1, 2, 3, 4, 5} \<and> ts \<noteq> []
         then Some (api, cost, ts, or_else (cc_name c) api) else None)"

definition champion_icon :: "cd_champion \<Rightarrow> string" where
  "champion_icon c =
     cdn (case or_else (cc_squareIcon c) [] of [] \<Rightarrow> or_else (cc_tileIcon c) [] | path \<Rightarrow> path)"

definition select_champions :: "cd_champion list \<Rightarrow> champion_row list" where
  "select_champions cs = sort_key (\<lambda>(api, cost, _). (cost, api)) (List.map_filter champion_row_of cs)"

definition select_items :: "cd_item list \<Rightarrow> string list" where
  "select_items its =
     take 24 (sort (unique (List.map_filter (\<lambda>i.
       let api = or_else (ci_apiName i) []
       in case ci_composition i of
            Some recipe \<Rightarrow> if prefix ''TFT_Item_'' api \<and> length recipe = 2 then Some api else None
          | None \<Rightarrow> None) its)))"

definition select_augments :: "cd_item list \<Rightarrow> string list \<Rightarrow> string list" where
  "select_augments its pool =
     sort (unique (filter (\<lambda>api.
       let nm = (case last_by ci_apiName its api of None \<Rightarrow> [] | Some i \<Rightarrow> or_else (ci_name i) [])
       in \<not> (contains ''@'' nm \<or> nm = [])) pool))"

definition trait_names :: "champion_row list \<Rightarrow> string list" where
  "trait_names cs = fold append_new (concat (map (\<lambda>(_, _, ts, _). ts) cs)) []"

definition core_comps :: "string list \<Rightarrow> string list" where
  "core_comps ts =
     map (\<lambda>i. replace_sub '' '' [] (ts ! (2 * i) @ ''_'' @ ts ! (2 * i + 1)))
       [0..<(min (length ts - 1) 16 + 1) div 2]"

definition high_elo :: "champion_row list \<Rightarrow> string list" where
  "high_elo cs = take 3 (map fst (filter (\<lambda>(_, cost, _). cost \<ge> 4) cs))"

definition trap_augment :: "string list \<Rightarrow> string" where
  "trap_augment augs = (case augs of [] \<Rightarrow> [] | a # _ \<Rightarrow> a)"

section \<open>Lemmas\<close>

lemma append_new_facts [simp]:
  "set (append_new x xs) = insert x (set xs)" "distinct xs \<Longrightarrow> distinct (append_new x xs)"
  by (auto simp: append_new_def)

lemma fold_append_new: "set (fold append_new xs ys) = set ys \<union> set xs"
  "distinct ys \<Longrightarrow> distinct (fold append_new xs ys)"
  by (induction xs arbitrary: ys) auto

lemma unique_facts [simp]: "set (unique xs) = set xs" "distinct (unique xs)"
  by (simp_all add: unique_def fold_append_new)

lemma fold_append_new_prefix: "\<exists>zs. fold append_new xs ys = ys @ zs"
proof (induction xs arbitrary: ys)
  case (Cons x xs)
  obtain zs where "fold append_new xs (append_new x ys) = append_new x ys @ zs" using Cons.IH by blast
  moreover have "\<exists>ws. append_new x ys = ys @ ws" by (simp add: append_new_def)
  ultimately show ?case by auto
qed simp

lemma patch_loop_eq:
  "length out < n \<Longrightarrow> patch_loop n vs out = take n (fold append_new (List.map_filter minor_version vs) out)"
proof (induction vs arbitrary: out)
  case (Cons v vs)
  define out' where "out' = (case minor_version v of None \<Rightarrow> out | Some mm \<Rightarrow> append_new mm out)"
  have f: "fold append_new (List.map_filter minor_version (v # vs)) out = fold append_new (List.map_filter minor_version vs) out'"
    by (simp add: map_filter_simps out'_def split: option.split)
  have len: "length out' \<le> n" using Cons.prems by (auto simp: out'_def append_new_def split: option.split)
  show ?case
  proof (cases "length out' < n")
    case True
    with Cons.IH [OF this] f show ?thesis by (simp add: Let_def flip: out'_def)
  next
    case False
    obtain zs where "fold append_new (List.map_filter minor_version vs) out' = out' @ zs" using fold_append_new_prefix by blast
    with False len f show ?thesis by (simp add: Let_def flip: out'_def)
  qed
qed (simp add: map_filter_simps)

lemma add_item_ids: "distinct (map pi_id out) \<Longrightarrow> distinct (map pi_id (add_item i out))"
  by (simp add: add_item_def Let_def split: option.split)

lemma build_items_ids: "distinct (map pi_id (build_items its))"
proof -
  have "distinct (map pi_id out) \<Longrightarrow> distinct (map pi_id (fold add_item its out))" for out
    by (induction its arbitrary: out) (simp_all add: add_item_ids)
  from this [of "[]"] have "distinct (map pi_id (fold add_item its []))" by simp
  then show ?thesis by (simp only: build_items_def distinct_map distinct_sort set_sort)
qed

text \<open>
  \<open>recent_patches\<close> returns the newest patches, oldest first. From Data Dragon's list of
  versions, newest first, it keeps the first \<open>n\<close> different \<open>major.minor\<close> numbers, skipping entries
  that are not version numbers, and reverses them; so the result has no repetition, at most \<open>n\<close>
  entries, and all \<open>n\<close> unless the list names fewer patches. Leaving the loop early changes nothing.
\<close>

theorem recent_patches_newest:
  assumes "1 \<le> n"
  shows "recent_patches n versions = rev (take n (unique (List.map_filter minor_version versions)))
    \<and> distinct (recent_patches n versions)
    \<and> length (recent_patches n versions) = min n (card (set (List.map_filter minor_version versions)))"
proof -
  have "recent_patches n versions = rev (take n (unique (List.map_filter minor_version versions)))"
    using assms patch_loop_eq [of "[]" n versions] by (simp add: recent_patches_def unique_def)
  moreover have "length (unique xs) = card (set xs)" for xs :: "string list"
    using distinct_card [OF unique_facts(2), of xs] by simp
  ultimately show ?thesis by (simp add: min.commute)
qed

theorem recent_patches_newest_witness:
  "recent_patches 2 [''16.11.1'', ''16.10.1'', ''16.10.0'', ''lolpatch_7.20'', ''16.9.1''] = [''16.10'', ''16.11'']
   \<and> distinct (recent_patches 2 [''16.11.1'', ''16.10.1'', ''16.10.0'', ''lolpatch_7.20'', ''16.9.1''])"
proof -
  have "recent_patches 2 [''16.11.1'', ''16.10.1'', ''16.10.0'', ''lolpatch_7.20'', ''16.9.1''] = [''16.10'', ''16.11'']"
    by code_simp
  with recent_patches_newest [of 2 "[''16.11.1'', ''16.10.1'', ''16.10.0'', ''lolpatch_7.20'', ''16.9.1'']"]
  show ?thesis by simp
qed

end
