(* ===== verification/Ingest_Run.thy ===== *)
theory Ingest_Run
  imports Ingestion
begin

text \<open>
  The ingestor from its start: \<open>Ingestor.__init__\<close>, the announcement of the patches and the
  rounds of \<open>run\<close>, for one worker, which takes one task after the other. The interleavings of
  more workers are the step relation of \<open>Ingestion\<close>.
\<close>

section \<open>Start\<close>

record ingest_config =
  ic_node_id :: string
  ic_broker_addr :: string
  ic_api_key :: "string option"
  ic_regions :: "string list"
  ic_tiers :: "string list"
  ic_patches :: "string list"
  ic_patch_weights :: "int list"
  ic_matches_per_task :: int
  ic_round_interval :: py_number
  ic_workers :: int
  ic_limiter :: limiter
  ic_synthetic :: bool

definition Ingestor_init :: "environ \<Rightarrow> py_exc + ingest_config" where
  "Ingestor_init env =
     (let api_key = getenv env ''RIOT_API_KEY'' None;
          patches = stripped_list (comma_list env ''PATCHES'' PATCHES)
      in try_then (int_of_text (setting env ''MATCHES_PER_TASK'' ''40'')) (\<lambda>per_task.
         try_then (float_of_text (setting env ''ROUND_INTERVAL_SECS'' ''2.0'')) (\<lambda>interval.
         try_then (int_of_text (setting env ''WORKERS'' ''8'')) (\<lambda>workers.
         try_then (int_of_text (setting env ''RIOT_RATE'' ''20'')) (\<lambda>rate.
           Inr \<lparr>ic_node_id = setting env ''NODE_ID'' ''ingest-1'',
             ic_broker_addr = setting env ''BROKER_ADDR'' ''127.0.0.1:50051'', ic_api_key = api_key,
             ic_regions = comma_list env ''REGIONS'' [''NA'', ''EUW''],
             ic_tiers = comma_list env ''TIERS'' TIERS, ic_patches = patches,
             ic_patch_weights = patch_weights patches, ic_matches_per_task = per_task,
             ic_round_interval = interval, ic_workers = workers, ic_limiter = new_limiter rate,
             ic_synthetic = (case api_key of None \<Rightarrow> True | Some k \<Rightarrow> lower k \<in> {[], ''synthetic'', ''none''})\<rparr>)))))"

lemma init_patches:
  assumes "Ingestor_init env = Inr cfg"
  shows "ic_patches cfg = stripped_list (comma_list env ''PATCHES'' PATCHES)"
    and "ic_patch_weights cfg = patch_weights (ic_patches cfg)"
    and "ic_regions cfg = comma_list env ''REGIONS'' [''NA'', ''EUW'']" and "ic_tiers cfg = comma_list env ''TIERS'' TIERS"
  using assms by (auto simp: Ingestor_init_def Let_def try_then_Inr)

section \<open>Rounds\<close>

definition raise_py :: "py_exc \<Rightarrow> 'a run" where
  "raise_py e s = Some (Inl (PyError e), s)"

definition announce :: "(nat \<Rightarrow> bool) \<Rightarrow> string \<Rightarrow> unit run" where
  "announce broker pt s =
     (if broker (ig_attempts s)
      then Some (Inr (), s\<lparr>ig_attempts := ig_attempts s + 1, ig_announced := ig_announced s @ [pt]\<rparr>)
      else Some (Inl PublishError, refused s))"

definition process_task ::
    "ingest_config \<Rightarrow> (string \<Rightarrow> nat) \<Rightarrow> (nat \<Rightarrow> bool) \<Rightarrow> (int \<Rightarrow> match_draw) \<Rightarrow> client_api \<Rightarrow> (string \<Rightarrow> int) \<Rightarrow>
     task \<Rightarrow> unit run" where
  "process_task cfg md5_prefix broker draw api now_of t =
     (case t of (prio, rgn, tr) \<Rightarrow>
        worker_turn
          (if ic_synthetic cfg
           then process_synthetic md5_prefix broker (ic_patches cfg) (ic_patch_weights cfg) (ic_node_id cfg)
                  (ic_matches_per_task cfg) draw rgn tr
           else process_real api broker (ic_node_id cfg) now_of rgn tr))"

definition ingest_round ::
    "ingest_config \<Rightarrow> (string \<Rightarrow> nat) \<Rightarrow> (nat \<Rightarrow> bool) \<Rightarrow> (int \<Rightarrow> match_draw) \<Rightarrow> client_api \<Rightarrow> (string \<Rightarrow> int) \<Rightarrow>
     unit run" where
  "ingest_round cfg md5_prefix broker draw api now_of =
     (let ts = round_tasks (ic_regions cfg) (ic_tiers cfg)
      in for_each (take_all (length ts) (put_all ts [])) (process_task cfg md5_prefix broker draw api now_of))"

text \<open>
  \<open>run\<close> for \<open>n\<close> rounds. Without a worker \<open>queue.join\<close> never returns, since there is always a task:
  \<open>split\<close> never returns an empty list.
\<close>

definition ingestor_run ::
    "environ \<Rightarrow> ingest_config \<Rightarrow> (string \<Rightarrow> nat) \<Rightarrow> (nat \<Rightarrow> bool) \<Rightarrow> (int \<Rightarrow> match_draw) \<Rightarrow> client_api \<Rightarrow>
     (string \<Rightarrow> int) \<Rightarrow> nat \<Rightarrow> unit run" where
  "ingestor_run env cfg md5_prefix broker draw api now_of n =
     (case int_of_text (setting env ''METRICS_PORT'' ''9103'') of
        Inl e \<Rightarrow> raise_py e
      | Inr port \<Rightarrow>
          and_then (for_each (ic_patches cfg) (announce broker)) (\<lambda>_ s.
            if ic_workers cfg \<le> 0 \<and> 0 < n then None
            else for_each [0..<n] (\<lambda>_. ingest_round cfg md5_prefix broker draw api now_of) s))"

text \<open>Every run is a run of the step relation, so what is shown there holds of it.\<close>

lemma stepwise_announce: "stepwise h node (announce broker pt)"
proof -
  have "ingest_steps h node (s, fl, k) (refused s, fl, k)" for s fl k
    using ingest_step.announced [of h node s fl k "ig_announced s" "ig_attempts s + 1"]
    by (simp add: refused_def r_into_rtranclp)
  then show ?thesis
    unfolding stepwise_def announce_def by (auto intro: exI r_into_rtranclp ingest_step.announced)
qed

lemma stepwise_round: "ic_node_id cfg = node \<Longrightarrow> stepwise h node (ingest_round cfg h broker draw api now_of)"
  unfolding ingest_round_def process_task_def Let_def
  by (intro stepwise_for_each) (auto intro!: stepwise_worker stepwise_synthetic stepwise_real split: prod.split)

lemma stepwise_run:
  assumes "ic_node_id cfg = node"
  shows "stepwise h node (ingestor_run env cfg h broker draw api now_of n)"
proof -
  have r: "stepwise h node (for_each [0..<n] (\<lambda>_. ingest_round cfg h broker draw api now_of))"
    by (intro stepwise_for_each stepwise_round assms)
  have "stepwise h node (\<lambda>s. if ic_workers cfg \<le> 0 \<and> 0 < n then None
      else for_each [0..<n] (\<lambda>_. ingest_round cfg h broker draw api now_of) s)"
  proof (cases "ic_workers cfg \<le> 0 \<and> 0 < n")
    case True
    then show ?thesis by (simp add: stepwise_def)
  next
    case False
    with r show ?thesis by (simp only: if_False)
  qed
  from stepwise_and_then [OF stepwise_for_each [OF stepwise_announce] this]
    stepwise_pure [of "raise_py e" for e]
  show ?thesis
    by (cases "int_of_text (setting env ''METRICS_PORT'' ''9103'')") (simp_all add: ingestor_run_def raise_py_def)
qed

section \<open>The weighted choice of a patch\<close>

lemma sum_powers: "sum_list (map (\<lambda>i. 2 ^ i) [0..<n]) = 2 ^ n - (1 :: int)"
  by (induction n) simp_all

lemma cum_weights:
  assumes "i < length patches"
  shows "accumulate 0 (patch_weights patches) ! i = 2 ^ (i + 1) - 1"
proof -
  have "take (i + 1) (patch_weights patches) = map (\<lambda>i. 2 ^ i) [0..<i + 1]"
    using assms by (simp add: patch_weights_def take_map del: upt_Suc)
  then show ?thesis using assms accumulate_nth [of i "patch_weights patches" 0] sum_powers [of "i + 1"]
    by (simp add: patch_weights_def del: upt_Suc)
qed

lemma choices_patch:
  assumes "patches \<noteq> []"
  defines "n \<equiv> length patches"
  shows "\<exists>i<n. choices_one patches (patch_weights patches) u = Inr (patches ! i)
      \<and> (i \<noteq> 0 \<longrightarrow> 2 ^ i - 1 \<le> u * (2 ^ n - 1)) \<and> (i \<noteq> n - 1 \<longrightarrow> u * (2 ^ n - 1) < 2 ^ (i + 1) - 1)"
proof -
  let ?cum = "accumulate 0 (patch_weights patches)"
  let ?a = "map of_int ?cum :: real list" and ?x = "u * (2 ^ n - 1) :: real"
  have n: "n \<noteq> 0" "length ?cum = n" using assms(1) by (simp_all add: n_def patch_weights_def)
  then have "last ?cum = ?cum ! (n - 1)" by (metis last_conv_nth list.size(3))
  moreover have "n - 1 + 1 = n" using n by simp
  ultimately have l: "last ?cum = 2 ^ n - 1" using cum_weights [of "n - 1" patches] n by (simp only: n_def)
  have p2: "(1 :: int) < 2 ^ n" using n by simp
  have ne: "?cum \<noteq> []" using n by (metis list.size(3))
  let ?i = "bisect_right ?a ?x 0 (n - 1)"
  have i: "?i \<le> n - 1" using bisect_right_range [of 0 "n - 1"] by simp
  have nth: "?a ! j = 2 ^ (j + 1) - 1" if "j < n" for j
    using cum_weights [of j patches] that n by (simp add: n_def del: power_Suc)
  have mono: "?a ! j \<le> ?a ! k" if "j \<le> k" "k < n - 1" for j k
    using nth [of j] nth [of k] that power_increasing [of "j + 1" "k + 1" "2 :: real"] by (simp del: power_Suc)
  note sp = bisect_right_split [where hi = "n - 1" and a = ?a and lo = 0 and x = ?x, OF mono]
  have lo: "2 ^ ?i - 1 \<le> ?x" if "?i \<noteq> 0"
  proof -
    have "?i - 1 + 1 = ?i" "?i - 1 < n" "?i - 1 < ?i" using that i n by simp_all
    then show ?thesis using sp(1) [of "?i - 1"] nth [of "?i - 1"] by simp
  qed
  have hi: "?x < 2 ^ (?i + 1) - 1" if "?i \<noteq> n - 1"
    using sp(2) [of ?i] nth [of ?i] that i n by simp
  have "choices_one patches (patch_weights patches) u = Inr (patches ! ?i)"
    unfolding choices_one_def Let_def l using n p2 ne by (simp add: n_def not_le)
  with i n lo hi show ?thesis by (intro exI [of _ ?i]) simp
qed


text \<open>
  The weighted choice of a patch. With at least one patch, whatever the random generator
  returns from [0, 1), \<open>_pick_patch\<close> returns a patch: the one at position \<open>i\<close>, oldest first, for the
  numbers from (2^i - 1)/(2^n - 1) up to (2^(i+1) - 1)/(2^n - 1), so each patch is twice as likely as
  the one before, and the latest one is returned for every number of one half or more. Without a
  patch every call raises \<open>IndexError\<close>.
\<close>

theorem pick_patch_intervals:
  assumes "0 \<le> u" "u < 1" and "patches \<noteq> []"
  shows "(\<exists>i<length patches. pick_patch patches (patch_weights patches) u s = Some (Inr (patches ! i), s)
      \<and> (2 ^ i - 1) / (2 ^ length patches - 1) \<le> u \<and> u < (2 ^ (i + 1) - 1) / (2 ^ length patches - 1)
      \<and> (1/2 \<le> u \<longrightarrow> patches ! i = last patches))
    \<and> pick_patch [] (patch_weights []) u s = Some (Inl (PyError IndexError), s)"
proof
  let ?n = "length patches"
  obtain i where i: "i < ?n" "choices_one patches (patch_weights patches) u = Inr (patches ! i)"
    "i \<noteq> 0 \<longrightarrow> 2 ^ i - 1 \<le> u * (2 ^ ?n - 1)" "i \<noteq> ?n - 1 \<longrightarrow> u * (2 ^ ?n - 1) < 2 ^ (i + 1) - 1"
    using choices_patch [OF assms(3), of u] by blast
  have pos: "(0 :: real) < 2 ^ ?n - 1" using assms(3) by simp
  have lo: "2 ^ i - 1 \<le> u * (2 ^ ?n - 1)" using i(3) assms(1) pos by (cases "i = 0") simp_all
  have hi: "u * (2 ^ ?n - 1) < 2 ^ (i + 1) - 1"
  proof (cases "i = ?n - 1")
    case True
    then have "i + 1 = ?n" using i(1) by simp
    then show ?thesis using mult_strict_right_mono [OF assms(2) pos] by (simp only: mult_1)
  qed (use i(4) in blast)
  have latest: "patches ! i = last patches" if "1/2 \<le> u"
  proof -
    have "i = ?n - 1"
    proof (rule ccontr)
      assume "i \<noteq> ?n - 1"
      then have "i + 1 + 1 \<le> ?n" using i(1) by simp
      then have "(2 :: real) ^ (i + 1 + 1) \<le> 2 ^ ?n" by (rule power_increasing) simp
      then have "2 * 2 ^ (i + 1) \<le> (2 :: real) ^ ?n" by simp
      moreover have "1/2 * (2 ^ ?n - 1) \<le> u * (2 ^ ?n - 1)" by (rule mult_right_mono [OF that]) (use pos in simp)
      ultimately show False using hi by simp
    qed
    then show ?thesis using assms(3) by (simp add: last_conv_nth)
  qed
  show "\<exists>i<?n. pick_patch patches (patch_weights patches) u s = Some (Inr (patches ! i), s)
      \<and> (2 ^ i - 1) / (2 ^ ?n - 1) \<le> u \<and> u < (2 ^ (i + 1) - 1) / (2 ^ ?n - 1)
      \<and> (1/2 \<le> u \<longrightarrow> patches ! i = last patches)"
    by (rule exI [of _ i], intro conjI impI)
       (use i(1,2) lo hi latest pos in \<open>simp_all add: pick_patch_def pos_divide_le_eq pos_less_divide_eq\<close>)
  show "pick_patch [] (patch_weights []) u s = Some (Inl (PyError IndexError), s)"
    by (simp add: pick_patch_def choices_one_def patch_weights_def)
qed

theorem pick_patch_intervals_witness:
  "pick_patch PATCHES (patch_weights PATCHES) (1/2) new_ingestor = Some (Inr ''17.3'', new_ingestor)"
proof -
  have "PATCHES \<noteq> []" "last PATCHES = ''17.3''" by (simp_all add: PATCHES_def)
  moreover have "(0 :: real) \<le> 1/2" "1/2 < (1 :: real)" "(1/2 :: real) \<le> 1/2" by simp_all
  ultimately show ?thesis using pick_patch_intervals [of "1/2" PATCHES new_ingestor] by metis
qed

section \<open>A synthetic run\<close>

text \<open>
  What a computation adds that neither fails nor publishes anything else than the matches it
  stamps: a match for each pair of region and tier in \<open>prs\<close>, in this order.
\<close>

definition adds :: "string \<Rightarrow> string list \<Rightarrow> unit run \<Rightarrow> (string \<times> string) list \<Rightarrow> bool" where
  "adds node patches m prs \<longleftrightarrow>
     (\<forall>s. \<exists>s' es. m s = Some (Inr (), s') \<and> ig_published s' = ig_published s @ es
        \<and> map (\<lambda>e. (region e, tier e)) es = prs \<and> patch ` set es \<subseteq> set patches
        \<and> map clocks es = map (\<lambda>i. [(node, i)]) [ig_seq s + 1 .. ig_seq s + int (length prs)]
        \<and> ig_seq s' = ig_seq s + int (length prs) \<and> ig_announced s' = ig_announced s)"

lemma adds_ret: "adds node patches (ret ()) []"
  by (auto simp: adds_def ret_def)

lemma upto_append: "a \<le> b + 1 \<Longrightarrow> b \<le> c \<Longrightarrow> [a..b] @ [b + 1..c] = [a..c :: int]"
proof (cases "a \<le> b")
  case False
  assume "a \<le> b + 1"
  with False have "a = b + 1" by simp
  then show ?thesis by simp
qed (simp add: upto_split2 [of a b c])

lemma adds_then:
  assumes "adds node patches m ps" "adds node patches m' qs"
  shows "adds node patches (and_then m (\<lambda>_. m')) (ps @ qs)"
  unfolding adds_def
proof
  fix s
  obtain s1 es where 1: "m s = Some (Inr (), s1)" "ig_published s1 = ig_published s @ es"
    "map (\<lambda>e. (region e, tier e)) es = ps" "patch ` set es \<subseteq> set patches"
    "map clocks es = map (\<lambda>i. [(node, i)]) [ig_seq s + 1 .. ig_seq s + int (length ps)]"
    "ig_seq s1 = ig_seq s + int (length ps)" "ig_announced s1 = ig_announced s"
    using assms(1) unfolding adds_def by blast
  obtain s2 fs where 2: "m' s1 = Some (Inr (), s2)" "ig_published s2 = ig_published s1 @ fs"
    "map (\<lambda>e. (region e, tier e)) fs = qs" "patch ` set fs \<subseteq> set patches"
    "map clocks fs = map (\<lambda>i. [(node, i)]) [ig_seq s1 + 1 .. ig_seq s1 + int (length qs)]"
    "ig_seq s2 = ig_seq s1 + int (length qs)" "ig_announced s2 = ig_announced s1"
    using assms(2) unfolding adds_def by blast
  have "[ig_seq s + 1 .. ig_seq s1] @ [ig_seq s1 + 1 .. ig_seq s1 + int (length qs)]
      = [ig_seq s + 1 .. ig_seq s1 + int (length qs)]"
    using 1(6) by (intro upto_append) simp_all
  moreover have "ig_seq s1 + int (length qs) = ig_seq s + int (length (ps @ qs))" using 1(6) by simp
  ultimately have up: "map (\<lambda>i. [(node, i)]) [ig_seq s + 1 .. ig_seq s + int (length ps)]
      @ map (\<lambda>i. [(node, i)]) [ig_seq s1 + 1 .. ig_seq s1 + int (length qs)]
      = map (\<lambda>i. [(node, i)]) [ig_seq s + 1 .. ig_seq s + int (length (ps @ qs))]"
    unfolding 1(6) by (metis map_append)
  show "\<exists>s' es. and_then m (\<lambda>_. m') s = Some (Inr (), s') \<and> ig_published s' = ig_published s @ es
      \<and> map (\<lambda>e. (region e, tier e)) es = ps @ qs \<and> patch ` set es \<subseteq> set patches
      \<and> map clocks es = map (\<lambda>i. [(node, i)]) [ig_seq s + 1 .. ig_seq s + int (length (ps @ qs))]
      \<and> ig_seq s' = ig_seq s + int (length (ps @ qs)) \<and> ig_announced s' = ig_announced s"
    using 1 2 up by (intro exI [of _ s2] exI [of _ "es @ fs"]) (simp add: and_then_def image_Un)
qed

lemma adds_for_each: "(\<And>x. adds node patches (f x) (g x)) \<Longrightarrow> adds node patches (for_each xs f) (concat (map g xs))"
  by (induction xs) (simp_all add: adds_ret adds_then)

lemma adds_worker: "adds node patches m ps \<Longrightarrow> adds node patches (worker_turn m) ps"
  unfolding adds_def worker_turn_def by (metis (mono_tags, lifting) option.simps(5) prod.case sum.simps(6))

lemma adds_synthetic:
  assumes "patches \<noteq> []"
  shows "adds node patches (process_synthetic h (\<lambda>_. True) patches (patch_weights patches) node n draw rgn tr)
     (replicate (nat n) (rgn, tr))"
proof -
  have "adds node patches (and_then next_seq (\<lambda>seq. case draw seq of (u, now_ms, uid, ds, seats) \<Rightarrow>
      and_then (pick_patch patches (patch_weights patches) u) (\<lambda>pt.
        publish_match (\<lambda>_. True) (generate_match h now_ms uid ds seats rgn tr pt node seq)))) [(rgn, tr)]"
    unfolding adds_def
  proof
    fix s :: ingestor
    obtain u now uid ds seats where x: "draw (ig_seq s + 1) = (u, now, uid, ds, seats)" by (cases "draw (ig_seq s + 1)")
    obtain i where i: "i < length patches" "choices_one patches (patch_weights patches) u = Inr (patches ! i)"
      using choices_patch [OF assms, of u] by blast
    let ?e = "generate_match h now uid ds seats rgn tr (patches ! i) node (ig_seq s + 1)"
    show "\<exists>s' es. and_then next_seq (\<lambda>seq. case draw seq of (u, now_ms, uid, ds, seats) \<Rightarrow>
        and_then (pick_patch patches (patch_weights patches) u) (\<lambda>pt.
          publish_match (\<lambda>_. True) (generate_match h now_ms uid ds seats rgn tr pt node seq))) s = Some (Inr (), s')
      \<and> ig_published s' = ig_published s @ es
      \<and> map (\<lambda>e. (region e, tier e)) es = [(rgn, tr)] \<and> patch ` set es \<subseteq> set patches
      \<and> map clocks es = map (\<lambda>i. [(node, i)]) [ig_seq s + 1 .. ig_seq s + int (length [(rgn, tr)])]
      \<and> ig_seq s' = ig_seq s + int (length [(rgn, tr)]) \<and> ig_announced s' = ig_announced s"
      by (intro exI [of _ "accepted ?e (s\<lparr>ig_seq := ig_seq s + 1\<rparr>)"] exI [of _ "[?e]"])
        (simp add: and_then_def next_seq_def pick_patch_def publish_match_def x i accepted_def generate_match_def Let_def)
  qed
  from adds_for_each [of node patches "\<lambda>_. _" "\<lambda>_. [(rgn, tr)]", OF this, of "[0..<nat n]"]
  show ?thesis by (simp add: process_synthetic_def map_replicate_const concat_replicate_trivial)
qed


lemma count_filter: "length (filter (\<lambda>x. f x = y) xs) = count_list (map f xs) y"
  by (induction xs) auto

lemma count_list_replicate: "count_list (replicate m x) y = (if x = y then m else 0)"
  by (induction m) auto

lemma count_replicates:
  "count_list (concat (map (\<lambda>t. replicate m (snd t)) ts)) y = m * count_list (map snd ts) y"
  by (induction ts) (simp_all add: count_list_append count_list_replicate)

lemma count_list_mset: "mset xs = mset ys \<Longrightarrow> count_list xs y = count_list ys y"
  by (metis count_mset)

lemma count_round: "count_list (map snd (round_tasks regions tiers)) (r, t) = count_list regions r * count_list tiers t"
proof -
  have one: "count_list (map snd (map (\<lambda>tr. (dict_get TIER_RANK tr 99, rgn, tr)) tiers)) (r, t)
      = (if rgn = r then count_list tiers t else 0)" for rgn
    by (induction tiers) auto
  show ?thesis
    unfolding round_tasks_def
    by (induction regions) (use one in \<open>simp_all add: count_list_append del: map_map\<close>)
qed

lemma order_mset: "mset (take_all (length (round_tasks rs ts)) (put_all (round_tasks rs ts) [])) = mset (round_tasks rs ts)"
proof -
  have q: "is_heap id (put_all (round_tasks rs ts) [])" "mset (put_all (round_tasks rs ts) []) = mset (round_tasks rs ts)"
    using put_all_heap [of "[]" "round_tasks rs ts"] by (simp_all add: heap_from_def)
  then have "length (put_all (round_tasks rs ts) []) = length (round_tasks rs ts)" by (metis size_mset)
  with take_all_sorted [OF q(1)] q(2) show ?thesis by simp
qed

text \<open>The pairs of region and tier that \<open>n\<close> rounds publish, in order.\<close>

definition round_pairs :: "ingest_config \<Rightarrow> (string \<times> string) list" where
  "round_pairs cfg =
     (let ts = round_tasks (ic_regions cfg) (ic_tiers cfg)
      in concat (map (\<lambda>t. replicate (nat (ic_matches_per_task cfg)) (snd t)) (take_all (length ts) (put_all ts []))))"

lemma adds_round:
  assumes "ic_synthetic cfg" "ic_patches cfg \<noteq> []" "ic_patch_weights cfg = patch_weights (ic_patches cfg)"
  shows "adds (ic_node_id cfg) (ic_patches cfg) (ingest_round cfg h (\<lambda>_. True) draw api now_of) (round_pairs cfg)"
proof -
  have "adds (ic_node_id cfg) (ic_patches cfg) (process_task cfg h (\<lambda>_. True) draw api now_of t)
      (replicate (nat (ic_matches_per_task cfg)) (snd t))" for t
    using adds_worker [OF adds_synthetic [OF assms(2)]] assms(1,3) by (cases t) (simp add: process_task_def)
  then show ?thesis unfolding ingest_round_def round_pairs_def Let_def by (rule adds_for_each)
qed

lemma announce_all:
  "\<exists>s'. for_each pts (announce (\<lambda>_. True)) s = Some (Inr (), s') \<and> ig_published s' = ig_published s
     \<and> ig_seq s' = ig_seq s \<and> ig_announced s' = ig_announced s @ pts"
proof (induction pts arbitrary: s)
  case (Cons pt pts)
  from Cons.IH [of "s\<lparr>ig_attempts := ig_attempts s + 1, ig_announced := ig_announced s @ [pt]\<rparr>"]
  show ?case by (elim exE conjE) (simp add: and_then_def announce_def)
qed (simp add: ret_def)

lemma synthetic_run_pairs:
  assumes init: "Ingestor_init env = Inr cfg" and port: "int_of_text (setting env ''METRICS_PORT'' ''9103'') = Inr port"
    and syn: "ic_synthetic cfg" and pts: "ic_patches cfg \<noteq> []" and w: "0 < ic_workers cfg"
  shows "\<exists>s. ingestor_run env cfg md5_prefix (\<lambda>_. True) draw api now_of n new_ingestor = Some (Inr (), s)
    \<and> map (\<lambda>e. (region e, tier e)) (ig_published s) = concat (replicate n (round_pairs cfg))
    \<and> patch ` set (ig_published s) \<subseteq> set (ic_patches cfg)
    \<and> map clocks (ig_published s) = map (\<lambda>i. [(ic_node_id cfg, i)]) [1 .. int (length (ig_published s))]
    \<and> ig_announced s = ic_patches cfg"
proof -
  note wts = init_patches(2) [OF init]
  let ?rounds = "for_each [0..<n] (\<lambda>_. ingest_round cfg md5_prefix (\<lambda>_. True) draw api now_of)"
  have r: "adds (ic_node_id cfg) (ic_patches cfg) ?rounds (concat (replicate n (round_pairs cfg)))"
    using adds_for_each [OF adds_round [OF syn pts wts], of "[0..<n]"] by (simp add: map_replicate_const)
  obtain s1 where 1: "for_each (ic_patches cfg) (announce (\<lambda>_. True)) new_ingestor = Some (Inr (), s1)"
    "ig_published s1 = []" "ig_seq s1 = 0" "ig_announced s1 = ic_patches cfg"
    using announce_all [of "ic_patches cfg" new_ingestor] by (auto simp: new_ingestor_def)
  let ?prs = "concat (replicate n (round_pairs cfg))"
  have "\<exists>s es. ?rounds s1 = Some (Inr (), s) \<and> ig_published s = es \<and> map (\<lambda>e. (region e, tier e)) es = ?prs
      \<and> patch ` set es \<subseteq> set (ic_patches cfg) \<and> map clocks es = map (\<lambda>i. [(ic_node_id cfg, i)]) [1 .. int (length ?prs)]
      \<and> ig_announced s = ic_patches cfg"
    using spec [OF r [unfolded adds_def], of s1] unfolding 1 by (elim exE conjE) simp
  then obtain s es where 2: "?rounds s1 = Some (Inr (), s)" "ig_published s = es" "map (\<lambda>e. (region e, tier e)) es = ?prs"
    "patch ` set es \<subseteq> set (ic_patches cfg)" "map clocks es = map (\<lambda>i. [(ic_node_id cfg, i)]) [1 .. int (length ?prs)]"
    "ig_announced s = ic_patches cfg"
    by blast
  have len: "length ?prs = length es" using arg_cong [OF 2(3), of length] by simp
  have run: "ingestor_run env cfg md5_prefix (\<lambda>_. True) draw api now_of n new_ingestor = Some (Inr (), s)"
    using w 1(1) 2(1) by (simp add: ingestor_run_def port and_then_def)
  show ?thesis by (intro exI [of _ s] conjI run) (use 2 len in simp_all)
qed


definition sample_env :: environ where
  "sample_env = [(''REGIONS'', ''NA''), (''TIERS'', ''GOLD,IRON''), (''PATCHES'', '' 17.4, ''), (''MATCHES_PER_TASK'', ''2''),
     (''ROUND_INTERVAL_SECS'', ''1''), (''WORKERS'', ''1''), (''RIOT_API_KEY'', ''Synthetic'')]"

definition sample_config :: ingest_config where
  "sample_config = \<lparr>ic_node_id = ''ingest-1'', ic_broker_addr = ''127.0.0.1:50051'', ic_api_key = Some ''Synthetic'',
     ic_regions = [''NA''], ic_tiers = [''GOLD'', ''IRON''], ic_patches = [''17.4''], ic_patch_weights = [1],
     ic_matches_per_task = 2, ic_round_interval = Finite 1, ic_workers = 1, ic_limiter = new_limiter 20, ic_synthetic = True\<rparr>"

lemma sample_init: "Ingestor_init sample_env = Inr sample_config"
  by code_simp

lemma sample_config:
  "ic_synthetic sample_config" "ic_patches sample_config = [''17.4'']" "ic_workers sample_config = 1"
  "ic_matches_per_task sample_config = 2" "ic_regions sample_config = [''NA'']"
  "ic_tiers sample_config = [''GOLD'', ''IRON'']"
  by (simp_all add: sample_config_def)

lemma sample_port: "int_of_text (setting sample_env ''METRICS_PORT'' ''9103'') = Inr 9103"
  by code_simp


section \<open>A run without a patch\<close>

definition errors :: "ingestor \<Rightarrow> py_float" where
  "errors s = dict_get (counters (ig_metrics s)) ''errors_total'' 0"

definition only_errors :: "unit run \<Rightarrow> nat \<Rightarrow> bool" where
  "only_errors m k \<longleftrightarrow>
     (\<forall>s. \<exists>s'. m s = Some (Inr (), s') \<and> ig_published s' = ig_published s \<and> errors s' = errors s + real k)"

lemma only_errors_for_each:
  assumes "\<And>x. only_errors (f x) k"
  shows "only_errors (for_each xs f) (length xs * k)"
proof (induction xs)
  case Nil
  show ?case by (simp add: only_errors_def ret_def)
next
  case (Cons x xs)
  show ?case
    unfolding only_errors_def
  proof
    fix s
    obtain s1 where 1: "f x s = Some (Inr (), s1)" "ig_published s1 = ig_published s" "errors s1 = errors s + real k"
      using assms [of x] unfolding only_errors_def by blast
    obtain s2 where "for_each xs f s1 = Some (Inr (), s2)" "ig_published s2 = ig_published s1"
      "errors s2 = errors s1 + real (length xs * k)"
      using Cons unfolding only_errors_def by blast
    with 1 show "\<exists>s'. for_each (x # xs) f s = Some (Inr (), s') \<and> ig_published s' = ig_published s
        \<and> errors s' = errors s + real (length (x # xs) * k)"
      by (intro exI [of _ s2]) (simp add: and_then_def algebra_simps)
  qed
qed

lemma synthetic_without_patch:
  assumes "0 < n"
  shows "only_errors (worker_turn (process_synthetic h broker [] (patch_weights []) node n draw rgn tr)) 1"
  unfolding only_errors_def
proof
  fix s :: ingestor
  obtain u now uid ds seats where x: "draw (ig_seq s + 1) = (u, now, uid, ds, seats)" by (cases "draw (ig_seq s + 1)")
  let ?s = "s\<lparr>ig_seq := ig_seq s + 1\<rparr>"
  have "[0..<nat n] = 0 # [1..<nat n]" using assms by (simp add: upt_rec)
  then have "process_synthetic h broker [] (patch_weights []) node n draw rgn tr s = Some (Inl (PyError IndexError), ?s)"
    by (simp add: process_synthetic_def and_then_def next_seq_def x pick_patch_def choices_one_def patch_weights_def)
  then show "\<exists>s'. worker_turn (process_synthetic h broker [] (patch_weights []) node n draw rgn tr) s = Some (Inr (), s')
      \<and> ig_published s' = ig_published s \<and> errors s' = errors s + real 1"
    by (simp add: worker_turn_def errors_def inc_def)
qed

lemma blank_list:
  assumes "list_all (\<lambda>c. c = CHR '','' \<or> is_space c) v"
  shows "stripped_list (split_on (CHR '','') v) = []"
proof -
  have "strip p = []" if "p \<in> set (split_on (CHR '','') v)" for p
  proof -
    have "is_space c" if c: "c \<in> set p" for c
    proof -
      have "c \<in> set v" using split_on_set [OF \<open>p \<in> _\<close>] c by (rule subsetD)
      moreover have "c \<noteq> CHR '',''" using split_on_no_sep [OF \<open>p \<in> _\<close>] c by metis
      ultimately show ?thesis using assms by (simp only: list_all_iff) (metis (no_types))
    qed
    then have "\<forall>c\<in>set p. is_space c" by (rule ballI)
    then have "dropWhile is_space p = []" by (simp only: dropWhile_eq_Nil_conv)
    then show ?thesis by (simp only: strip_def rev.simps dropWhile.simps)
  qed
  then show ?thesis by (simp add: stripped_list_def filter_empty_conv)
qed

text \<open>
  A list of patches that is blank. The environment \<open>PATCHES\<close> set to commas and spaces only
  passes the start, but then every task of a synthetic run fails on its first match: after \<open>n\<close>
  rounds nothing was published and \<open>errors_total\<close> stands at \<open>n\<close> times the number of tasks.
\<close>

theorem blank_patches_run:
  assumes init: "Ingestor_init env = Inr cfg" and port: "int_of_text (setting env ''METRICS_PORT'' ''9103'') = Inr port"
    and syn: "ic_synthetic cfg" and w: "0 < ic_workers cfg" "0 < ic_matches_per_task cfg"
    and blank: "map_of env ''PATCHES'' = Some v" "v \<noteq> []" "list_all (\<lambda>c. c = CHR '','' \<or> is_space c) v"
  shows "\<exists>s. ingestor_run env cfg md5_prefix broker draw api now_of n new_ingestor = Some (Inr (), s)
    \<and> ig_published s = [] \<and> errors s = real (n * (length (ic_regions cfg) * length (ic_tiers cfg)))"
proof -
  have "comma_list env ''PATCHES'' PATCHES = split_on (CHR '','') v"
    using blank(1,2) by (simp add: comma_list_def setting_eq)
  then have p0: "ic_patches cfg = []" unfolding init_patches(1) [OF init] by (simp only: blank_list [OF blank(3)])
  then have p: "ic_patches cfg = []" "ic_patch_weights cfg = patch_weights []"
    using init_patches(2) [OF init] by simp_all
  have "only_errors (process_task cfg md5_prefix broker draw api now_of t) 1" for t
    using synthetic_without_patch [OF w(2)] by (cases t) (simp add: process_task_def syn p)
  from only_errors_for_each [OF this]
  have "only_errors (ingest_round cfg md5_prefix broker draw api now_of)
      (length (take_all (length (round_tasks (ic_regions cfg) (ic_tiers cfg))) (put_all (round_tasks (ic_regions cfg) (ic_tiers cfg)) [])) * 1)"
    unfolding ingest_round_def Let_def .
  moreover have "length (take_all (length (round_tasks rs ts)) (put_all (round_tasks rs ts) [])) = length rs * length ts" for rs ts
    using arg_cong [OF order_mset [of rs ts], of size]
    by (simp add: round_tasks_def length_concat comp_def sum_list_triv)
  ultimately have "only_errors (ingest_round cfg md5_prefix broker draw api now_of) (length (ic_regions cfg) * length (ic_tiers cfg))"
    by simp
  note all = only_errors_for_each [OF this, of "[0..<n]", unfolded only_errors_def]
  have new: "ig_published new_ingestor = []" "errors new_ingestor = 0"
    by (simp_all add: new_ingestor_def errors_def new_metrics_def)
  from spec [OF all, of new_ingestor] obtain s where
    "for_each [0..<n] (\<lambda>_. ingest_round cfg md5_prefix broker draw api now_of) new_ingestor = Some (Inr (), s)"
    "ig_published s = []" "errors s = real (n * (length (ic_regions cfg) * length (ic_tiers cfg)))"
    unfolding new by (elim exE conjE) simp
  with w show ?thesis
    by (intro exI [of _ s]) (simp add: ingestor_run_def port p and_then_def ret_def)
qed

theorem blank_patches_run_witness:
  "\<exists>s. ingestor_run [(''PATCHES'', '' , '')] (case Ingestor_init [(''PATCHES'', '' , '')] of Inr c \<Rightarrow> c) length broker draw api now_of 1 new_ingestor
      = Some (Inr (), s) \<and> ig_published s = [] \<and> errors s = 18"
proof -
  let ?env = "[(''PATCHES'', '' , '')]" and ?cfg = "case Ingestor_init [(''PATCHES'', '' , '')] of Inr c \<Rightarrow> c"
  have i: "Ingestor_init ?env = Inr ?cfg" "int_of_text (setting ?env ''METRICS_PORT'' ''9103'') = Inr 9103"
    "ic_synthetic ?cfg" "0 < ic_workers ?cfg" "0 < ic_matches_per_task ?cfg" "length (ic_regions ?cfg) = 2"
    "length (ic_tiers ?cfg) = 9" "list_all (\<lambda>c. c = CHR '','' \<or> is_space c) '' , ''"
    by code_simp+
  from blank_patches_run [OF i(1-5) _ _ i(8), of length broker draw api now_of 1] show ?thesis by (simp add: i(6,7))
qed

end
