(* ===== verification/Startup.thy ===== *)
theory Startup
  imports Ingest_Run Processor Detector Cache Security
begin

text \<open>
  The other services at their start: what the processor, the anomaly service, the REST service
  and its guards take from the environment, and what follows for the services that share one.
\<close>

section \<open>Services\<close>

record processor_config =
  pc_processor :: processor
  pc_broker_addr :: string
  pc_metastore_addr :: string
  pc_regions :: "string list"
  pc_tiers :: "string list"
  pc_data_dir :: string
  pc_offsets_dir :: string

definition Processor_init :: "environ \<Rightarrow> processor_config" where
  "Processor_init env =
     (let nid = setting env ''NODE_ID'' ''processor-1'';
          data_dir = setting env ''DATA_DIR'' (''./data/'' @ nid)
      in \<lparr>pc_processor = new_processor nid, pc_broker_addr = setting env ''BROKER_ADDR'' ''127.0.0.1:50051'',
          pc_metastore_addr = setting env ''METASTORE_ADDR'' ''127.0.0.1:50052'',
          pc_regions = comma_list env ''REGIONS'' [''NA'', ''EUW''], pc_tiers = comma_list env ''TIERS'' TIERS,
          pc_data_dir = data_dir, pc_offsets_dir = path_join data_dir ''offsets''\<rparr>)"

text \<open>The threads that \<open>run\<close> starts, by the partition each subscribes to.\<close>

definition subscriptions :: "processor_config \<Rightarrow> string list" where
  "subscriptions p = concat (map (\<lambda>rgn. map (\<lambda>tr. partition_name rgn tr) (pc_tiers p)) (pc_regions p))"

definition flush_settings :: "environ \<Rightarrow> py_exc + py_number \<times> int" where
  "flush_settings env =
     try_then (float_of_text (setting env ''FLUSH_INTERVAL_SECS'' ''60'')) (\<lambda>interval.
     try_then (int_of_text (setting env ''FLUSH_MATCH_THRESHOLD'' ''10000'')) (\<lambda>threshold. Inr (interval, threshold)))"

record anomaly_config =
  an_node_id :: string
  an_metastore_addr :: string
  an_broker_addr :: string
  an_interval :: py_number
  an_entity_types :: "string list"
  an_window :: int

definition AnomalyService_init :: "environ \<Rightarrow> py_exc + anomaly_config" where
  "AnomalyService_init env =
     try_then (float_of_text (setting env ''CHECK_INTERVAL_SECS'' ''600'')) (\<lambda>interval.
     try_then (int_of_text (setting env ''WINDOW'' ''48'')) (\<lambda>w.
       Inr \<lparr>an_node_id = setting env ''NODE_ID'' ''anomaly-1'',
         an_metastore_addr = setting env ''METASTORE_ADDR'' ''127.0.0.1:50052'',
         an_broker_addr = setting env ''BROKER_ADDR'' ''127.0.0.1:50051'', an_interval = interval,
         an_entity_types = [''champion'', ''item'', ''augment'', ''composition''], an_window = w\<rparr>))"

record service_config =
  sc_metastore_addr :: string
  sc_broker_addr :: string
  sc_api_key :: "string option"
  sc_cache_ttl :: py_number

definition Service_init :: "environ \<Rightarrow> py_exc + service_config" where
  "Service_init env =
     try_then (float_of_text (setting env ''CACHE_TTL_SECS'' ''60'')) (\<lambda>t.
       Inr \<lparr>sc_metastore_addr = setting env ''METASTORE_ADDR'' ''127.0.0.1:50052'',
         sc_broker_addr = setting env ''BROKER_ADDR'' ''127.0.0.1:50051'',
         sc_api_key = getenv env ''RIOT_API_KEY'' None, sc_cache_ttl = t\<rparr>)"

text \<open>\<open>_int_env\<close> of \<open>api/security.py\<close> and the tunables read with it.\<close>

definition int_env :: "environ \<Rightarrow> string \<Rightarrow> int \<Rightarrow> int" where
  "int_env env name dflt =
     (let raw = dict_get env name [] in
      if raw = [] then dflt else (case int_of_text raw of Inl _ \<Rightarrow> dflt | Inr n \<Rightarrow> n))"

definition read_tunables :: "environ \<Rightarrow> tunables" where
  "read_tunables env = \<lparr>RATE_PER_MIN = int_env env ''RATE_LIMIT_PER_MIN'' 120,
     PLAYER_RATE_PER_MIN = int_env env ''PLAYER_RATE_PER_MIN'' 12, RIOT_DAILY_CAP = int_env env ''RIOT_DAILY_CAP'' 20000\<rparr>"

text \<open>An empty environment gives the constants that the other theories use.\<close>

lemma defaults:
  "flush_settings [] = Inr (Finite FLUSH_INTERVAL_SECS, int FLUSH_MATCH_THRESHOLD)"
  "read_tunables [] = default_tunables"
  "int_env [] ''MAX_PARAM_LEN'' 120 = int MAX_PARAM_LEN"
  "map_sum id sc_cache_ttl (Service_init []) = Inr (Finite 60)"
  "map_sum id an_window (AnomalyService_init []) = Inr 48"
  "length (subscriptions (Processor_init [])) = 18"
  by code_simp+

section \<open>Unreadable numbers\<close>

definition unreadable :: "(string \<Rightarrow> py_exc + 'a) \<Rightarrow> environ \<Rightarrow> string \<Rightarrow> bool" where
  "unreadable conv env key =
     (case map_of env key of None \<Rightarrow> False | Some v \<Rightarrow> v \<noteq> [] \<and> (case conv v of Inl _ \<Rightarrow> True | Inr _ \<Rightarrow> False))"

lemma unreadable_int:
  assumes "int_of_text d = Inr n"
  shows "int_of_text (setting env key d) = Inl e \<longleftrightarrow> e = ValueError \<and> unreadable int_of_text env key"
  using assms int_of_text_exc by (auto simp: setting_eq unreadable_def split: option.splits sum.splits)

lemma unreadable_float:
  assumes "float_of_text d = Inr n"
  shows "float_of_text (setting env key d) = Inl e \<longleftrightarrow> e = ValueError \<and> unreadable float_of_text env key"
  using assms float_of_text_exc by (auto simp: setting_eq unreadable_def split: option.splits sum.splits)

lemma readable_defaults:
  "int_of_text ''40'' = Inr 40" "int_of_text ''8'' = Inr 8" "int_of_text ''20'' = Inr 20" "int_of_text ''48'' = Inr 48"
  "int_of_text ''10000'' = Inr 10000" "float_of_text ''2.0'' = Inr (Finite 2)" "float_of_text ''600'' = Inr (Finite 600)"
  "float_of_text ''60'' = Inr (Finite 60)"
  by code_simp+

lemmas unreadable_numbers = readable_defaults(1-5) [THEN unreadable_int] readable_defaults(6-8) [THEN unreadable_float]

lemma try_then_fails:
  assumes "\<And>e. r = Inl e \<longleftrightarrow> e = x \<and> A" "\<And>a e. f a = Inl e \<longleftrightarrow> e = x \<and> B"
  shows "try_then r f = Inl e \<longleftrightarrow> e = x \<and> (A \<or> B)"
  using assms by (cases r) (auto simp: try_then_def)

lemma try_then_last:
  assumes "\<And>e. r = Inl e \<longleftrightarrow> e = x \<and> A" "\<And>a e. f a \<noteq> Inl e"
  shows "try_then r f = Inl e \<longleftrightarrow> e = x \<and> A"
  using assms by (cases r) (auto simp: try_then_def)



section \<open>One environment for ingestor and processor\<close>

text \<open>A computation that publishes only for the pairs of region and tier in \<open>A\<close>.\<close>

definition publishes_in :: "(string \<times> string) set \<Rightarrow> 'a run \<Rightarrow> bool" where
  "publishes_in A m \<longleftrightarrow>
     (\<forall>s r s'. m s = Some (r, s') \<longrightarrow>
        (\<exists>es. ig_published s' = ig_published s @ es \<and> (\<lambda>e. (region e, tier e)) ` set es \<subseteq> A))"

lemma publishes_nothing:
  assumes "\<And>s r s'. m s = Some (r, s') \<Longrightarrow> ig_published s' = ig_published s"
  shows "publishes_in A m"
  unfolding publishes_in_def by (intro allI impI exI [of _ "[]"]) (simp add: assms)

lemma publishes_then:
  assumes "publishes_in A m" "\<And>a. publishes_in A (f a)"
  shows "publishes_in A (and_then m f)"
  unfolding publishes_in_def
proof (intro allI impI)
  fix s r s''
  assume run: "and_then m f s = Some (r, s'')"
  then obtain q s' where m: "m s = Some (q, s')" by (auto simp: and_then_def split: option.splits)
  then obtain es where es: "ig_published s' = ig_published s @ es" "(\<lambda>e. (region e, tier e)) ` set es \<subseteq> A"
    using assms(1) unfolding publishes_in_def by blast
  show "\<exists>es. ig_published s'' = ig_published s @ es \<and> (\<lambda>e. (region e, tier e)) ` set es \<subseteq> A"
  proof (cases q)
    case (Inl e)
    with run m have "s'' = s'" by (simp add: and_then_def)
    with es show ?thesis by blast
  next
    case (Inr a)
    with run m have "f a s' = Some (r, s'')" by (simp add: and_then_def)
    then obtain fs where "ig_published s'' = ig_published s' @ fs" "(\<lambda>e. (region e, tier e)) ` set fs \<subseteq> A"
      using assms(2) unfolding publishes_in_def by blast
    with es show ?thesis by (intro exI [of _ "es @ fs"]) (simp add: image_Un)
  qed
qed

lemma publishes_simple:
  "publishes_in A (ret x)" "publishes_in A next_seq" "publishes_in A (get fetch)" "publishes_in A (lookup_key d k)"
  "publishes_in A (pick_patch patches weights u)" "publishes_in A (raise_py e)" "publishes_in A (announce broker pt)"
  by (auto intro!: publishes_nothing
      simp: ret_def next_seq_def get_def lookup_key_def pick_patch_def raise_py_def announce_def refused_def split: if_splits)

lemma publishes_for_each: "(\<And>x. x \<in> set xs \<Longrightarrow> publishes_in A (f x)) \<Longrightarrow> publishes_in A (for_each xs f)"
  by (induction xs) (simp_all add: publishes_then publishes_simple)

lemma publishes_match:
  "(region e, tier e) \<in> A \<Longrightarrow> publishes_in A (publish_match broker e)"
  unfolding publishes_in_def publish_match_def by (auto split: if_splits)

lemma publishes_normalized:
  "normalize now_ms raw rgn tr node sq = Some e \<Longrightarrow> (rgn, tr) \<in> A \<Longrightarrow> publishes_in A (publish_match broker e)"
  by (rule publishes_match) (auto simp: normalize_def Let_def split: option.splits if_splits)

lemma publishes_worker: "publishes_in A m \<Longrightarrow> publishes_in A (worker_turn m)"
  unfolding publishes_in_def worker_turn_def by (fastforce split: option.splits prod.splits sum.splits)

lemma publishes_synthetic:
  assumes "(rgn, tr) \<in> A"
  shows "publishes_in A (process_synthetic h broker patches weights node n draw rgn tr)"
  unfolding process_synthetic_def
  by (intro publishes_for_each publishes_then publishes_simple)
    (auto intro!: publishes_then publishes_simple publishes_match simp: assms generate_match_def Let_def split: prod.split)

lemma publishes_real:
  assumes "(rgn, tr) \<in> A"
  shows "publishes_in A (process_real api broker node now_of rgn tr)"
proof -
  have m: "publishes_in A (ingest_match api broker node now_of rgn tr mid)" for mid
    unfolding ingest_match_def client_match_def
    by (intro publishes_then publishes_simple)
      (auto intro!: publishes_then publishes_simple intro: publishes_normalized [OF _ assms] split: option.split)
  have p: "publishes_in A (puuids_for_tier api rgn tr 10)"
    unfolding puuids_for_tier_def by (intro publishes_then publishes_simple publishes_nothing) simp
  show ?thesis
    unfolding process_real_def client_match_ids_def by (intro publishes_then publishes_for_each publishes_simple m p)
qed

lemma publishes_run:
  assumes "set (ic_regions cfg) \<times> set (ic_tiers cfg) \<subseteq> A"
  shows "publishes_in A (ingestor_run env cfg h broker draw api now_of n)"
proof -
  have "publishes_in A (process_task cfg h broker draw api now_of t)"
    if "t \<in> set (round_tasks (ic_regions cfg) (ic_tiers cfg))" for t
  proof -
    obtain prio rgn tr where t: "t = (prio, rgn, tr)" by (cases t)
    with that assms have "(rgn, tr) \<in> A" by (auto simp: round_tasks_def)
    then show ?thesis by (simp add: process_task_def t publishes_worker publishes_synthetic publishes_real)
  qed
  then have r: "publishes_in A (ingest_round cfg h broker draw api now_of)"
    unfolding ingest_round_def Let_def by (intro publishes_for_each) (simp add: mset_eq_setD [OF order_mset])
  have w: "publishes_in A (\<lambda>s. if ic_workers cfg \<le> 0 \<and> 0 < n then None
      else for_each [0..<n] (\<lambda>_. ingest_round cfg h broker draw api now_of) s)"
    using publishes_for_each [of "[0..<n]", OF r] by (simp add: publishes_in_def)
  show ?thesis
    using publishes_then [OF publishes_for_each [OF publishes_simple(7)] w] publishes_simple(6)
    by (cases "int_of_text (setting env ''METRICS_PORT'' ''9103'')") (simp_all add: ingestor_run_def)
qed

text \<open>
  C21. One environment for both ends of the broker. When the processor's environment gives
  \<open>REGIONS\<close> and \<open>TIERS\<close> the values they have for the ingestor, then whatever Riot, the broker and
  the random generator do, in synthetic mode or not, every match an ingestor publishes goes to a
  partition that a thread of the processor subscribes to.
\<close>

theorem published_where_subscribed:
  assumes init: "Ingestor_init env = Inr cfg"
    and same: "map_of env' ''REGIONS'' = map_of env ''REGIONS''" "map_of env' ''TIERS'' = map_of env ''TIERS''"
    and run: "ingestor_run env cfg md5_prefix broker draw api now_of n new_ingestor = Some (r, s)"
  shows "\<forall>e\<in>set (ig_published s). partition_name (region e) (tier e) \<in> set (subscriptions (Processor_init env'))"
proof
  fix e assume e: "e \<in> set (ig_published s)"
  have "publishes_in (set (ic_regions cfg) \<times> set (ic_tiers cfg)) (ingestor_run env cfg md5_prefix broker draw api now_of n)"
    by (rule publishes_run) simp
  then have "(region e, tier e) \<in> set (ic_regions cfg) \<times> set (ic_tiers cfg)"
    using run e unfolding publishes_in_def by (fastforce simp: new_ingestor_def)
  moreover have "pc_regions (Processor_init env') = ic_regions cfg" "pc_tiers (Processor_init env') = ic_tiers cfg"
    using init_patches(3,4) [OF init] same by (simp_all add: Processor_init_def Let_def comma_list_def setting_eq)
  ultimately show "partition_name (region e) (tier e) \<in> set (subscriptions (Processor_init env'))"
    by (auto simp: subscriptions_def)
qed

theorem published_where_subscribed_witness:
  "\<forall>draw api now_of. \<exists>s. ingestor_run sample_env sample_config length (\<lambda>_. True) draw api now_of 1 new_ingestor = Some (Inr (), s)
     \<and> length (ig_published s) = 4
     \<and> set (map (\<lambda>e. partition_name (region e) (tier e)) (ig_published s)) \<subseteq> set (subscriptions (Processor_init sample_env))"
proof (intro allI)
  fix draw api now_of
  have "ic_patches sample_config \<noteq> []" "0 < ic_workers sample_config" by (simp_all add: sample_config)
  from synthetic_run_pairs [OF sample_init sample_port sample_config(1) this, of length draw api now_of 1] obtain s where
    s: "ingestor_run sample_env sample_config length (\<lambda>_. True) draw api now_of 1 new_ingestor = Some (Inr (), s)"
    "map (\<lambda>e. (region e, tier e)) (ig_published s) = concat (replicate 1 (round_pairs sample_config))"
    by (elim exE conjE)
  have "round_pairs sample_config = [(''NA'', ''GOLD''), (''NA'', ''GOLD''), (''NA'', ''IRON''), (''NA'', ''IRON'')]" by code_simp
  with arg_cong [OF s(2), of length] have "length (ig_published s) = 4" by simp
  with published_where_subscribed [OF sample_init refl refl s(1)] s(1) show "\<exists>s. ingestor_run sample_env sample_config length (\<lambda>_. True) draw api now_of 1 new_ingestor = Some (Inr (), s)
     \<and> length (ig_published s) = 4
     \<and> set (map (\<lambda>e. partition_name (region e) (tier e)) (ig_published s)) \<subseteq> set (subscriptions (Processor_init sample_env))"
    by (intro exI [of _ s]) auto
qed

end
