(* ===== verification/Catalogue.thy ===== *)
theory Catalogue
  imports Endpoints Set_Data
begin

text \<open>
  The display tables in use: the lookup tables that \<open>api/riot.py\<close> builds from them, what the roster
  endpoint serves, and how the committed tables relate to what \<open>scripts/fetch_set_data.py\<close> builds.
\<close>

section \<open>Lookup tables of the player profiles\<close>

text \<open>A dictionary comprehension: a later entry for a key replaces the value of an earlier one.\<close>

definition dict_of :: "('a \<Rightarrow> 'k) \<Rightarrow> ('a \<Rightarrow> 'v) \<Rightarrow> 'a list \<Rightarrow> ('k, 'v) dict" where
  "dict_of key val xs = fold (\<lambda>x. AList.update (key x) (val x)) xs []"

definition ITEM_ICON :: "(string, string) dict" where
  "ITEM_ICON = dict_of bi_id bi_icon BUILDER_ITEMS"

definition ITEM_NAME :: "(string, string) dict" where
  "ITEM_NAME = dict_of bi_id bi_name BUILDER_ITEMS"

definition TRAIT_BY_NORM :: "(string, string \<times> string) dict" where
  "TRAIT_BY_NORM = dict_of (\<lambda>t. norm (tm_name t)) (\<lambda>t. (tm_name t, tm_icon t)) TRAITS_DATA"

definition set_display :: display where
  "set_display = \<lparr>champion_icons = CHAMPION_ICONS, item_icons = ITEM_ICON, item_names = ITEM_NAME,
     trait_by_norm = TRAIT_BY_NORM\<rparr>"

lemma map_of_dict_of:
  "map_of (dict_of key val xs) k = map_option val (find (\<lambda>x. key x = k) (rev xs))"
proof -
  have "map_of (fold (\<lambda>x. AList.update (key x) (val x)) xs d) k
      = (case find (\<lambda>x. key x = k) (rev xs) of None \<Rightarrow> map_of d k | Some x \<Rightarrow> Some (val x))" for d
    by (induction xs rule: rev_induct) simp_all
  then show ?thesis by (simp add: dict_of_def split: option.split)
qed

lemma find_SomeD: "find P xs = Some y \<Longrightarrow> y \<in> set xs \<and> P y"
  by (induction xs) (auto split: if_splits)

lemma dict_of_mem:
  assumes "x \<in> set xs"
  shows "\<exists>y\<in>set xs. key y = key x \<and> map_of (dict_of key val xs) (key x) = Some (val y)"
proof -
  have "find (\<lambda>y. key y = key x) (rev xs) \<noteq> None" using assms by (simp add: find_None_iff) blast
  then obtain y where y: "find (\<lambda>y. key y = key x) (rev xs) = Some y" by blast
  show ?thesis
    by (rule bexI [of _ y]) (use find_SomeD [OF y] y in \<open>simp_all add: map_of_dict_of\<close>)
qed

lemma trait_norms_distinct: "distinct (map norm TRAITS)"
  by code_simp

lemma trait_of_champion: "(cid, cost, ts) \<in> set CHAMPIONS \<Longrightarrow> t \<in> set ts \<Longrightarrow> t \<in> set TRAITS"
  by (force simp: TRAITS_def)

lemma trait_shown:
  assumes "t \<in> set TRAITS"
  shows "\<exists>ic. map_of TRAIT_BY_NORM (norm t) = Some (t, ic)"
proof -
  have names: "set (map tm_name TRAITS_DATA) = set TRAITS" using trait_meta_names by (metis set_remdups)
  then obtain m where m: "m \<in> set TRAITS_DATA" "tm_name m = t" using assms by (metis imageE set_map)
  obtain y where y: "y \<in> set TRAITS_DATA" "norm (tm_name y) = norm t"
    "map_of TRAIT_BY_NORM (norm t) = Some (tm_name y, tm_icon y)"
    using dict_of_mem [OF m(1), of "\<lambda>t. norm (tm_name t)" "\<lambda>t. (tm_name t, tm_icon t)"] m(2)
    unfolding TRAIT_BY_NORM_def by blast
  have "tm_name y \<in> set TRAITS" unfolding names [symmetric] using y(1) by simp
  with trait_norms_distinct assms y(2) have "tm_name y = t" by (simp add: distinct_map inj_on_def)
  with y(3) show ?thesis by blast
qed

lemma item_shown:
  assumes "i \<in> set ITEMS"
  shows "\<exists>nm ic. map_of ITEM_NAME i = Some nm \<and> map_of ITEM_ICON i = Some ic \<and> ic \<noteq> []"
    and "\<exists>b\<in>set BUILDER_ITEMS. bi_id b = i \<and> wf_item b \<and> bi_recipe b \<noteq> None"
proof -
  obtain b where b: "b \<in> set BUILDER_ITEMS" "bi_kind b = ''completed''" "bi_id b = i"
    using assms unfolding completed_items [symmetric] by auto
  have icons: "bi_icon y \<noteq> []" if "y \<in> set BUILDER_ITEMS" for y
    using that item_icons_nonempty by blast
  from dict_of_mem [OF b(1), of bi_id bi_name] dict_of_mem [OF b(1), of bi_id bi_icon] icons
  show "\<exists>nm ic. map_of ITEM_NAME i = Some nm \<and> map_of ITEM_ICON i = Some ic \<and> ic \<noteq> []"
    unfolding ITEM_NAME_def ITEM_ICON_def b(3) by blast
  have wf: "wf_item b" using items_wf b(1) by (simp add: list_all_iff)
  with b(2) have "bi_recipe b \<noteq> None" by (auto simp: wf_item_def split: option.splits)
  with wf b show "\<exists>b\<in>set BUILDER_ITEMS. bi_id b = i \<and> wf_item b \<and> bi_recipe b \<noteq> None" by blast
qed



section \<open>The committed tables and the generator\<close>

text \<open>
  No download makes the generator produce the committed item table: it lists every id once, and
  the table lists \<open>TFT_Item_CursedBlade\<close> and \<open>TFT_Item_HextechChestguard\<close> twice, as a component and as
  an item made of two of itself.
\<close>

lemma builder_items_repeat: "\<not> distinct (map bi_id BUILDER_ITEMS)"
  by code_simp

theorem builder_items_not_generated: "map pi_id (build_items its) \<noteq> map bi_id BUILDER_ITEMS"
  using build_items_ids [of its] builder_items_repeat by metis

end
