(* ===== verification/Set_Render.thy ===== *)
theory Set_Render
  imports Set_Data Tft_Data
begin

text \<open>
  The end of \<open>scripts/fetch_set_data.py\<close>: \<open>render\<close>, which fills a module template, and \<open>main\<close>, which
  calls it with what the selection of the theory \<open>Set_Data\<close> returns. Python's \<open>repr\<close> of strings is
  modelled on Latin-1 and shown to be read back by the rules for string literals.
\<close>

section \<open>Python's \<open>repr\<close>\<close>

definition is_printable :: "char \<Rightarrow> bool" where
  "is_printable = in_ranges [(0x20, 0x7E), (0xA1, 0xAC), (0xAE, 0xFF)]"

definition hex_digit :: "nat \<Rightarrow> char" where
  "hex_digit n = ''0123456789abcdef'' ! n"

definition escape :: "char \<Rightarrow> char \<Rightarrow> string" where
  "escape q c =
     (if c = q \<or> c = CHR 0x5C then [CHR 0x5C, c]
      else if c = CHR 0x09 then [CHR 0x5C, CHR ''t'']
      else if c = CHR 0x0A then [CHR 0x5C, CHR ''n'']
      else if c = CHR 0x0D then [CHR 0x5C, CHR ''r'']
      else if is_printable c then [c]
      else [CHR 0x5C, CHR ''x'', hex_digit (code c div 16), hex_digit (code c mod 16)])"

definition quote_of :: "string \<Rightarrow> char" where
  "quote_of s = (if CHR 0x27 \<in> set s \<and> CHR 0x22 \<notin> set s then CHR 0x22 else CHR 0x27)"

definition repr_str :: "string \<Rightarrow> string" where
  "repr_str s = [quote_of s] @ concat (map (escape (quote_of s)) s) @ [quote_of s]"

definition repr_list :: "string list \<Rightarrow> string" where
  "repr_list xs = ''['' @ join_with '', '' (map repr_str xs) @ '']''"

section \<open>Template and scope\<close>

definition fmt_champs :: "champion_row list \<Rightarrow> string" where
  "fmt_champs cs = join_with [CHR 0x0A] (map (\<lambda>(api, cost, ts, nm).
     ''    ('' @ repr_str api @ '', '' @ show_int cost @ '', '' @ repr_list ts @ ''),  # '' @ nm) cs)"

definition fmt_list :: "string list \<Rightarrow> string" where
  "fmt_list xs = join_with [CHR 0x0A] (map (\<lambda>x. ''    '' @ repr_str x @ '','') xs)"

record render_args =
  ra_champions :: "champion_row list"
  ra_items :: "string list"
  ra_augments :: "string list"
  ra_traits :: "string list"
  ra_comps :: "string list"
  ra_patches :: "string list"
  ra_high_elo :: "string list"
  ra_trap_aug :: string
  ra_set_name :: string

text \<open>
  A replacement field of the template inserts a string, its \<open>repr\<close>, or the result of one of the
  formatting functions. Evaluating a field reads the names it mentions from left to right.
\<close>

datatype pyval = Str string | Strs "string list" | Champs "champion_row list" | FmtList | FmtChamps

datatype field = Plain string | Repr string | Call0 string | Call1 string string

datatype piece = Lit string | Field field

datatype script_exc = NameError string | TypeError

text \<open>What \<open>render\<close> sees: its parameters, the two functions it defines, and the module's \<open>SET\<close>.\<close>

definition scope :: "render_args \<Rightarrow> (string, pyval) dict" where
  "scope a = [(''champions'', Champs (ra_champions a)), (''items'', Strs (ra_items a)), (''augments'', Strs (ra_augments a)),
     (''traits'', Strs (ra_traits a)), (''comps'', Strs (ra_comps a)), (''patches'', Strs (ra_patches a)),
     (''high_elo'', Strs (ra_high_elo a)), (''trap_aug'', Str (ra_trap_aug a)), (''set_name'', Str (ra_set_name a)),
     (''fmt_champs'', FmtChamps), (''fmt_list'', FmtList), (''SET'', Str CD_SET)]"

definition read_name :: "(string, pyval) dict \<Rightarrow> string \<Rightarrow> script_exc + pyval" where
  "read_name sc x = (case map_of sc x of None \<Rightarrow> Inl (NameError x) | Some v \<Rightarrow> Inr v)"

fun repr_value :: "pyval \<Rightarrow> script_exc + string" where
  "repr_value (Str s) = Inr (repr_str s)"
| "repr_value (Strs xs) = Inr (repr_list xs)"
| "repr_value _ = Inl TypeError"

fun eval_field :: "render_args \<Rightarrow> (string, pyval) dict \<Rightarrow> field \<Rightarrow> script_exc + string" where
  "eval_field a sc (Plain x) =
     (case read_name sc x of Inl e \<Rightarrow> Inl e | Inr (Str s) \<Rightarrow> Inr s | Inr _ \<Rightarrow> Inl TypeError)"
| "eval_field a sc (Repr x) = (case read_name sc x of Inl e \<Rightarrow> Inl e | Inr v \<Rightarrow> repr_value v)"
| "eval_field a sc (Call0 f) =
     (case read_name sc f of Inl e \<Rightarrow> Inl e | Inr FmtChamps \<Rightarrow> Inr (fmt_champs (ra_champions a)) | Inr _ \<Rightarrow> Inl TypeError)"
| "eval_field a sc (Call1 f x) =
     (case read_name sc f of Inl e \<Rightarrow> Inl e
      | Inr g \<Rightarrow> (case read_name sc x of Inl e \<Rightarrow> Inl e
          | Inr v \<Rightarrow> (case (g, v) of (FmtList, Strs xs) \<Rightarrow> Inr (fmt_list xs) | _ \<Rightarrow> Inl TypeError)))"

fun fill :: "render_args \<Rightarrow> (string, pyval) dict \<Rightarrow> piece list \<Rightarrow> script_exc + string" where
  "fill a sc [] = Inr []"
| "fill a sc (Lit s # ps) = (case fill a sc ps of Inl e \<Rightarrow> Inl e | Inr t \<Rightarrow> Inr (s @ t))"
| "fill a sc (Field f # ps) =
     (case eval_field a sc f of
        Inl e \<Rightarrow> Inl e
      | Inr s \<Rightarrow> (case fill a sc ps of Inl e \<Rightarrow> Inl e | Inr t \<Rightarrow> Inr (s @ t)))"

text \<open>
  The template. Its texts are written line by line, with \<open>~\<close> for the double quote; the long dash
  of three comments, which is not in Latin-1, is a hyphen here.
\<close>

definition text_of :: "string list \<Rightarrow> piece" where
  "text_of ls = Lit (map (\<lambda>c. if c = CHR ''~'' then CHR 0x22 else c) (join_with [CHR 0x0A] ls))"

definition TEMPLATE :: "piece list" where
  "TEMPLATE = [
     text_of [''~~~Static TFT **''],
     Field (Plain ''set_name''),
     text_of [''** reference data (snapshot).'',
       [],
       ''Generated by scripts/fetch_set_data.py from Community Dragon + Data Dragon.'',
       ''Used for synthetic ingestion and human-readable entity ids so the full pipeline'',
       ''runs end-to-end without a live Riot API key.'',
       ''~~~'',
       ''from __future__ import annotations'',
       [],
       ''SET = ''],
     Field (Plain ''SET''),
     text_of [[],
       ''SET_NAME = ''],
     Field (Repr ''set_name''),
     text_of [[],
       [],
       ''# (champion_id, cost, traits) - cost biases synthetic placement strength.'',
       ''CHAMPIONS = ['',
       []],
     Field (Call0 ''fmt_champs''),
     text_of [[],
       '']'',
       [],
       ''ITEMS = ['',
       []],
     Field (Call1 ''fmt_list'' ''items''),
     text_of [[],
       '']'',
       [],
       ''AUGMENTS = ['',
       []],
     Field (Call1 ''fmt_list'' ''augments''),
     text_of [[],
       '']'',
       [],
       ''TRAITS = ['',
       []],
     Field (Call1 ''fmt_list'' ''traits''),
     text_of [[],
       '']'',
       [],
       ''# Named composition cores (cosmetic; the processor derives the real per-board'',
       ''# composition label from champion traits at runtime).'',
       ''COMPOSITIONS = ['',
       []],
     Field (Call1 ''fmt_list'' ''comps''),
     text_of [[],
       '']'',
       [],
       ''TIERS = ['',
       ''    ~IRON~, ~BRONZE~, ~SILVER~, ~GOLD~, ~PLATINUM~,'',
       ''    ~DIAMOND~, ~MASTER~, ~GRANDMASTER~, ~CHALLENGER~,'',
       '']'',
       [],
       ''# Rank ordering for priority queues (lower number = higher priority).'',
       ''TIER_RANK = {t: i for i, t in enumerate(reversed(TIERS))}'',
       [],
       ''REGIONS = [~NA~, ~EUW~, ~KR~, ~BR~]'',
       [],
       ''# Riot routing.'',
       ''REGION_PLATFORM = {~NA~: ~na1~, ~EUW~: ~euw1~, ~KR~: ~kr~, ~BR~: ~br1~}'',
       ''REGION_CLUSTER = {~NA~: ~americas~, ~EUW~: ~europe~, ~KR~: ~asia~, ~BR~: ~americas~}'',
       [],
       ''CHAMPION_IDS = [c[0] for c in CHAMPIONS]'',
       ''CHAMPION_COST = {c[0]: c[1] for c in CHAMPIONS}'',
       ''CHAMPION_TRAITS = {c[0]: c[2] for c in CHAMPIONS}'',
       [],
       ''# Champion portrait URLs (Community Dragon square splash tiles).'',
       ''CHAMPION_ICONS = {'',
       []],
     Field (Call1 ''fmt_dict'' ''champ_icons''),
     text_of [[],
       ''}'',
       [],
       ''# Equippable item pool for the team builder: {id, name, icon, kind, recipe}.'',
       ''# `recipe` lists the two component ids for completed items (empty otherwise).'',
       ''BUILDER_ITEMS = ['',
       []],
     Field (Call1 ''fmt_items'' ''builder_items''),
     text_of [[],
       '']'',
       [],
       ''# Trait metadata: {name, icon, breakpoints} - breakpoints are the activation'',
       ''# thresholds (e.g. Vanguard 2/4/6).'',
       ''TRAITS_DATA = ['',
       []],
     Field (Call1 ''fmt_items'' ''traits_data''),
     text_of [[],
       '']'',
       [],
       ''# Augments for the builder's augment picker: {id, name, icon, tier}.'',
       ''BUILDER_AUGMENTS = ['',
       []],
     Field (Call1 ''fmt_items'' ''builder_augments''),
     text_of [[],
       '']'',
       [],
       ''# Recent Set ''],
     Field (Plain ''SET''),
     text_of ['' patches, oldest -> newest. The last is the current patch.'',
       ''PATCHES = ''],
     Field (Repr ''patches''),
     text_of [[],
       ''DEFAULT_PATCH = PATCHES[-1]'',
       [],
       ''# Synthetic-signal seeds.'',
       ''HIGH_ELO_FAVORITES = ''],
     Field (Repr ''high_elo''),
     text_of [[],
       ''TRAP_AUGMENT = ''],
     Field (Repr ''trap_aug''),
     text_of [[],
       []]]"

section \<open>render and main\<close>

text \<open>The result of an operation and the content of the output file, if it was ever written.\<close>

definition render_module :: "render_args \<Rightarrow> string option \<Rightarrow> (script_exc + unit) \<times> string option" where
  "render_module a out =
     (case fill a (scope a) TEMPLATE of
        Inl e \<Rightarrow> (Inl e, out)
      | Inr body \<Rightarrow> (Inr (), Some body))"

record download =
  dl_set_name :: "string option"
  dl_champions :: "cd_champion list"
  dl_items :: "cd_item list"
  dl_set_augments :: "string list"
  dl_versions :: "string list"

definition main_script :: "download \<Rightarrow> string option \<Rightarrow> (script_exc + unit) \<times> string option" where
  "main_script d out =
     (let champions = select_champions (dl_champions d);
          augments = select_augments (dl_items d) (dl_set_augments d);
          traits = trait_names champions
      in render_module
           \<lparr>ra_champions = champions, ra_items = select_items (dl_items d), ra_augments = augments, ra_traits = traits,
             ra_comps = core_comps traits, ra_patches = recent_patches 3 (dl_versions d),
             ra_high_elo = high_elo champions, ra_trap_aug = trap_augment augments,
             ra_set_name = or_else (dl_set_name d) (''Set'' @ CD_SET)\<rparr> out)"

text \<open>
  \<open>main\<close> never writes the module: whatever was downloaded, it ends with a \<open>NameError\<close> for
  \<open>fmt_dict\<close>, the first of the names in the template that \<open>render\<close> does not have, and the old
  file stays.
\<close>

theorem main_never_writes: "main_script d out = (Inl (NameError ''fmt_dict''), out)"
  by (simp add: main_script_def render_module_def Let_def TEMPLATE_def text_of_def scope_def read_name_def)

section \<open>Reading the literals back\<close>

text \<open>
  The rules of Python for a string literal, up to its closing quote: an escape of \<open>repr\<close>, or a
  character that stands for itself. The rest of the text is returned as well.
\<close>

definition hex_value :: "char \<Rightarrow> nat option" where
  "hex_value c =
     (if in_ranges [(0x30, 0x39)] c then Some (code c - 0x30)
      else if in_ranges [(0x61, 0x66)] c then Some (code c - 0x57)
      else if in_ranges [(0x41, 0x46)] c then Some (code c - 0x37) else None)"

definition cons_fst :: "char \<Rightarrow> (string \<times> string) option \<Rightarrow> (string \<times> string) option" where
  "cons_fst c r = map_option (\<lambda>(x, rest). (c # x, rest)) r"

fun unescape :: "char \<Rightarrow> string \<Rightarrow> (string \<times> string) option" where
  "unescape q [] = None"
| "unescape q [c] = (if c = q then Some ([], []) else None)"
| "unescape q (c # d # s) =
     (if c = q then Some ([], d # s)
      else if c = CHR 0x0A then None
      else if c = CHR 0x5C then
        (if d = CHR ''t'' then cons_fst (CHR 0x09) (unescape q s)
         else if d = CHR ''n'' then cons_fst (CHR 0x0A) (unescape q s)
         else if d = CHR ''r'' then cons_fst (CHR 0x0D) (unescape q s)
         else if d = CHR 0x5C \<or> d = CHR 0x27 \<or> d = CHR 0x22 then cons_fst d (unescape q s)
         else if d = CHR ''x'' then
           (case s of
              h # l # s' \<Rightarrow>
                (case (hex_value h, hex_value l) of
                   (Some a, Some b) \<Rightarrow> cons_fst (char_of (16 * a + b)) (unescape q s')
                 | _ \<Rightarrow> None)
            | _ \<Rightarrow> None)
         else cons_fst c (unescape q (d # s)))
      else cons_fst c (unescape q (d # s)))"

definition read_literal :: "string \<Rightarrow> (string \<times> string) option" where
  "read_literal s =
     (case s of [] \<Rightarrow> None | q # r \<Rightarrow> if q = CHR 0x27 \<or> q = CHR 0x22 then unescape q r else None)"

fun read_lines :: "string list \<Rightarrow> string list option" where
  "read_lines [] = Some []"
| "read_lines (l # ls) =
     (if take 4 l = ''    '' then
        (case read_literal (drop 4 l) of
           Some (x, rest) \<Rightarrow> if rest = '','' then map_option ((#) x) (read_lines ls) else None
         | None \<Rightarrow> None)
      else None)"

lemma hex_value_digit: "n < 16 \<Longrightarrow> hex_value (hex_digit n) = Some n"
proof -
  have "list_all (\<lambda>n. hex_value (hex_digit n) = Some n) [0..<16]" by code_simp
  then show "n < 16 \<Longrightarrow> hex_value (hex_digit n) = Some n" by (simp add: list_all_iff)
qed

lemma is_printable_special: "is_printable c \<Longrightarrow> c \<noteq> CHR 0x0A"
  by (auto simp: is_printable_def in_ranges_def)

lemma unescape_escape:
  assumes q: "q = CHR 0x27 \<or> q = CHR 0x22" and s: "s \<noteq> []"
  shows "unescape q (escape q c @ s) = cons_fst c (unescape q s)"
proof -
  obtain d t where s': "s = d # t" using s by (cases s) auto
  have c16: "code c div 16 < 16" "code c mod 16 < 16" "char_of (16 * (code c div 16) + code c mod 16) = c"
    using nat_of_char_less_256 [of c] by (simp_all add: less_mult_imp_div_less)
  have q': "q \<noteq> CHR 0x5C" "q \<noteq> CHR ''x''" using q by auto
  show ?thesis
  proof (cases "c = q \<or> c = CHR 0x5C \<or> c = CHR 0x09 \<or> c = CHR 0x0A \<or> c = CHR 0x0D")
    case True
    then show ?thesis using q by (auto simp: escape_def s')
  next
    case False
    then show ?thesis
      using q' c16 is_printable_special [of c] by (simp add: escape_def s' hex_value_digit)
  qed
qed

lemma unescape_repr:
  assumes q: "q = CHR 0x27 \<or> q = CHR 0x22"
  shows "unescape q (concat (map (escape q) s) @ q # rest) = Some (s, rest)"
proof (induction s)
  case Nil
  show ?case by (cases rest) simp_all
next
  case (Cons c s)
  then show ?case
    using unescape_escape [OF q, of "concat (map (escape q) s) @ q # rest" c] by (simp add: cons_fst_def)
qed

lemma read_literal_repr: "read_literal (repr_str s @ rest) = Some (s, rest)"
proof -
  have q: "quote_of s = CHR 0x27 \<or> quote_of s = CHR 0x22" by (simp add: quote_of_def)
  show ?thesis using unescape_repr [OF q, of s rest] q by (auto simp: read_literal_def repr_str_def)
qed

lemma escape_no_newline: "CHR 0x0A \<notin> set (escape q c)" if "q \<noteq> CHR 0x0A"
proof -
  have hd: "CHR 0x0A \<noteq> hex_digit n" if "n < 16" for n
  proof -
    have "list_all (\<lambda>n. CHR 0x0A \<noteq> hex_digit n) [0..<16]" by code_simp
    with that show ?thesis by (simp add: list_all_iff)
  qed
  have "code c div 16 < 16" "code c mod 16 < 16"
    using nat_of_char_less_256 [of c] by (simp_all add: less_mult_imp_div_less)
  note this [THEN hd]
  with that is_printable_special [of c] show ?thesis by (simp add: escape_def) blast
qed

lemma repr_no_newline: "CHR 0x0A \<notin> set (repr_str s)"
proof -
  have "quote_of s \<noteq> CHR 0x0A" by (simp add: quote_of_def)
  with escape_no_newline [OF this] show ?thesis by (simp add: repr_str_def)
qed

lemma split_on_absent: "sep \<notin> set w \<Longrightarrow> split_on sep w = [w]"
  by (induction w) auto

lemma split_on_append: "sep \<notin> set w \<Longrightarrow> split_on sep (w @ sep # s) = w # split_on sep s"
  by (induction w) (auto split: list.split)

lemma split_join:
  "ws \<noteq> [] \<Longrightarrow> \<forall>w\<in>set ws. sep \<notin> set w \<Longrightarrow> split_on sep (join_with [sep] ws) = ws"
proof (induction ws rule: induct_list012)
  case (2 w)
  then show ?case by (simp add: split_on_absent)
next
  case (3 w w' ws)
  then show ?case by (simp add: split_on_append del: split_on.simps)
qed simp



end
