(* ===== verification/Lsm.thy ===== *)
theory Lsm
  imports Proto Prelude
begin

text \<open>
  The storage engine of the meta store, which the processor writes and the other services read
  through gRPC: the conflict resolution of \<open>metastore/vclock.go\<close> and the log-structured merge tree
  of \<open>metastore/lsm.go\<close> with its write-ahead log, memtable, tables and entry cache. A disk
  operation that fails is a parameter of the step; the size of an encoded entry is a parameter.
  Counters are unbounded here; they count events, far below 2^63.
\<close>

section \<open>Conflict resolution\<close>

definition vc_total :: "vector_clock \<Rightarrow> int" where
  "vc_total c = sum_list (map snd c)"

definition vc_dominates :: "vector_clock \<Rightarrow> vector_clock \<Rightarrow> bool" where
  "vc_dominates a b = list_all (\<lambda>(node, bv). \<not> dict_get a node 0 < bv) b"

definition newer :: "stat_entry \<Rightarrow> stat_entry \<Rightarrow> stat_entry" where
  "newer a b =
     (let a_dom = vc_dominates (se_clock a) (se_clock b); b_dom = vc_dominates (se_clock b) (se_clock a) in
      if a_dom \<and> \<not> b_dom then a
      else if b_dom \<and> \<not> a_dom then b
      else let sa = vc_total (se_clock a); sb = vc_total (se_clock b) in
        if sa \<noteq> sb then (if sa > sb then a else b)
        else if se_sample_size a \<ge> se_sample_size b then a else b)"

definition pick_newer :: "stat_entry option \<Rightarrow> stat_entry option \<Rightarrow> stat_entry option" where
  "pick_newer a b =
     (case a of None \<Rightarrow> b | Some x \<Rightarrow> (case b of None \<Rightarrow> a | Some y \<Rightarrow> Some (newer x y)))"

definition store_key :: "stat_entry \<Rightarrow> string" where
  "store_key e = se_entity_id e @ '':'' @ se_patch e @ '':'' @ se_tier e @ '':'' @ se_region e"

section \<open>Memtable\<close>

record memtable =
  mt_data :: "(string, stat_entry) dict"
  mt_size :: int

definition new_memtable :: memtable where
  "new_memtable = \<lparr>mt_data = [], mt_size = 0\<rparr>"

definition mem_put :: "(stat_entry \<Rightarrow> int) \<Rightarrow> string \<Rightarrow> stat_entry \<Rightarrow> memtable \<Rightarrow> memtable" where
  "mem_put psize key e m =
     (case map_of (mt_data m) key of
        Some old \<Rightarrow>
          (let w = newer old e
           in \<lparr>mt_data = AList.update key w (mt_data m), mt_size = mt_size m + (psize w - psize old)\<rparr>)
      | None \<Rightarrow> \<lparr>mt_data = AList.update key e (mt_data m), mt_size = mt_size m + int (length key) + psize e\<rparr>)"

definition sorted_entries :: "memtable \<Rightarrow> stat_entry list" where
  "sorted_entries m = map snd (sort_key fst (mt_data m))"

section \<open>Tables\<close>

text \<open>A table: keys with entries, in the order of the keys.\<close>

type_synonym sstable = "(string \<times> stat_entry) list"

definition write_sstable :: "stat_entry list \<Rightarrow> sstable" where
  "write_sstable es = map (\<lambda>e. (store_key e, e)) (sort_key store_key es)"

definition table_scan :: "(stat_entry \<Rightarrow> bool) \<Rightarrow> sstable \<Rightarrow> stat_entry list" where
  "table_scan P t = filter P (map snd t)"

section \<open>The tree\<close>

record lsm =
  l_mem :: memtable
  l_levels :: "sstable list list"
  l_wal :: "(string \<times> stat_entry) list"
  l_cache :: "(string, stat_entry) dict" \<comment> \<open>most recently used first\<close>

definition new_lsm :: lsm where
  "new_lsm = \<lparr>l_mem = new_memtable, l_levels = [[]], l_wal = [], l_cache = []\<rparr>"

text \<open>Which disk operations of a step succeed.\<close>

record disk =
  wal_ok :: bool
  table_ok :: bool
  rotate_ok :: bool
  merge_ok :: bool

definition MEM_MAX :: int where "MEM_MAX = 64 * 1024 * 1024"
definition L0_COMPACT :: nat where "L0_COMPACT = 4"
definition CACHE_CAPACITY :: nat where "CACHE_CAPACITY = 4096"

definition merge_entry :: "stat_entry \<Rightarrow> (string, stat_entry) dict \<Rightarrow> (string, stat_entry) dict" where
  "merge_entry e d =
     AList.update (store_key e) (case map_of d (store_key e) of None \<Rightarrow> e | Some x \<Rightarrow> newer x e) d"

definition level :: "nat \<Rightarrow> sstable list list \<Rightarrow> sstable list" where
  "level i ls = (if i < length ls then ls ! i else [])"

definition set_level :: "nat \<Rightarrow> sstable list \<Rightarrow> sstable list list \<Rightarrow> sstable list list" where
  "set_level i ts ls = (ls @ replicate (Suc i - length ls) [])[i := ts]"

text \<open>
  Merging level 0 into level 1. The code would go on with the next level when the merged level
  held more than four tables; it holds one.
\<close>

definition compact :: "disk \<Rightarrow> lsm \<Rightarrow> bool \<times> lsm" where
  "compact io st =
     (let sources = level 0 (l_levels st) @ level 1 (l_levels st) in
      if sources = [] then (True, st)
      else if \<not> merge_ok io then (False, st)
      else
        let merged = fold merge_entry (concat (map (table_scan (\<lambda>_. True)) sources)) []
        in (True, st\<lparr>l_levels := set_level 1 [write_sstable (map snd merged)] (set_level 0 [] (l_levels st))\<rparr>))"

definition flush_locked :: "disk \<Rightarrow> lsm \<Rightarrow> bool \<times> lsm" where
  "flush_locked io st =
     (if mt_data (l_mem st) = [] then (True, st)
      else if \<not> table_ok io then (False, st)
      else
        let t = write_sstable (sorted_entries (l_mem st));
            st = st\<lparr>l_mem := new_memtable, l_levels := set_level 0 (level 0 (l_levels st) @ [t]) (l_levels st)\<rparr>
        in if \<not> rotate_ok io then (False, st)
           else let st = st\<lparr>l_wal := []\<rparr>
                in if length (level 0 (l_levels st)) > L0_COMPACT then compact io st else (True, st))"

definition cache_remove :: "string \<Rightarrow> (string, 'v) dict \<Rightarrow> (string, 'v) dict" where
  "cache_remove key c = filter (\<lambda>(k, v). k \<noteq> key) c"

definition cache_put :: "string \<Rightarrow> 'v \<Rightarrow> (string, 'v) dict \<Rightarrow> (string, 'v) dict" where
  "cache_put key v c = take CACHE_CAPACITY ((key, v) # cache_remove key c)"

definition lsm_write :: "(stat_entry \<Rightarrow> int) \<Rightarrow> disk \<Rightarrow> stat_entry \<Rightarrow> lsm \<Rightarrow> bool \<times> lsm" where
  "lsm_write psize io e st =
     (if \<not> wal_ok io then (False, st)
      else
        let key = store_key e;
            st = st\<lparr>l_wal := l_wal st @ [(key, e)], l_mem := mem_put psize key e (l_mem st),
              l_cache := cache_remove key (l_cache st)\<rparr>
        in if mt_size (l_mem st) > MEM_MAX then flush_locked io st else (True, st))"

text \<open>In level 0 every table is asked, from the last on; in the others the first hit ends the search.\<close>

definition read_level :: "nat \<Rightarrow> string \<Rightarrow> sstable list \<Rightarrow> stat_entry option \<Rightarrow> stat_entry option" where
  "read_level i key ts best =
     (let hits = List.map_filter (\<lambda>t. map_of t key) (rev ts)
      in fold (\<lambda>e b. pick_newer b (Some e)) (if i = 0 then hits else take 1 hits) best)"

definition lsm_find :: "string \<Rightarrow> lsm \<Rightarrow> stat_entry option" where
  "lsm_find key st =
     fold (\<lambda>(i, ts). read_level i key ts) (enumerate 0 (l_levels st)) (map_of (mt_data (l_mem st)) key)"

definition lsm_read :: "string \<Rightarrow> lsm \<Rightarrow> stat_entry option \<times> lsm" where
  "lsm_read key st =
     (case map_of (l_cache st) key of
        Some e \<Rightarrow> (Some e, st\<lparr>l_cache := (key, e) # cache_remove key (l_cache st)\<rparr>)
      | None \<Rightarrow>
          (case lsm_find key st of
             None \<Rightarrow> (None, st)
           | Some e \<Rightarrow> (Some e, st\<lparr>l_cache := cache_put key e (l_cache st)\<rparr>)))"

definition lsm_scan :: "(stat_entry \<Rightarrow> bool) \<Rightarrow> lsm \<Rightarrow> stat_entry list" where
  "lsm_scan P st =
     map snd (fold merge_entry (filter P (map snd (mt_data (l_mem st)))
       @ concat (map (table_scan P) (concat (l_levels st)))) [])"

text \<open>A restart after a crash: the tables are reopened and the log is replayed.\<close>

definition reopen :: "(stat_entry \<Rightarrow> int) \<Rightarrow> lsm \<Rightarrow> lsm" where
  "reopen psize st =
     \<lparr>l_mem = fold (\<lambda>(key, e). mem_put psize key e) (l_wal st) new_memtable, l_levels = l_levels st, l_wal = l_wal st,
      l_cache = []\<rparr>"

section \<open>The order behind the conflict resolution\<close>

definition good_clock :: "vector_clock \<Rightarrow> bool" where
  "good_clock c \<longleftrightarrow> wf_clock c \<and> list_all (\<lambda>(k, v). 0 \<le> v) c"

definition entry_rank :: "stat_entry \<Rightarrow> int \<times> int" where
  "entry_rank e = (vc_total (se_clock e), se_sample_size e)"

lemma total_sum:
  assumes "wf_clock c" "finite K" "fst ` set c \<subseteq> K"
  shows "vc_total c = (\<Sum>k\<in>K. dict_get c k 0)"
proof -
  have d: "distinct (map fst c)" using assms(1) by (simp add: wf_clock_def)
  then have get: "dict_get c (fst x) 0 = snd x" if "x \<in> set c" for x
    using that by (cases x) (simp add: dict_get_eq_of_mem)
  have "(\<Sum>k\<in>K. dict_get c k 0) = (\<Sum>k\<in>fst ` set c. dict_get c k 0)"
    using assms(2,3) by (intro sum.mono_neutral_right) (auto simp: dict_get_absent)
  also have "\<dots> = (\<Sum>x\<in>set c. dict_get c (fst x) 0)"
    using d by (simp add: sum.reindex distinct_map)
  also have "\<dots> = (\<Sum>x\<in>set c. snd x)" by (rule sum.cong [OF refl get])
  also have "\<dots> = vc_total c"
    unfolding vc_total_def using d by (subst sum_list_distinct_conv_sum_set [symmetric]) (simp_all add: distinct_map)
  finally show ?thesis by simp
qed

lemma good_clock_get: "good_clock c \<Longrightarrow> 0 \<le> dict_get c k 0"
proof -
  assume g: "good_clock c"
  show "0 \<le> dict_get c k 0"
  proof (cases "map_of c k")
    case (Some v)
    from map_of_SomeD [OF this] g show ?thesis by (auto simp: good_clock_def list_all_iff dict_get_def Some)
  qed (simp add: dict_get_def)
qed

lemma vc_dominates_iff:
  assumes "good_clock a" "good_clock b"
  shows "vc_dominates a b \<longleftrightarrow> (\<forall>k. dict_get b k 0 \<le> dict_get a k 0)"
proof
  assume dom: "vc_dominates a b"
  show "\<forall>k. dict_get b k 0 \<le> dict_get a k 0"
  proof
    fix k
    show "dict_get b k 0 \<le> dict_get a k 0"
    proof (cases "map_of b k")
      case None
      then show ?thesis using good_clock_get [OF assms(1)] by (simp add: dict_get_def)
    next
      case (Some v)
      from map_of_SomeD [OF Some] dom show ?thesis by (auto simp: vc_dominates_def list_all_iff dict_get_def Some)
    qed
  qed
next
  assume le: "\<forall>k. dict_get b k 0 \<le> dict_get a k 0"
  have "dict_get b k 0 = v" if "(k, v) \<in> set b" for k v
    using that assms(2) by (simp add: good_clock_def wf_clock_def dict_get_eq_of_mem)
  then have "v \<le> dict_get a k 0" if "(k, v) \<in> set b" for k v using le that by metis
  then show "vc_dominates a b" by (auto simp: vc_dominates_def list_all_iff not_less)
qed

lemma total_mono:
  assumes "good_clock a" "good_clock b" "\<forall>k. dict_get b k 0 \<le> dict_get a k 0"
  shows "vc_total b \<le> vc_total a" and "dict_get b k 0 < dict_get a k 0 \<Longrightarrow> vc_total b < vc_total a"
proof -
  let ?K = "insert k (fst ` set a \<union> fst ` set b)"
  have t: "vc_total a = (\<Sum>k\<in>?K. dict_get a k 0)" "vc_total b = (\<Sum>k\<in>?K. dict_get b k 0)"
    using assms(1,2) by (auto intro!: total_sum simp: good_clock_def)
  show "vc_total b \<le> vc_total a" unfolding t using assms(3) by (intro sum_mono) blast
  show "vc_total b < vc_total a" if "dict_get b k 0 < dict_get a k 0"
    unfolding t using assms(3) that by (intro sum_strict_mono_ex1) auto
qed

text \<open>On clocks without negative counters the case analysis compares (total, sample size).\<close>

lemma newer_rank:
  assumes "good_clock (se_clock a)" "good_clock (se_clock b)"
  shows "newer a b = (if entry_rank b \<le> entry_rank a then a else b)"
proof -
  note dom = vc_dominates_iff [OF assms] vc_dominates_iff [OF assms(2,1)]
  have strict: "vc_total (se_clock y) < vc_total (se_clock x)"
    if "good_clock (se_clock x)" "good_clock (se_clock y)" "\<forall>k. dict_get (se_clock y) k 0 \<le> dict_get (se_clock x) k 0"
      "\<not> (\<forall>k. dict_get (se_clock x) k 0 \<le> dict_get (se_clock y) k 0)" for x y
    using that total_mono(2) [OF that(1-3)] by (meson not_le)
  consider "vc_dominates (se_clock a) (se_clock b)" "\<not> vc_dominates (se_clock b) (se_clock a)"
    | "vc_dominates (se_clock b) (se_clock a)" "\<not> vc_dominates (se_clock a) (se_clock b)"
    | "vc_dominates (se_clock a) (se_clock b) = vc_dominates (se_clock b) (se_clock a)" by blast
  then show ?thesis
  proof cases
    case 1
    then have "vc_total (se_clock b) < vc_total (se_clock a)" using strict [OF assms] dom by blast
    with 1 show ?thesis by (simp add: newer_def entry_rank_def)
  next
    case 2
    then have "vc_total (se_clock a) < vc_total (se_clock b)" using strict [OF assms(2,1)] dom by blast
    with 2 show ?thesis by (simp add: newer_def entry_rank_def)
  next
    case 3
    then show ?thesis by (auto simp: newer_def entry_rank_def Let_def)
  qed
qed

section \<open>The best entry for a key\<close>

text \<open>What the best of a set of entries is, as an option: none of the empty set.\<close>

definition best_in :: "stat_entry set \<Rightarrow> stat_entry option \<Rightarrow> bool" where
  "best_in S r \<longleftrightarrow>
     (case r of None \<Rightarrow> S = {} | Some e \<Rightarrow> e \<in> S \<and> (\<forall>e'\<in>S. entry_rank e' \<le> entry_rank e))"

definition all_good :: "stat_entry set \<Rightarrow> bool" where
  "all_good S \<longleftrightarrow> (\<forall>e\<in>S. good_clock (se_clock e))"

lemma best_in_pick:
  assumes "best_in S r" "all_good (insert e S)"
  shows "best_in (insert e S) (pick_newer r (Some e))"
proof (cases r)
  case None
  with assms(1) show ?thesis by (simp add: best_in_def pick_newer_def)
next
  case (Some x)
  with assms have x: "x \<in> S" "\<forall>e'\<in>S. entry_rank e' \<le> entry_rank x" "good_clock (se_clock x)" "good_clock (se_clock e)"
    by (auto simp: best_in_def all_good_def)
  show ?thesis
  proof (cases "entry_rank e \<le> entry_rank x")
    case True
    then have "pick_newer r (Some e) = Some x" by (simp add: Some pick_newer_def newer_rank [OF x(3,4)])
    then show ?thesis using x True by (simp add: best_in_def)
  next
    case False
    then have p: "pick_newer r (Some e) = Some e" by (simp add: Some pick_newer_def newer_rank [OF x(3,4)])
    have "entry_rank e' \<le> entry_rank e" if "e' \<in> S" for e'
      using x(2) that False by (meson linear order_trans)
    then show ?thesis unfolding p by (simp add: best_in_def)
  qed
qed

lemma best_in_fold:
  assumes "best_in S r" "all_good (set es \<union> S)"
  shows "best_in (set es \<union> S) (fold (\<lambda>e b. pick_newer b (Some e)) es r)"
  using assms
proof (induction es arbitrary: S r)
  case (Cons e es)
  have "all_good (insert e S)" using Cons.prems(2) by (simp add: all_good_def)
  from Cons.IH [OF best_in_pick [OF Cons.prems(1) this]] Cons.prems(2)
  show ?case by (simp add: all_good_def)
qed simp

lemma best_in_unique:
  assumes "best_in S (Some a)" "best_in S (Some b)" "\<forall>a\<in>S. \<forall>b\<in>S. entry_rank a = entry_rank b \<longrightarrow> a = b"
  shows "a = b"
proof -
  have "entry_rank a \<le> entry_rank b" "entry_rank b \<le> entry_rank a" using assms(1,2) by (simp_all add: best_in_def)
  then have "entry_rank a = entry_rank b" by (rule antisym)
  with assms show ?thesis by (simp add: best_in_def)
qed

text \<open>A part that holds, for every entry, one at least as good has the same best entry.\<close>

lemma best_in_covers:
  assumes b: "best_in S r" and sub: "S \<subseteq> W" and cov: "\<forall>e\<in>W. \<exists>e'\<in>S. entry_rank e \<le> entry_rank e'"
  shows "best_in W r"
proof (cases r)
  case None
  with b cov show ?thesis by (auto simp: best_in_def)
next
  case (Some x)
  with b have x: "x \<in> S" "\<forall>e'\<in>S. entry_rank e' \<le> entry_rank x" by (simp_all add: best_in_def)
  have "entry_rank e \<le> entry_rank x" if "e \<in> W" for e
    using cov that x(2) by (meson order_trans)
  with x(1) sub show ?thesis by (auto simp: best_in_def Some)
qed

definition with_key :: "string \<Rightarrow> stat_entry set \<Rightarrow> stat_entry set" where
  "with_key k S = {e \<in> S. store_key e = k}"

lemma merge_entry_get:
  "map_of (merge_entry e d) k = (if k = store_key e then pick_newer (map_of d k) (Some e) else map_of d k)"
  by (auto simp: merge_entry_def pick_newer_def split: option.split)

lemma merge_entries_get:
  "map_of (fold merge_entry es d) k
     = fold (\<lambda>e b. pick_newer b (Some e)) (filter (\<lambda>e. store_key e = k) es) (map_of d k)"
  by (induction es arbitrary: d) (simp_all add: merge_entry_get)

lemma mem_put_merge: "mt_data (mem_put psize (store_key e) e m) = merge_entry e (mt_data m)"
  by (simp add: mem_put_def merge_entry_def Let_def split: option.split)

text \<open>A dictionary of entries under their own keys.\<close>

definition keyed :: "(string \<times> stat_entry) list \<Rightarrow> bool" where
  "keyed d \<longleftrightarrow> distinct (map fst d) \<and> list_all (\<lambda>(k, e). k = store_key e) d"

lemma merge_keys: "fst ` set (merge_entry e d) = insert (store_key e) (fst ` set d)"
  by (simp add: merge_entry_def)

lemma keyed_mem: "keyed d \<Longrightarrow> e \<in> snd ` set d \<longleftrightarrow> map_of d (store_key e) = Some e"
  by (force simp: keyed_def list_all_iff map_of_eq_Some_iff)

lemma keyed_get: "keyed d \<Longrightarrow> map_of d k = Some e \<Longrightarrow> store_key e = k \<and> e \<in> snd ` set d"
  by (force simp: keyed_def list_all_iff dest: map_of_SomeD)

lemma keyed_best: "keyed d \<Longrightarrow> best_in (with_key k (snd ` set d)) (map_of d k)"
proof (cases "map_of d k")
  case None
  assume "keyed d"
  with None show ?thesis by (auto simp: best_in_def with_key_def keyed_mem)
next
  case (Some e)
  assume k: "keyed d"
  from keyed_get [OF k Some] have "with_key k (snd ` set d) = {e}"
    using Some by (auto simp: with_key_def keyed_mem [OF k])
  then show ?thesis by (simp add: Some best_in_def)
qed

lemma keyed_update: "keyed d \<Longrightarrow> store_key v = q \<Longrightarrow> keyed (AList.update q v d)"
proof -
  assume k: "keyed d" and v: "store_key v = q"
  have "set (AList.update q v d) \<subseteq> insert (q, v) (set d)" by (induction d) auto
  with k v have "list_all (\<lambda>(k, e). k = store_key e) (AList.update q v d)" by (auto simp: keyed_def list_all_iff)
  with k show ?thesis by (simp add: keyed_def distinct_update)
qed

lemma keyed_merge: "keyed d \<Longrightarrow> keyed (merge_entry e d)"
proof -
  assume k: "keyed d"
  have "store_key (newer x e) = store_key e" if "map_of d (store_key e) = Some x" for x
    using keyed_get [OF k that] by (simp add: newer_def Let_def)
  with k show "keyed (merge_entry e d)" unfolding merge_entry_def by (auto intro!: keyed_update split: option.split)
qed

lemma keyed_merges: "keyed d \<Longrightarrow> keyed (fold merge_entry es d)"
  by (induction es arbitrary: d) (simp_all add: keyed_merge)

lemma keyed_Nil: "keyed []"
  by (simp add: keyed_def)

text \<open>What merging a list of entries keeps: only entries of the list, and the best for every key.\<close>

lemma merged_best:
  assumes "all_good (set es)"
  shows "best_in (with_key k (set es)) (map_of (fold merge_entry es []) k)"
proof -
  have "best_in {} (None :: stat_entry option)" by (simp add: best_in_def)
  from best_in_fold [OF this, of "filter (\<lambda>e. store_key e = k) es"] assms
  show ?thesis by (simp add: merge_entries_get with_key_def all_good_def)
qed

lemma best_in_mem: "best_in S (Some e) \<Longrightarrow> e \<in> S"
  by (simp add: best_in_def)

lemma best_in_exists:
  assumes "best_in S r" "e \<in> S"
  shows "\<exists>x\<in>S. r = Some x \<and> entry_rank e \<le> entry_rank x"
  using assms by (cases r) (auto simp: best_in_def)

lemma merged_covers:
  assumes "all_good (set es)"
  shows "snd ` set (fold merge_entry es []) \<subseteq> set es"
    and "e \<in> set es \<Longrightarrow> \<exists>e'\<in>snd ` set (fold merge_entry es []). store_key e' = store_key e \<and> entry_rank e \<le> entry_rank e'"
proof -
  let ?d = "fold merge_entry es []"
  have k: "keyed ?d" by (rule keyed_merges [OF keyed_Nil])
  show "snd ` set ?d \<subseteq> set es"
  proof
    fix e assume "e \<in> snd ` set ?d"
    then have "map_of ?d (store_key e) = Some e" using keyed_mem [OF k] by blast
    with merged_best [OF assms, of "store_key e"] show "e \<in> set es" by (auto simp: with_key_def dest!: best_in_mem)
  qed
  assume e: "e \<in> set es"
  then obtain x where "map_of ?d (store_key e) = Some x" "entry_rank e \<le> entry_rank x"
    using best_in_exists [OF merged_best [OF assms, of "store_key e"], of e] by (auto simp: with_key_def)
  with keyed_get [OF k] show "\<exists>e'\<in>snd ` set ?d. store_key e' = store_key e \<and> entry_rank e \<le> entry_rank e'"
    by blast
qed

section \<open>The contents of a tree\<close>

text \<open>\<open>S\<close> is a part of \<open>W\<close> that has, for each entry of \<open>W\<close>, one with its key that is at least as good.\<close>

definition covers :: "stat_entry set \<Rightarrow> stat_entry set \<Rightarrow> bool" where
  "covers S W \<longleftrightarrow> S \<subseteq> W \<and> (\<forall>e\<in>W. \<exists>e'\<in>S. store_key e' = store_key e \<and> entry_rank e \<le> entry_rank e')"

lemma covers_refl [simp]: "covers S S"
  by (auto simp: covers_def)

lemma covers_trans: "covers S T \<Longrightarrow> covers T W \<Longrightarrow> covers S W"
proof -
  assume st: "covers S T" and tw: "covers T W"
  have "\<exists>e''\<in>S. store_key e'' = store_key e \<and> entry_rank e \<le> entry_rank e''" if e: "e \<in> W" for e
  proof -
    obtain e' where e': "e' \<in> T" "store_key e' = store_key e" "entry_rank e \<le> entry_rank e'"
      using tw e unfolding covers_def by blast
    obtain e'' where "e'' \<in> S" "store_key e'' = store_key e'" "entry_rank e' \<le> entry_rank e''"
      using st e'(1) unfolding covers_def by blast
    with e' show ?thesis using order_trans by metis
  qed
  moreover have "S \<subseteq> W" using st tw by (auto simp: covers_def)
  ultimately show "covers S W" by (simp add: covers_def)
qed

lemma covers_Un: "covers S S' \<Longrightarrow> covers T T' \<Longrightarrow> covers (S \<union> T) (S' \<union> T')"
  unfolding covers_def by blast

lemma covers_mono: "covers S W \<Longrightarrow> S \<subseteq> T \<Longrightarrow> T \<subseteq> W \<Longrightarrow> covers T W"
  unfolding covers_def by blast

lemma covers_insert: "covers S W \<Longrightarrow> covers (insert e S) (insert e W)"
  unfolding covers_def by blast

lemma covers_best:
  assumes "covers S W" "best_in (with_key k S) r"
  shows "best_in (with_key k W) r"
proof (rule best_in_covers [OF assms(2)])
  show "with_key k S \<subseteq> with_key k W" using assms(1) by (auto simp: covers_def with_key_def)
  show "\<forall>e\<in>with_key k W. \<exists>e'\<in>with_key k S. entry_rank e \<le> entry_rank e'"
    using assms(1) unfolding covers_def with_key_def by (metis (mono_tags, lifting) mem_Collect_eq)
qed

lemma covers_merged: "all_good (set es) \<Longrightarrow> covers (snd ` set (fold merge_entry es [])) (set es)"
  unfolding covers_def using merged_covers by blast

definition mem_set :: "lsm \<Rightarrow> stat_entry set" where
  "mem_set st = snd ` set (mt_data (l_mem st))"

definition tables_set :: "sstable list \<Rightarrow> stat_entry set" where
  "tables_set ts = snd ` set (concat ts)"

definition table_set :: "lsm \<Rightarrow> stat_entry set" where
  "table_set st = tables_set (concat (l_levels st))"

definition lsm_shape :: "lsm \<Rightarrow> bool" where
  "lsm_shape st \<longleftrightarrow>
     keyed (mt_data (l_mem st)) \<and> (\<forall>t\<in>set (concat (l_levels st)). keyed t)
     \<and> l_levels st \<noteq> [] \<and> (\<forall>ts\<in>set (tl (l_levels st)). length ts \<le> 1)
     \<and> list_all (\<lambda>(k, e). k = store_key e) (l_wal st)"

definition lsm_inv :: "stat_entry set \<Rightarrow> lsm \<Rightarrow> bool" where
  "lsm_inv W st \<longleftrightarrow>
     lsm_shape st \<and> covers (mem_set st \<union> table_set st) W \<and> covers (table_set st \<union> snd ` set (l_wal st)) W
     \<and> list_all (\<lambda>(k, e). best_in (with_key k W) (Some e)) (l_cache st)"

lemma tables_set_simps [simp]:
  "tables_set [] = {}" "tables_set (t # ts) = snd ` set t \<union> tables_set ts" "tables_set (ts @ us) = tables_set ts \<union> tables_set us"
  by (auto simp: tables_set_def)

lemma write_sstable_keyed:
  assumes "distinct (map store_key es)"
  shows "keyed (write_sstable es)" and "snd ` set (write_sstable es) = set es"
proof -
  have "mset (map store_key (sort_key store_key es)) = mset (map store_key es)" by simp
  then have "distinct (map store_key (sort_key store_key es))" using assms by (metis mset_eq_imp_distinct_iff)
  then show "keyed (write_sstable es)" by (simp add: keyed_def write_sstable_def list_all_iff comp_def)
  show "snd ` set (write_sstable es) = set es" by (force simp: write_sstable_def)
qed

lemma keyed_keys: "keyed d \<Longrightarrow> map store_key (map snd d) = map fst d"
  by (induction d) (auto simp: keyed_def)

lemma sorted_entries_keys:
  assumes "keyed (mt_data m)"
  shows "distinct (map store_key (sorted_entries m))" and "set (sorted_entries m) = snd ` set (mt_data m)"
proof -
  have "mset (map fst (sort_key fst (mt_data m))) = mset (map fst (mt_data m))" by simp
  then have "distinct (map fst (sort_key fst (mt_data m)))"
    using assms unfolding keyed_def by (metis mset_eq_imp_distinct_iff)
  then have "keyed (sort_key fst (mt_data m))" using assms by (simp add: keyed_def list_all_iff)
  from keyed_keys [OF this] this show "distinct (map store_key (sorted_entries m))"
    by (simp only: sorted_entries_def keyed_def)
  show "set (sorted_entries m) = snd ` set (mt_data m)" by (simp add: sorted_entries_def)
qed

section \<open>Every operation keeps the invariant\<close>

lemma set_levels:
  assumes "ls \<noteq> []"
  shows "set (concat ls) = set (level 0 ls) \<union> set (level 1 ls) \<union> set (concat (drop 2 ls))"
    and "set (concat (set_level 0 (level 0 ls @ [t]) ls)) = insert t (set (concat ls))"
    and "set (concat (set_level 1 us (set_level 0 [] ls))) = set us \<union> set (concat (drop 2 ls))"
    and "set_level 0 ts ls \<noteq> [] \<and> tl (set_level 0 ts ls) = tl ls"
    and "set_level 1 us (set_level 0 [] ls) \<noteq> []
      \<and> set (tl (set_level 1 us (set_level 0 [] ls))) = insert us (set (drop 2 ls))"
proof -
  obtain a r where ls: "ls = a # r" using assms by (cases ls) auto
  show "set (concat ls) = set (level 0 ls) \<union> set (level 1 ls) \<union> set (concat (drop 2 ls))"
    by (cases r) (auto simp: ls level_def)
  show "set (concat (set_level 0 (level 0 ls @ [t]) ls)) = insert t (set (concat ls))"
    by (auto simp: ls level_def set_level_def)
  show "set (concat (set_level 1 us (set_level 0 [] ls))) = set us \<union> set (concat (drop 2 ls))"
    by (cases r) (auto simp: ls set_level_def)
  show "set_level 0 ts ls \<noteq> [] \<and> tl (set_level 0 ts ls) = tl ls" by (simp add: ls set_level_def)
  show "set_level 1 us (set_level 0 [] ls) \<noteq> []
      \<and> set (tl (set_level 1 us (set_level 0 [] ls))) = insert us (set (drop 2 ls))"
    by (cases r) (auto simp: ls set_level_def)
qed

lemma tables_set_union: "set ts = set us \<Longrightarrow> tables_set ts = tables_set us"
  by (auto simp: tables_set_def)

lemma tables_set_Un: "tables_set ts = (\<Union>t\<in>set ts. snd ` set t)"
  by (auto simp: tables_set_def)

lemma lsm_inv_new: "lsm_inv {} new_lsm"
  by (simp add: lsm_inv_def lsm_shape_def new_lsm_def new_memtable_def keyed_Nil mem_set_def table_set_def)

lemma lsm_inv_good: "lsm_inv W st \<Longrightarrow> all_good W \<Longrightarrow> all_good (mem_set st \<union> table_set st)"
  unfolding lsm_inv_def covers_def all_good_def by blast

lemma compacted_shape:
  assumes "lsm_shape st" "keyed t"
  shows "lsm_shape (st\<lparr>l_levels := set_level 1 [t] (set_level 0 [] (l_levels st))\<rparr>)"
proof -
  let ?ls = "l_levels st" and ?new = "set_level 1 [t] (set_level 0 [] (l_levels st))"
  have ne: "?ls \<noteq> []" and lv: "\<forall>ts\<in>set (tl ?ls). length ts \<le> 1" and tk: "\<forall>u\<in>set (concat ?ls). keyed u"
    using assms(1) unfolding lsm_shape_def by blast+
  note sl = set_levels [OF ne]
  have "set (drop 2 ?ls) \<subseteq> set (tl ?ls)" by (cases ?ls) (auto dest: in_set_dropD)
  then have "\<forall>ts\<in>set (tl ?new). length ts \<le> 1" using lv unfolding conjunct2 [OF sl(5)] by auto
  moreover have "\<forall>u\<in>set (concat ?new). keyed u" using tk assms(2) unfolding sl(3) sl(1) by auto
  ultimately show ?thesis using assms(1) conjunct1 [OF sl(5)] unfolding lsm_shape_def by simp
qed

lemma compact_inv:
  assumes inv: "lsm_inv W st" and good: "all_good W"
  shows "lsm_inv W (snd (compact io st))"
proof -
  let ?ls = "l_levels st"
  let ?src = "level 0 ?ls @ level 1 ?ls"
  let ?es = "concat (map (table_scan (\<lambda>_. True)) ?src)"
  let ?m = "fold merge_entry ?es []"
  let ?t = "write_sstable (map snd ?m)"
  let ?new = "set_level 1 [?t] (set_level 0 [] ?ls)"
  show ?thesis
  proof (cases "?src = [] \<or> \<not> merge_ok io")
    case True
    then show ?thesis using inv by (auto simp: compact_def Let_def)
  next
    case False
    then have src: "?src \<noteq> []" "merge_ok io" by blast+
    then have c: "snd (compact io st) = st\<lparr>l_levels := ?new\<rparr>"
      by (simp only: compact_def Let_def if_False not_True_eq_False snd_conv)
    have sh: "lsm_shape st" and ne: "?ls \<noteq> []"
      using inv unfolding lsm_inv_def lsm_shape_def by blast+
    note sl = set_levels [OF ne]
    have es: "set ?es = tables_set ?src" by (force simp: tables_set_def table_scan_def)
    have all: "table_set st = tables_set ?src \<union> tables_set (concat (drop 2 ?ls))"
      unfolding table_set_def tables_set_Un sl(1) by auto
    then have "all_good (set ?es)" using lsm_inv_good [OF inv good] unfolding es by (auto simp: all_good_def)
    note cov = covers_merged [OF this, unfolded es]
    have k: "keyed ?m" by (rule keyed_merges [OF keyed_Nil])
    have "distinct (map store_key (map snd ?m))" unfolding keyed_keys [OF k] using k by (simp add: keyed_def)
    note ws = write_sstable_keyed [OF this]
    have "table_set (st\<lparr>l_levels := ?new\<rparr>) = tables_set (concat ?new)" by (simp add: table_set_def del: concat_append)
    also have "\<dots> = snd ` set ?t \<union> tables_set (concat (drop 2 ?ls))"
      unfolding tables_set_Un sl(3) by simp
    finally have tset: "table_set (st\<lparr>l_levels := ?new\<rparr>) = snd ` set ?m \<union> tables_set (concat (drop 2 ?ls))"
      by (simp only: ws(2) set_map)
    have cv: "covers (table_set (st\<lparr>l_levels := ?new\<rparr>)) (table_set st)"
      unfolding tset all by (intro covers_Un cov covers_refl)
    have "lsm_shape (st\<lparr>l_levels := ?new\<rparr>)" by (rule compacted_shape [OF sh ws(1)])
    moreover have "covers (mem_set st \<union> table_set (st\<lparr>l_levels := ?new\<rparr>)) W"
      using covers_trans [OF covers_Un [OF covers_refl cv]] inv unfolding lsm_inv_def by blast
    moreover have "covers (table_set (st\<lparr>l_levels := ?new\<rparr>) \<union> snd ` set (l_wal st)) W"
      using covers_trans [OF covers_Un [OF cv covers_refl]] inv unfolding lsm_inv_def by blast
    ultimately show ?thesis using inv unfolding c lsm_inv_def by (simp add: mem_set_def)
  qed
qed

lemma flush_locked_inv:
  assumes inv: "lsm_inv W st" and good: "all_good W"
  shows "lsm_inv W (snd (flush_locked io st))"
proof (cases "mt_data (l_mem st) = [] \<or> \<not> table_ok io")
  case True
  then show ?thesis using inv by (auto simp: flush_locked_def)
next
  case False
  let ?t = "write_sstable (sorted_entries (l_mem st))"
  let ?st1 = "st\<lparr>l_mem := new_memtable, l_levels := set_level 0 (level 0 (l_levels st) @ [?t]) (l_levels st)\<rparr>"
  let ?st2 = "?st1\<lparr>l_wal := []\<rparr>"
  have k: "keyed (mt_data (l_mem st))" and ne: "l_levels st \<noteq> []" using inv by (simp_all add: lsm_inv_def lsm_shape_def)
  note ws = write_sstable_keyed [OF sorted_entries_keys(1) [OF k]]
  have t: "snd ` set ?t = mem_set st" using ws(2) sorted_entries_keys(2) [OF k] by (simp add: mem_set_def)
  have "table_set ?st1 = tables_set (concat (set_level 0 (level 0 (l_levels st) @ [?t]) (l_levels st)))"
    by (simp add: table_set_def)
  also have "\<dots> = snd ` set ?t \<union> table_set st"
    unfolding table_set_def tables_set_Un set_levels(2) [OF ne] by simp
  finally have ts: "table_set ?st1 = mem_set st \<union> table_set st" "mem_set ?st1 = {}"
    unfolding t by (simp_all add: mem_set_def new_memtable_def)
  have sh: "lsm_shape ?st1"
    using inv ws(1) set_levels(2) [OF ne] set_levels(4) [OF ne] unfolding lsm_inv_def lsm_shape_def
    by (simp add: new_memtable_def keyed_Nil)
  have c1: "covers (mem_set st \<union> table_set st) W" and c2: "covers (table_set st \<union> snd ` set (l_wal st)) W"
    and cache: "list_all (\<lambda>(k, e). best_in (with_key k W) (Some e)) (l_cache st)"
    using inv by (simp_all add: lsm_inv_def)
  have c3: "covers (mem_set st \<union> table_set st \<union> snd ` set (l_wal st)) W"
    by (rule covers_mono [OF c1]) (use c1 c2 in \<open>auto simp: covers_def\<close>)
  have i1: "lsm_inv W ?st1" using sh c1 c3 cache by (simp add: lsm_inv_def ts)
  have "table_set ?st2 = table_set ?st1" "mem_set ?st2 = mem_set ?st1" by (simp_all add: table_set_def mem_set_def)
  with sh c1 cache ts have i2: "lsm_inv W ?st2" by (simp add: lsm_inv_def lsm_shape_def)
  show ?thesis
    using False i1 i2 compact_inv [OF i2 good] by (simp add: flush_locked_def Let_def)
qed

lemma merge_covers:
  assumes "keyed d" "all_good (insert e (snd ` set d))"
  shows "covers (snd ` set (merge_entry e d)) (insert e (snd ` set d))"
proof -
  let ?m = "merge_entry e d" and ?S = "insert e (snd ` set d)"
  have k: "keyed ?m" by (rule keyed_merge [OF assms(1)])
  have best: "best_in (with_key q ?S) (map_of ?m q)" for q
  proof (cases "q = store_key e")
    case True
    have "with_key q ?S = insert e (with_key q (snd ` set d))" by (auto simp: with_key_def True)
    moreover have "all_good (insert e (with_key q (snd ` set d)))" using assms(2) by (auto simp: all_good_def with_key_def)
    ultimately show ?thesis using best_in_pick [OF keyed_best [OF assms(1)]] by (simp add: merge_entry_get True)
  next
    case False
    then have "with_key q ?S = with_key q (snd ` set d)" by (auto simp: with_key_def)
    then show ?thesis using keyed_best [OF assms(1)] False by (simp add: merge_entry_get)
  qed
  show ?thesis
    unfolding covers_def
  proof (intro conjI subsetI ballI)
    fix x assume "x \<in> snd ` set ?m"
    then have "map_of ?m (store_key x) = Some x" using keyed_mem [OF k] by blast
    with best [of "store_key x"] show "x \<in> ?S" by (auto simp: best_in_def with_key_def)
  next
    fix x assume "x \<in> ?S"
    then have "x \<in> with_key (store_key x) ?S" by (simp add: with_key_def)
    from best_in_exists [OF best this] obtain y where "map_of ?m (store_key x) = Some y" "entry_rank x \<le> entry_rank y" by blast
    with keyed_get [OF k] show "\<exists>y\<in>snd ` set ?m. store_key y = store_key x \<and> entry_rank x \<le> entry_rank y" by blast
  qed
qed

lemma lsm_write_inv:
  assumes inv: "lsm_inv W st" and good: "all_good (insert e W)"
  shows "lsm_inv (if wal_ok io then insert e W else W) (snd (lsm_write psize io e st))"
proof (cases "wal_ok io")
  case False
  then show ?thesis using inv by (simp add: lsm_write_def)
next
  case True
  let ?k = "store_key e"
  let ?st = "st\<lparr>l_wal := l_wal st @ [(?k, e)], l_mem := mem_put psize ?k e (l_mem st), l_cache := cache_remove ?k (l_cache st)\<rparr>"
  have sh: "lsm_shape st" and c1: "covers (mem_set st \<union> table_set st) W" and c2: "covers (table_set st \<union> snd ` set (l_wal st)) W"
    and cache: "list_all (\<lambda>(k, e). best_in (with_key k W) (Some e)) (l_cache st)"
    using inv by (simp_all add: lsm_inv_def)
  have k: "keyed (mt_data (l_mem st))" using sh by (simp add: lsm_shape_def)
  have g: "all_good (insert e (mem_set st))" using good c1 by (auto simp: all_good_def covers_def)
  have ms: "mem_set ?st = snd ` set (merge_entry e (mt_data (l_mem st)))" "table_set ?st = table_set st"
    by (simp_all add: mem_set_def mem_put_merge table_set_def)
  have "covers (mem_set ?st \<union> table_set st) (insert e (mem_set st) \<union> table_set st)"
    unfolding ms using merge_covers [OF k] g by (intro covers_Un) (simp_all add: mem_set_def)
  moreover have "covers (insert e (mem_set st) \<union> table_set st) (insert e W)" using covers_insert [OF c1] by simp
  ultimately have "covers (mem_set ?st \<union> table_set ?st) (insert e W)" unfolding ms(2) by (rule covers_trans)
  moreover have "covers (table_set ?st \<union> snd ` set (l_wal ?st)) (insert e W)"
    unfolding ms(2) using covers_insert [OF c2, of e] by simp
  moreover have "lsm_shape ?st" using sh keyed_merge [OF k] by (simp add: lsm_shape_def mem_put_merge)
  moreover have "list_all (\<lambda>(k, x). best_in (with_key k (insert e W)) (Some x)) (l_cache ?st)"
  proof -
    have "with_key q (insert e W) = with_key q W" if "q \<noteq> ?k" for q using that by (auto simp: with_key_def)
    with cache show ?thesis by (auto simp: list_all_iff cache_remove_def)
  qed
  ultimately have "lsm_inv (insert e W) ?st" by (simp add: lsm_inv_def)
  with flush_locked_inv [OF this good, of io] show ?thesis using True by (simp add: lsm_write_def Let_def)
qed

section \<open>Reading\<close>

lemma set_map_filter_some: "set (List.map_filter f xs) = {y. \<exists>x\<in>set xs. f x = Some y}"
  by (force simp: List.map_filter_def)

lemma length_map_filter: "length (List.map_filter f xs) \<le> length xs"
  by (simp add: List.map_filter_def)

lemma read_level_best:
  assumes "best_in S r" "\<forall>t\<in>set ts. keyed t" "i = 0 \<or> length ts \<le> 1"
    "all_good (with_key key (tables_set ts) \<union> S)"
  shows "best_in (with_key key (tables_set ts) \<union> S) (read_level i key ts r)"
proof -
  let ?hits = "List.map_filter (\<lambda>t. map_of t key) (rev ts)"
  have get: "map_of t key = Some e \<longleftrightarrow> e \<in> snd ` set t \<and> store_key e = key" if "t \<in> set ts" for t e
    using keyed_mem keyed_get assms(2) that by blast
  have hits: "set ?hits = with_key key (tables_set ts)"
    unfolding set_map_filter_some tables_set_Un with_key_def set_rev using get by blast
  have "(if i = 0 then ?hits else take 1 ?hits) = ?hits"
    using assms(3) length_map_filter [of "\<lambda>t. map_of t key" "rev ts"] by auto
  then show ?thesis
    using best_in_fold [OF assms(1), of ?hits] assms(4) unfolding read_level_def Let_def hits by simp
qed

lemma read_levels_best:
  assumes "best_in S r" "\<forall>t\<in>set (concat ls). keyed t" "\<forall>(i, ts)\<in>set (enumerate n ls). i = 0 \<or> length ts \<le> 1"
    "all_good (with_key key (tables_set (concat ls)) \<union> S)"
  shows "best_in (with_key key (tables_set (concat ls)) \<union> S) (fold (\<lambda>(i, ts). read_level i key ts) (enumerate n ls) r)"
  using assms
proof (induction ls arbitrary: n S r)
  case Nil
  then show ?case by (simp add: with_key_def)
next
  case (Cons ts ls)
  let ?S = "with_key key (tables_set ts) \<union> S"
  have w: "with_key key (tables_set (concat (ts # ls))) \<union> S = with_key key (tables_set (concat ls)) \<union> ?S"
    by (auto simp: with_key_def)
  have "best_in ?S (read_level n key ts r)"
    by (rule read_level_best) (use Cons.prems in \<open>auto simp: all_good_def with_key_def\<close>)
  from Cons.IH [OF this, of "Suc n"] Cons.prems show ?case unfolding w by simp
qed

lemma covers_with_key: "covers S W \<Longrightarrow> all_good W \<Longrightarrow> all_good (with_key k S)"
  unfolding covers_def all_good_def with_key_def by blast

lemma lsm_find_best:
  assumes inv: "lsm_inv W st" and good: "all_good W"
  shows "best_in (with_key key W) (lsm_find key st)"
proof -
  have cov: "covers (mem_set st \<union> table_set st) W" and sh: "lsm_shape st" using inv by (simp_all add: lsm_inv_def)
  then have k: "keyed (mt_data (l_mem st))" and tk: "\<forall>t\<in>set (concat (l_levels st)). keyed t"
    and lv: "\<forall>ts\<in>set (tl (l_levels st)). length ts \<le> 1" unfolding lsm_shape_def by blast+
  have w: "with_key key (table_set st) \<union> with_key key (mem_set st) = with_key key (mem_set st \<union> table_set st)"
    by (auto simp: with_key_def)
  have lv': "\<forall>(i, ts)\<in>set (enumerate 0 (l_levels st)). i = 0 \<or> length ts \<le> 1"
    using lv by (cases "l_levels st") (auto simp: in_set_enumerate_eq)
  have "best_in (with_key key (table_set st) \<union> with_key key (mem_set st)) (lsm_find key st)"
    unfolding lsm_find_def table_set_def mem_set_def
    by (rule read_levels_best [OF keyed_best [OF k] tk lv'])
       (use covers_with_key [OF cov good, of key] in \<open>simp add: w [unfolded table_set_def mem_set_def] table_set_def mem_set_def\<close>)
  then show ?thesis unfolding w by (rule covers_best [OF cov])
qed

lemma lsm_read_best:
  assumes inv: "lsm_inv W st" and good: "all_good W"
  shows "best_in (with_key key W) (fst (lsm_read key st))" and "lsm_inv W (snd (lsm_read key st))"
proof -
  have cache: "list_all (\<lambda>(k, e). best_in (with_key k W) (Some e)) (l_cache st)" using inv by (simp add: lsm_inv_def)
  note find = lsm_find_best [OF inv good, of key]
  have keep: "lsm_inv W (st\<lparr>l_cache := c\<rparr>)" if "list_all (\<lambda>(k, e). best_in (with_key k W) (Some e)) c" for c
    using inv that by (simp add: lsm_inv_def lsm_shape_def mem_set_def table_set_def)
  have rest: "list_all (\<lambda>(k, e). best_in (with_key k W) (Some e)) (cache_remove key (l_cache st))"
    using cache by (auto simp: list_all_iff cache_remove_def)
  have hit: "best_in (with_key key W) (Some e)" if "map_of (l_cache st) key = Some e" for e
    using cache map_of_SomeD [OF that] by (auto simp: list_all_iff)
  show "best_in (with_key key W) (fst (lsm_read key st))"
    using hit find by (auto simp: lsm_read_def split: option.split)
  have "list_all (\<lambda>(k, e). best_in (with_key k W) (Some e)) (cache_put key e (l_cache st))"
    if "best_in (with_key key W) (Some e)" for e
    using rest that set_take_subset [of CACHE_CAPACITY "(key, e) # cache_remove key (l_cache st)"]
    unfolding cache_put_def list_all_iff by auto
  then show "lsm_inv W (snd (lsm_read key st))"
    using hit find inv rest by (auto simp: lsm_read_def intro!: keep split: option.split)
qed

lemma lsm_scan_best:
  assumes inv: "lsm_inv W st" and good: "all_good W" and key: "\<forall>e\<in>W. \<forall>e'\<in>W. store_key e = store_key e' \<longrightarrow> P e = P e'"
  shows "distinct (map store_key (lsm_scan P st))"
    and "e \<in> set (lsm_scan P st) \<Longrightarrow> P e \<and> best_in (with_key (store_key e) W) (Some e)"
    and "e \<in> W \<Longrightarrow> P e \<Longrightarrow> store_key e \<in> store_key ` set (lsm_scan P st)"
proof -
  let ?S = "mem_set st \<union> table_set st"
  let ?es = "filter P (map snd (mt_data (l_mem st))) @ concat (map (table_scan P) (concat (l_levels st)))"
  let ?d = "fold merge_entry ?es []"
  have cov: "covers ?S W" using inv by (simp add: lsm_inv_def)
  have "set (concat (map (table_scan P) ts)) = {e \<in> tables_set ts. P e}" for ts
    by (auto simp: table_scan_def tables_set_Un)
  then have es: "set ?es = {e \<in> ?S. P e}"
    unfolding set_append set_filter set_map mem_set_def table_set_def by blast
  have sub: "?S \<subseteq> W" using cov by (simp add: covers_def)
  have ges: "all_good (set ?es)" using good sub unfolding es all_good_def by blast
  have k: "keyed ?d" by (rule keyed_merges [OF keyed_Nil])
  show "distinct (map store_key (lsm_scan P st))"
    unfolding lsm_scan_def keyed_keys [OF k] using k by (simp add: keyed_def)
  have scan: "set (lsm_scan P st) = snd ` set ?d" by (simp only: lsm_scan_def set_map)
  have "covers (set ?es) {e \<in> W. P e}"
    unfolding covers_def es
  proof (intro conjI ballI subsetI)
    fix e assume e: "e \<in> {e \<in> W. P e}"
    then obtain x where "x \<in> ?S" "store_key x = store_key e" "entry_rank e \<le> entry_rank x"
      using cov unfolding covers_def by blast
    with e key sub show "\<exists>x\<in>{x \<in> ?S. P x}. store_key x = store_key e \<and> entry_rank e \<le> entry_rank x" by blast
  qed (use sub in blast)
  from covers_trans [OF covers_merged [OF ges] this] have c: "covers (snd ` set ?d) {e \<in> W. P e}" .
  show "P e \<and> best_in (with_key (store_key e) W) (Some e)" if "e \<in> set (lsm_scan P st)"
  proof -
    have m: "e \<in> snd ` set ?d" using that unfolding scan .
    then have e: "e \<in> W" "P e" using c unfolding covers_def by blast+
    have "map_of ?d (store_key e) = Some e" using m keyed_mem [OF k] by blast
    with covers_best [OF c keyed_best [OF k, of "store_key e"]]
    have "best_in (with_key (store_key e) {e \<in> W. P e}) (Some e)" by simp
    moreover have "P x" if "x \<in> W" "store_key x = store_key e" for x using key that e by blast
    then have "with_key (store_key e) {e \<in> W. P e} = with_key (store_key e) W" unfolding with_key_def by blast
    ultimately show ?thesis using e(2) by simp
  qed
  show "store_key e \<in> store_key ` set (lsm_scan P st)" if "e \<in> W" "P e"
  proof -
    have "e \<in> {e \<in> W. P e}" using that by blast
    with c obtain x where "x \<in> snd ` set ?d" "store_key x = store_key e" unfolding covers_def by blast
    then show ?thesis unfolding scan by (metis imageI)
  qed
qed

lemma mem_puts:
  "list_all (\<lambda>(k, e). k = store_key e) ws \<Longrightarrow>
     mt_data (fold (\<lambda>(k, e). mem_put psize k e) ws m) = fold merge_entry (map snd ws) (mt_data m)"
  by (induction ws arbitrary: m) (auto simp: mem_put_merge)

lemma reopen_inv:
  assumes inv: "lsm_inv W st" and good: "all_good W"
  shows "lsm_inv W (reopen psize st)"
proof -
  have sh: "lsm_shape st" and c2: "covers (table_set st \<union> snd ` set (l_wal st)) W" using inv by (simp_all add: lsm_inv_def)
  then have wk: "list_all (\<lambda>(k, e). k = store_key e) (l_wal st)" by (simp add: lsm_shape_def)
  have d: "mt_data (l_mem (reopen psize st)) = fold merge_entry (map snd (l_wal st)) []"
    using mem_puts [OF wk, of psize new_memtable] by (simp add: reopen_def new_memtable_def)
  have "all_good (set (map snd (l_wal st)))" using c2 good by (auto simp: covers_def all_good_def)
  from covers_merged [OF this] have m: "covers (mem_set (reopen psize st)) (snd ` set (l_wal st))"
    by (simp add: mem_set_def d)
  have t: "table_set (reopen psize st) = table_set st" by (simp add: table_set_def reopen_def)
  have "covers (mem_set (reopen psize st) \<union> table_set st) (snd ` set (l_wal st) \<union> table_set st)"
    by (rule covers_Un [OF m covers_refl])
  from covers_trans [OF this] c2 have "covers (mem_set (reopen psize st) \<union> table_set st) W" by (simp add: Un_commute)
  moreover have "lsm_shape (reopen psize st)"
    using sh keyed_merges [OF keyed_Nil] d unfolding lsm_shape_def by (simp add: reopen_def)
  ultimately show ?thesis using c2 unfolding lsm_inv_def t by (simp add: reopen_def)
qed

section \<open>Every history of the store\<close>

datatype store_op = Write disk stat_entry | Read string | Flush disk | Crash

fun store_step :: "(stat_entry \<Rightarrow> int) \<Rightarrow> store_op \<Rightarrow> lsm \<Rightarrow> lsm" where
  "store_step psize (Write io e) st = snd (lsm_write psize io e st)"
| "store_step psize (Read k) st = snd (lsm_read k st)"
| "store_step psize (Flush io) st = snd (flush_locked io st)"
| "store_step psize Crash st = reopen psize st"

definition store_run :: "(stat_entry \<Rightarrow> int) \<Rightarrow> store_op list \<Rightarrow> lsm \<Rightarrow> lsm" where
  "store_run psize ops st = fold (store_step psize) ops st"

text \<open>The abstract store: the entries whose log record was written.\<close>

fun logged :: "store_op \<Rightarrow> stat_entry set" where
  "logged (Write io e) = (if wal_ok io then {e} else {})"
| "logged (Read k) = {}"
| "logged (Flush io) = {}"
| "logged Crash = {}"

definition store_log :: "store_op list \<Rightarrow> stat_entry set" where
  "store_log ops = \<Union> (logged ` set ops)"

lemma store_step_inv:
  assumes "lsm_inv W st" "all_good (logged p \<union> W)"
  shows "lsm_inv (logged p \<union> W) (store_step psize p st)"
proof (cases p)
  case (Write io e)
  have "lsm_inv (if wal_ok io then insert e W else W) (snd (lsm_write psize io e st))"
  proof (cases "wal_ok io")
    case True
    with assms(2) Write have "all_good (insert e W)" by simp
    from lsm_write_inv [OF assms(1) this] show ?thesis .
  next
    case False
    with assms(1) show ?thesis by (simp add: lsm_write_def)
  qed
  then show ?thesis by (cases "wal_ok io") (simp_all add: Write)
qed (use assms in \<open>simp_all add: lsm_read_best(2) flush_locked_inv reopen_inv\<close>)

lemma store_run_inv:
  assumes "lsm_inv W st" "all_good (store_log ops \<union> W)"
  shows "lsm_inv (store_log ops \<union> W) (store_run psize ops st)"
  using assms
proof (induction ops arbitrary: W st)
  case Nil
  then show ?case by (simp add: store_log_def store_run_def)
next
  case (Cons p ops)
  have l: "store_log (p # ops) \<union> W = store_log ops \<union> (logged p \<union> W)" by (auto simp: store_log_def)
  have "all_good (logged p \<union> W)" using Cons.prems(2) unfolding l by (simp add: all_good_def)
  from Cons.IH [OF store_step_inv [OF Cons.prems(1) this]] Cons.prems(2)
  show ?case unfolding l by (simp add: store_run_def)
qed


definition disk_up :: disk where
  "disk_up = \<lparr>wal_ok = True, table_ok = True, rotate_ok = True, merge_ok = True\<rparr>"

definition sample_stat :: "int \<Rightarrow> int \<Rightarrow> stat_entry" where
  "sample_stat sq n =
     \<lparr>se_entity_id = ''TFT17_Bard'', se_entity_type = ''champion'', se_patch = ''17.4'', se_region = ''NA'', se_tier = ''GOLD'',
      se_win_rate = 1 / 2, se_avg_placement = 4, se_play_rate = 1, se_sample_size = n, se_clock = [(''p'', sq)]\<rparr>"


end
