(* ===== verification/Meta_Server.thy ===== *)
theory Meta_Server
  imports Lsm Config
begin

text \<open>
  The request handlers of the meta store, \<open>metastore/server.go\<close>: writes and reads with their
  quorums, scans, the choice of the current patch and the decay of the samples of older patches.
  The hash ring's owners of a key, the answers of the other members and the clock are parameters;
  times are in hours. Floats are exact.
\<close>

section \<open>Patches\<close>

definition go_space :: "char \<Rightarrow> bool" where
  "go_space c \<longleftrightarrow> c \<in> set (map char_of [0x09, 0x0A, 0x0B, 0x0C, 0x0D, 0x20, 0x85, 0xA0 :: nat])"

definition go_trim :: "string \<Rightarrow> string" where
  "go_trim s = dropWhile go_space (rev (dropWhile go_space (rev s)))"

definition go_atoi :: "string \<Rightarrow> int option" where
  "go_atoi s =
     (case take_sign s of (neg, ds) \<Rightarrow>
        if ds = [] \<or> \<not> list_all is_digit ds then None
        else let v = (if neg then - int (digits_value ds) else int (digits_value ds))
             in if - (2 ^ 63) \<le> v \<and> v < 2 ^ 63 then Some v else None)"

definition parse_patch :: "string \<Rightarrow> (int \<times> int) option" where
  "parse_patch p =
     (case partition_at (CHR ''.'') p of (a, sep, b) \<Rightarrow>
        if sep = [] then None
        else (case (go_atoi (go_trim a), go_atoi (go_trim b)) of (Some m, Some n) \<Rightarrow> Some (m, n) | _ \<Rightarrow> None))"

definition patch_newer :: "string \<Rightarrow> string \<Rightarrow> bool" where
  "patch_newer a b =
     (case (parse_patch a, parse_patch b) of
        (Some (am, an), Some (bm, bn)) \<Rightarrow> if am \<noteq> bm then am > bm else an > bn
      | _ \<Rightarrow> a > b)"

record server =
  srv_self :: string
  srv_lsm :: lsm
  current_patch :: string
  current_since :: py_float
  seen_patches :: "(string, py_float) dict"

definition new_server :: "py_float \<Rightarrow> string \<Rightarrow> lsm \<Rightarrow> server" where
  "new_server now self st =
     \<lparr>srv_self = self, srv_lsm = st, current_patch = [], current_since = now, seen_patches = []\<rparr>"

definition PROMOTE_THRESHOLD :: int where "PROMOTE_THRESHOLD = 500"

definition see_patch :: "py_float \<Rightarrow> string \<Rightarrow> server \<Rightarrow> server" where
  "see_patch now pt s =
     (if map_of (seen_patches s) pt = None then s\<lparr>seen_patches := AList.update pt now (seen_patches s)\<rparr> else s)"

definition track_patch :: "py_float \<Rightarrow> stat_entry \<Rightarrow> server \<Rightarrow> server" where
  "track_patch now e s =
     (if se_patch e = [] then s
      else let s = see_patch now (se_patch e) s in
        if current_patch s = [] then s\<lparr>current_patch := se_patch e, current_since := now\<rparr>
        else if se_sample_size e \<ge> PROMOTE_THRESHOLD \<and> patch_newer (se_patch e) (current_patch s)
        then s\<lparr>current_patch := se_patch e, current_since := now\<rparr>
        else s)"

definition notify_patch :: "py_float \<Rightarrow> string \<Rightarrow> server \<Rightarrow> server" where
  "notify_patch now pt s =
     (if pt = [] then s
      else let s = see_patch now pt s in
        if current_patch s = [] then s\<lparr>current_patch := pt, current_since := now\<rparr> else s)"

definition to_int64 :: "py_float \<Rightarrow> int" where
  "to_int64 x = (if 0 \<le> x then \<lfloor>x\<rfloor> else \<lceil>x\<rceil>)"

definition decayed_sample_size :: "int \<Rightarrow> py_float \<Rightarrow> int" where
  "decayed_sample_size original age = to_int64 (of_int original * (85 / 100) powr (age / 24))"

definition apply_decay :: "py_float \<Rightarrow> server \<Rightarrow> stat_entry \<Rightarrow> stat_entry" where
  "apply_decay now s e =
     (let cur = current_patch s in
      if cur = [] \<or> se_patch e = [] \<or> se_patch e = cur \<or> \<not> patch_newer cur (se_patch e) then e
      else e\<lparr>se_sample_size := decayed_sample_size (se_sample_size e) (now - current_since s)\<rparr>)"

section \<open>Requests\<close>

definition WRITE_QUORUM :: nat where "WRITE_QUORUM = 2"
definition READ_QUORUM :: nat where "READ_QUORUM = 2"

definition local_write :: "(stat_entry \<Rightarrow> int) \<Rightarrow> disk \<Rightarrow> stat_entry \<Rightarrow> server \<Rightarrow> bool \<times> server" where
  "local_write psize io e s =
     (case lsm_write psize io e (srv_lsm s) of (ok, st) \<Rightarrow> (ok, s\<lparr>srv_lsm := st\<rparr>))"

definition local_read :: "string \<Rightarrow> server \<Rightarrow> stat_entry option \<times> server" where
  "local_read key s = (case lsm_read key (srv_lsm s) of (r, st) \<Rightarrow> (r, s\<lparr>srv_lsm := st\<rparr>))"

text \<open>A write forwarded by another member: \<open>None\<close> when the handler answers with an error.\<close>

definition replica_write :: "(stat_entry \<Rightarrow> int) \<Rightarrow> disk \<Rightarrow> py_float \<Rightarrow> stat_entry \<Rightarrow> server \<Rightarrow> bool option \<times> server" where
  "replica_write psize io now e s =
     (case local_write psize io e (track_patch now e s) of (ok, s') \<Rightarrow> (if ok then Some True else None, s'))"

text \<open>Waiting for the answers of the other owners, in the order of their arrival.\<close>

fun await_acks :: "nat \<Rightarrow> nat \<Rightarrow> bool list \<Rightarrow> nat" where
  "await_acks need acks [] = acks"
| "await_acks need acks (r # rs) =
     (if acks < need then await_acks need (if r then acks + 1 else acks) rs else acks)"

text \<open>
  \<open>answers\<close>: what the owners that are alive, this member apart, answer to the forwarded write, in
  the order of arrival.
\<close>

definition write_owner :: "(stat_entry \<Rightarrow> int) \<Rightarrow> disk \<Rightarrow> stat_entry \<Rightarrow> string \<Rightarrow> nat \<times> server \<Rightarrow> nat \<times> server" where
  "write_owner psize io e owner p =
     (case p of (acks, s) \<Rightarrow>
        if owner = srv_self s
        then (case local_write psize io e s of (ok, s') \<Rightarrow> (if ok then acks + 1 else acks, s'))
        else (acks, s))"

definition server_write ::
    "(stat_entry \<Rightarrow> int) \<Rightarrow> disk \<Rightarrow> string list \<Rightarrow> bool list \<Rightarrow> py_float \<Rightarrow> stat_entry \<Rightarrow> server \<Rightarrow> bool option \<times> server" where
  "server_write psize io owners answers now e s =
     (let s1 = track_patch now e s in
      if owners = [] then (case local_write psize io e s1 of (ok, s2) \<Rightarrow> (if ok then Some True else None, s2))
      else let need = min WRITE_QUORUM (length owners) in
        (case fold (write_owner psize io e) owners (0, s1) of
           (acks, s2) \<Rightarrow> (Some (need \<le> await_acks need acks answers), s2)))"

definition order_self_first :: "string \<Rightarrow> string list \<Rightarrow> string list" where
  "order_self_first self owners = filter (\<lambda>x. x = self) owners @ filter (\<lambda>x. x \<noteq> self) owners"

text \<open>What comes of asking another owner: it is not alive, the call fails, or it sends what it has.\<close>

datatype peer_answer = Dead | Failed | Answer "stat_entry option"

fun read_owners ::
    "nat \<Rightarrow> string \<Rightarrow> (string \<Rightarrow> peer_answer) \<Rightarrow> string list \<Rightarrow> nat \<Rightarrow> stat_entry option \<Rightarrow> server \<Rightarrow>
     stat_entry option \<times> server" where
  "read_owners need key remote [] responses best s = (best, s)"
| "read_owners need key remote (owner # rest) responses best s =
     (if owner = srv_self s
      then (case local_read key s of (r, s') \<Rightarrow> read_owners need key remote rest (responses + 1) (pick_newer best r) s')
      else case remote owner of
        Dead \<Rightarrow> read_owners need key remote rest responses best s
      | answer \<Rightarrow>
          (let (responses', best') = (case answer of Answer r \<Rightarrow> (responses + 1, pick_newer best r) | _ \<Rightarrow> (responses, best))
           in if responses' \<ge> need \<and> best' \<noteq> None then (best', s)
              else read_owners need key remote rest responses' best' s))"

definition server_read ::
    "string list \<Rightarrow> (string \<Rightarrow> peer_answer) \<Rightarrow> py_float \<Rightarrow> string \<Rightarrow> server \<Rightarrow> stat_entry option \<times> server" where
  "server_read owners remote now key s =
     (case (if owners = [] then local_read key s
            else read_owners (min READ_QUORUM (length owners)) key remote (order_self_first (srv_self s) owners) 0 None s) of
        (best, s') \<Rightarrow> (map_option (apply_decay now s') best, s'))"

record scan_request =
  sc_entity_type :: string
  sc_patch :: string
  sc_tier :: string
  sc_region :: string
  sc_limit :: int

definition scan_predicate :: "scan_request \<Rightarrow> stat_entry \<Rightarrow> bool" where
  "scan_predicate req e \<longleftrightarrow>
     (sc_entity_type req = [] \<or> se_entity_type e = sc_entity_type req) \<and> (sc_patch req = [] \<or> se_patch e = sc_patch req)
     \<and> (sc_tier req = [] \<or> se_tier e = sc_tier req) \<and> (sc_region req = [] \<or> se_region e = sc_region req)"

text \<open>
  \<open>peers\<close>: the answers of the other members that are alive. Go does not fix the order in which
  it goes through the merged map: \<open>order\<close>.
\<close>

definition server_scan ::
    "(stat_entry list \<Rightarrow> stat_entry list) \<Rightarrow> stat_entry list list \<Rightarrow> py_float \<Rightarrow> scan_request \<Rightarrow> server \<Rightarrow> stat_entry list" where
  "server_scan order peers now req s =
     (let merged = fold merge_entry (concat (lsm_scan (scan_predicate req) (srv_lsm s) # peers)) [];
          out = map (apply_decay now s) (order (map snd merged))
      in if 0 < sc_limit req \<and> sc_limit req < int (length out) then take (nat (sc_limit req)) out else out)"

section \<open>The current patch\<close>

lemma patch_newer_parsed:
  "parse_patch a = Some (m, n) \<Longrightarrow> parse_patch b = Some (m', n') \<Longrightarrow>
     patch_newer a b \<longleftrightarrow> m' < m \<or> m = m' \<and> n' < n"
  by (auto simp: patch_newer_def)

lemma patch_newer_irrefl: "\<not> patch_newer a a"
  by (simp add: patch_newer_def split: option.split)

lemma patch_newer_trans:
  assumes "parse_patch a \<noteq> None" "parse_patch b \<noteq> None" "parse_patch c \<noteq> None" "\<not> patch_newer a b" "\<not> patch_newer b c"
  shows "\<not> patch_newer a c"
proof -
  obtain am an bm bn cm cn where "parse_patch a = Some (am, an)" "parse_patch b = Some (bm, bn)" "parse_patch c = Some (cm, cn)"
    using assms(1-3) by auto
  note p = this
  show ?thesis
    using assms(4,5) unfolding patch_newer_parsed [OF p(1,2)] patch_newer_parsed [OF p(2,3)] patch_newer_parsed [OF p(1,3)]
    by linarith
qed

lemma patch_newer_asym:
  assumes "parse_patch a \<noteq> None" "parse_patch b \<noteq> None" "patch_newer a b"
  shows "\<not> patch_newer b a"
proof -
  obtain am an bm bn where "parse_patch a = Some (am, an)" "parse_patch b = Some (bm, bn)" using assms(1,2) by auto
  note p = this
  show ?thesis using assms(3) unfolding patch_newer_parsed [OF p] patch_newer_parsed [OF p(2,1)] by linarith
qed

text \<open>Where a patch does not parse, strings are compared, and the order has a cycle.\<close>

lemma patch_newer_cycle:
  "patch_newer ''10.0'' ''9.1'' \<and> patch_newer ''9.1'' ''5x'' \<and> patch_newer ''5x'' ''10.0''"
  by code_simp

datatype patch_event = Tracked py_float stat_entry | Notified py_float string

fun patch_step :: "patch_event \<Rightarrow> server \<Rightarrow> server" where
  "patch_step (Tracked now e) s = track_patch now e s"
| "patch_step (Notified now pt) s = notify_patch now pt s"

fun event_patch :: "patch_event \<Rightarrow> string" where
  "event_patch (Tracked now e) = se_patch e"
| "event_patch (Notified now pt) = pt"

fun sampled :: "patch_event \<Rightarrow> bool" where
  "sampled (Tracked now e) \<longleftrightarrow> se_sample_size e \<ge> PROMOTE_THRESHOLD"
| "sampled (Notified now pt) \<longleftrightarrow> False"

lemma patch_step_current:
  "current_patch (patch_step ev s) =
     (if event_patch ev = [] then current_patch s
      else if current_patch s = [] then event_patch ev
      else if sampled ev \<and> patch_newer (event_patch ev) (current_patch s) then event_patch ev
      else current_patch s)"
  by (cases ev) (simp_all add: track_patch_def notify_patch_def see_patch_def Let_def)

text \<open>The patches that can have become current: the first one named and those with enough samples.\<close>

definition candidates :: "patch_event list \<Rightarrow> string set" where
  "candidates evs =
     set (take 1 (filter (\<lambda>pt. pt \<noteq> []) (map event_patch evs)))
     \<union> set (map event_patch (filter (\<lambda>ev. sampled ev \<and> event_patch ev \<noteq> []) evs))"

definition patch_state_ok :: "patch_event list \<Rightarrow> string \<Rightarrow> bool" where
  "patch_state_ok evs cur \<longleftrightarrow>
     (if \<forall>ev\<in>set evs. event_patch ev = [] then cur = []
      else cur \<in> candidates evs \<and> (\<forall>pt\<in>candidates evs. \<not> patch_newer pt cur))"

lemma candidates_append:
  "candidates (evs @ [ev]) = candidates evs
     \<union> (if event_patch ev \<noteq> [] \<and> ((\<forall>ev\<in>set evs. event_patch ev = []) \<or> sampled ev) then {event_patch ev} else {})"
proof -
  let ?f = "\<lambda>evs. filter (\<lambda>pt. pt \<noteq> []) (map event_patch evs)"
  have "?f evs = [] \<longleftrightarrow> (\<forall>ev\<in>set evs. event_patch ev = [])" by (simp add: filter_empty_conv)
  then show ?thesis unfolding candidates_def by (cases "?f evs") auto
qed

lemma candidates_named: "pt \<in> candidates evs \<Longrightarrow> pt \<noteq> [] \<and> (\<exists>ev\<in>set evs. event_patch ev = pt)"
  unfolding candidates_def by (auto dest!: in_set_takeD)

lemma patch_run_ok:
  assumes "\<forall>ev\<in>set evs. event_patch ev \<noteq> [] \<longrightarrow> parse_patch (event_patch ev) \<noteq> None"
  shows "patch_state_ok evs (current_patch (fold patch_step evs (new_server now self st)))"
  using assms
proof (induction evs rule: rev_induct)
  case Nil
  then show ?case by (simp add: patch_state_ok_def new_server_def)
next
  case (snoc ev evs)
  let ?cur = "current_patch (fold patch_step evs (new_server now self st))"
  have IH: "patch_state_ok evs ?cur" using snoc by simp
  show ?case
  proof (cases "\<forall>ev\<in>set evs. event_patch ev = []")
    case True
    with IH have "?cur = []" "candidates evs = {}"
      using candidates_named by (auto simp: patch_state_ok_def)
    with True show ?thesis
      by (auto simp: patch_state_ok_def patch_step_current candidates_append patch_newer_irrefl)
  next
    case False
    from IH have "?cur \<in> candidates evs \<and> (\<forall>pt\<in>candidates evs. \<not> patch_newer pt ?cur)"
      unfolding patch_state_ok_def if_not_P [OF False] .
    then have c: "?cur \<in> candidates evs" "\<forall>pt\<in>candidates evs. \<not> patch_newer pt ?cur" by blast+
    have parsed: "parse_patch pt \<noteq> None" if "pt \<in> candidates evs" for pt
      using candidates_named [OF that] snoc.prems by auto
    have ne: "?cur \<noteq> []" using candidates_named [OF c(1)] by simp
    show ?thesis
    proof (cases "event_patch ev \<noteq> [] \<and> sampled ev \<and> patch_newer (event_patch ev) ?cur")
      case True
      then have pe: "parse_patch (event_patch ev) \<noteq> None" using snoc.prems by simp
      have "\<not> patch_newer ?cur (event_patch ev)"
        using patch_newer_asym [OF pe parsed [OF c(1)]] True by blast
      then have "\<not> patch_newer pt (event_patch ev)" if "pt \<in> candidates evs" for pt
        using patch_newer_trans [OF parsed [OF that] parsed [OF c(1)] pe] c(2) that by blast
      with True False ne show ?thesis
        by (auto simp: patch_state_ok_def patch_step_current candidates_append patch_newer_irrefl)
    next
      case no: False
      then have "current_patch (fold patch_step (evs @ [ev]) (new_server now self st)) = ?cur"
        using ne by (auto simp: patch_step_current)
      with c no False show ?thesis by (auto simp: patch_state_ok_def candidates_append)
    qed
  qed
qed

section \<open>Decay\<close>

lemma to_int64_range: "0 \<le> x \<Longrightarrow> x \<le> of_int n \<Longrightarrow> 0 \<le> to_int64 x \<and> to_int64 x \<le> n"
  by (simp add: to_int64_def floor_le_iff)

lemma decayed_range:
  assumes "0 \<le> n" "0 \<le> age"
  shows "0 \<le> decayed_sample_size n age \<and> decayed_sample_size n age \<le> n"
proof -
  have "(85 / 100 :: real) powr (age / 24) \<le> 1" using assms(2) by (simp add: powr_le1)
  with assms(1) have "of_int n * (85 / 100 :: real) powr (age / 24) \<le> of_int n"
    by (simp add: mult_left_le)
  with assms(1) show ?thesis unfolding decayed_sample_size_def by (intro to_int64_range) simp_all
qed

lemma decayed_mono:
  assumes "0 \<le> n" "a \<le> b"
  shows "decayed_sample_size n b \<le> decayed_sample_size n a"
proof -
  have "(85 / 100 :: real) powr (b / 24) \<le> (85 / 100) powr (a / 24)"
    using assms(2) by (intro powr_mono') simp_all
  then have "of_int n * (85 / 100 :: real) powr (b / 24) \<le> of_int n * (85 / 100) powr (a / 24)"
    using assms(1) by (intro mult_left_mono) simp_all
  with assms(1) show ?thesis by (simp add: decayed_sample_size_def to_int64_def floor_mono)
qed

lemma decayed_fresh: "decayed_sample_size n 0 = n"
  by (simp add: decayed_sample_size_def to_int64_def)

lemma decayed_day: "0 \<le> n \<Longrightarrow> decayed_sample_size (100 * n) 24 = 85 * n"
proof -
  have "of_int (100 * n) * (85 / 100 :: real) powr (24 / 24) = of_int (85 * n)" by simp
  then show "0 \<le> n \<Longrightarrow> ?thesis" by (simp only: decayed_sample_size_def to_int64_def of_int_0_le_iff floor_of_int) simp
qed

section \<open>Quorums\<close>

lemma await_enough: "need \<le> await_acks need acks rs \<longleftrightarrow> need \<le> acks + length (filter id rs)"
  by (induction need acks rs rule: await_acks.induct) auto

lemma order_self_first_set: "set (order_self_first self owners) = set owners"
  by (auto simp: order_self_first_def)

lemma order_self_first_distinct: "distinct owners \<Longrightarrow> distinct (order_self_first self owners)"
  by (auto simp: order_self_first_def)

text \<open>The owners of the list that a read can hear from.\<close>

definition answering :: "string \<Rightarrow> (string \<Rightarrow> peer_answer) \<Rightarrow> string list \<Rightarrow> string set" where
  "answering self remote owners = {x \<in> set owners. x = self \<or> (\<exists>r. remote x = Answer r)}"

text \<open>
  What the members hold: \<open>held x\<close> for the entries logged by the member \<open>x\<close>. Every answer is the
  best entry the member has for the key.
\<close>

definition members_ok :: "(string \<Rightarrow> stat_entry set) \<Rightarrow> string \<Rightarrow> (string \<Rightarrow> peer_answer) \<Rightarrow> server \<Rightarrow> bool" where
  "members_ok held key remote s \<longleftrightarrow>
     (\<forall>x. all_good (held x)) \<and> lsm_inv (held (srv_self s)) (srv_lsm s)
     \<and> (\<forall>x r. remote x = Answer r \<longrightarrow> best_in (with_key key (held x)) r)"

lemma best_in_union:
  assumes "best_in S a" "best_in T b" "all_good (S \<union> T)"
  shows "best_in (S \<union> T) (pick_newer a b)"
proof (cases b)
  case None
  with assms(1,2) show ?thesis by (cases a) (simp_all add: best_in_def pick_newer_def)
next
  case (Some e)
  then have e: "e \<in> T" "\<forall>e'\<in>T. entry_rank e' \<le> entry_rank e" using assms(2) by (simp_all add: best_in_def)
  have "all_good (insert e S)" using assms(3) e(1) by (auto simp: all_good_def)
  from best_in_pick [OF assms(1) this] have b: "best_in (insert e S) (pick_newer a b)" by (simp add: Some)
  show ?thesis
  proof (rule best_in_covers [OF b])
    show "insert e S \<subseteq> S \<union> T" using e(1) by blast
    show "\<forall>x\<in>S \<union> T. \<exists>y\<in>insert e S. entry_rank x \<le> entry_rank y" using e(2) by blast
  qed
qed

definition held_key :: "(string \<Rightarrow> stat_entry set) \<Rightarrow> string \<Rightarrow> string set \<Rightarrow> stat_entry set" where
  "held_key held key R = (\<Union>x\<in>R. with_key key (held x))"

lemma held_key_pick:
  assumes "best_in (held_key held key R) best" "best_in (with_key key (held x)) r" "\<forall>x. all_good (held x)"
  shows "best_in (held_key held key (insert x R)) (pick_newer best r)"
proof -
  have "held_key held key (insert x R) = held_key held key R \<union> with_key key (held x)" by (auto simp: held_key_def)
  moreover have "all_good (held_key held key R \<union> with_key key (held x))"
    using assms(3) by (auto simp: all_good_def held_key_def with_key_def)
  ultimately show ?thesis using best_in_union [OF assms(1,2)] by simp
qed

lemma local_read_ok:
  assumes "members_ok held key remote s" "local_read key s = (r, s')"
  shows "members_ok held key remote s'" "best_in (with_key key (held (srv_self s))) r"
    "srv_self s' = srv_self s" "\<And>now. apply_decay now s' = apply_decay now s"
proof -
  obtain st where l: "lsm_read key (srv_lsm s) = (r, st)" and s': "s' = s\<lparr>srv_lsm := st\<rparr>"
    using assms(2) by (auto simp: local_read_def split: prod.splits)
  have inv: "lsm_inv (held (srv_self s)) (srv_lsm s)" "all_good (held (srv_self s))"
    using assms(1) by (simp_all add: members_ok_def)
  note read = lsm_read_best [OF inv, of key, unfolded l fst_conv snd_conv]
  show "members_ok held key remote s'" using assms(1) read(2) by (simp add: members_ok_def s')
  show "best_in (with_key key (held (srv_self s))) r" by (rule read(1))
  show "srv_self s' = srv_self s" "\<And>now. apply_decay now s' = apply_decay now s"
    by (simp_all add: s' apply_decay_def fun_eq_iff Let_def)
qed

lemma read_owners_heard:
  assumes "members_ok held key remote s" "best_in (held_key held key R) best" "responses = card R" "finite R"
    "distinct owners" "R \<inter> set owners = {}" "read_owners need key remote owners responses best s = (b, s')"
  shows "(\<forall>now. apply_decay now s' = apply_decay now s) \<and> (\<exists>R'. R \<subseteq> R' \<and> R' \<subseteq> R \<union> answering (srv_self s) remote owners
    \<and> (R' = R \<union> answering (srv_self s) remote owners \<or> need \<le> card R') \<and> best_in (held_key held key R') b)"
  using assms
proof (induction owners arbitrary: responses best s R b s')
  case Nil
  then show ?case by (intro conjI exI [of _ R]) (auto simp: answering_def)
next
  case (Cons owner rest)
  note ok = Cons.prems(1) and best = Cons.prems(2) and card = Cons.prems(3,4) and dist = Cons.prems(5,6) and run = Cons.prems(7)
  have good: "\<forall>x. all_good (held x)" using ok by (simp add: members_ok_def)
  have new: "responses + 1 = card (insert owner R)" using card dist(2) by simp
  have fin: "finite (insert owner R)" using card(2) by simp
  have dr: "distinct rest" "insert owner R \<inter> set rest = {}" "R \<inter> set rest = {}" using dist by auto
  show ?case
  proof (cases "owner = srv_self s")
    case True
    obtain r s1 where l: "local_read key s = (r, s1)" by fastforce
    note lr = local_read_ok [OF ok l]
    have b1: "best_in (held_key held key (insert owner R)) (pick_newer best r)"
      using held_key_pick [OF best lr(2) good] True by simp
    have run1: "read_owners need key remote rest (responses + 1) (pick_newer best r) s1 = (b, s')"
      using run True l by simp
    from Cons.IH [OF lr(1) b1 new fin dr(1,2) run1]
    obtain R' where R': "insert owner R \<subseteq> R'" "R' \<subseteq> insert owner R \<union> answering (srv_self s) remote rest"
      "R' = insert owner R \<union> answering (srv_self s) remote rest \<or> need \<le> card R'" "best_in (held_key held key R') b"
      and d: "\<forall>now. apply_decay now s' = apply_decay now s" unfolding lr(3,4) by blast
    have "answering (srv_self s) remote (owner # rest) = insert owner (answering (srv_self s) remote rest)"
      using True by (auto simp: answering_def)
    with R' d show ?thesis by (intro conjI exI [of _ R']) auto
  next
    case False
    show ?thesis
    proof (cases "remote owner")
      case Dead
      have a: "answering (srv_self s) remote (owner # rest) = answering (srv_self s) remote rest"
        using False Dead by (auto simp: answering_def)
      have "read_owners need key remote rest responses best s = (b, s')" using run False Dead by simp
      from Cons.IH [OF ok best card dr(1,3) this] show ?thesis unfolding a .
    next
      case Failed
      have a: "answering (srv_self s) remote (owner # rest) = answering (srv_self s) remote rest"
        using False Failed by (auto simp: answering_def)
      show ?thesis
      proof (cases "responses \<ge> need \<and> best \<noteq> None")
        case True
        then have "b = best" "s' = s" using run False Failed by simp_all
        then show ?thesis using True best card(1) by (intro conjI exI [of _ R]) (auto simp: answering_def)
      next
        case no: False
        have "read_owners need key remote rest responses best s = (b, s')" using run False Failed no by (auto split: if_splits)
        from Cons.IH [OF ok best card dr(1,3) this] show ?thesis unfolding a .
      qed
    next
      case (Answer r)
      have "best_in (with_key key (held owner)) r" using ok Answer by (simp add: members_ok_def)
      from held_key_pick [OF best this good]
      have b1: "best_in (held_key held key (insert owner R)) (pick_newer best r)" .
      have a: "answering (srv_self s) remote (owner # rest) = insert owner (answering (srv_self s) remote rest)"
        using False Answer by (auto simp: answering_def)
      show ?thesis
      proof (cases "responses + 1 \<ge> need \<and> pick_newer best r \<noteq> None")
        case True
        then have "b = pick_newer best r" "s' = s" using run False Answer by simp_all
        then show ?thesis using True b1 new unfolding a by (intro conjI exI [of _ "insert owner R"]) auto
      next
        case no: False
        have run1: "read_owners need key remote rest (responses + 1) (pick_newer best r) s = (b, s')"
          using run False Answer no by (auto split: if_splits)
        from Cons.IH [OF ok b1 new fin dr(1,2) run1]
        obtain R' where R': "insert owner R \<subseteq> R'" "R' \<subseteq> insert owner R \<union> answering (srv_self s) remote rest"
          "R' = insert owner R \<union> answering (srv_self s) remote rest \<or> need \<le> card R'" "best_in (held_key held key R') b"
          and d: "\<forall>now. apply_decay now s' = apply_decay now s" by auto
        then show ?thesis unfolding a by (intro conjI exI [of _ R']) auto
      qed
    qed
  qed
qed

lemma write_owners_self:
  assumes "distinct owners" "srv_self s = self"
  shows "fold (write_owner psize io e) owners (acks, s) =
    (if self \<in> set owners
     then (case local_write psize io e s of (ok, s') \<Rightarrow> (if ok then acks + 1 else acks, s')) else (acks, s))"
  using assms
proof (induction owners arbitrary: acks s)
  case (Cons x xs)
  obtain ok s' where l: "local_write psize io e s = (ok, s')" by fastforce
  then have "srv_self s' = self" using Cons.prems(2) by (auto simp: local_write_def split: prod.splits)
  with Cons.IH [of s'] Cons.IH [OF _ Cons.prems(2)] Cons.prems l show ?case by (auto simp: write_owner_def)
qed simp

lemma lsm_write_logged: "fst (lsm_write psize io e st) \<Longrightarrow> wal_ok io"
  by (cases "wal_ok io") (simp_all add: lsm_write_def)

lemma write_quorum:
  assumes "distinct owners" "server_write psize io owners answers now e s = (Some True, s')"
  shows "min WRITE_QUORUM (length owners) \<le>
    (if srv_self s \<in> set owners \<and> wal_ok io then 1 else 0) + length (filter id answers)"
proof (cases "owners = []")
  case False
  let ?s = "track_patch now e s"
  have self: "srv_self ?s = srv_self s" by (simp add: track_patch_def see_patch_def Let_def)
  obtain ok s2 where l: "local_write psize io e ?s = (ok, s2)" by fastforce
  then have "ok \<Longrightarrow> wal_ok io" using lsm_write_logged [of psize io e "srv_lsm ?s"] by (auto simp: local_write_def split: prod.splits)
  with assms(2) False show ?thesis
    by (auto simp: server_write_def Let_def write_owners_self [OF assms(1) self] l await_enough split: if_splits)
qed simp

lemma two_of_three:
  assumes "card U = 3" "finite U" "A \<subseteq> U" "B \<subseteq> U" "2 \<le> card A" "2 \<le> card B"
  shows "A \<inter> B \<noteq> {}"
proof
  assume "A \<inter> B = {}"
  moreover have "finite A" "finite B" using assms finite_subset by blast+
  ultimately have "card (A \<union> B) = card A + card B" by (simp add: card_Un_disjoint)
  moreover have "card (A \<union> B) \<le> 3" using card_mono [of U "A \<union> B"] assms by simp
  ultimately show False using assms(5,6) by simp
qed

section \<open>Properties\<close>

text \<open>
  C31. Reads see acknowledged writes. Three members own a key, and a coordinator has told its
  client that the write of an entry succeeded; \<open>held\<close> are the entries each member has logged by
  the time of a read. When at least two owners can be heard, the read at any member returns an
  entry for the key that some owner holds and that is at least as new as the one written, with
  only its sample size decayed.
\<close>

theorem quorum_read_sees_write:
  assumes owners: "distinct owners" "length owners = 3"
    and sent: "server_write psize io owners (map snd acks) t e c = (Some True, c')"
    and acks: "distinct (map fst acks)" "fst ` set acks \<subseteq> set owners - {srv_self c}"
      "\<forall>(x, ok)\<in>set acks. ok \<longrightarrow> e \<in> held x" "srv_self c \<in> set owners \<longrightarrow> wal_ok io \<longrightarrow> e \<in> held (srv_self c)"
    and ok: "members_ok held (store_key e) remote s"
    and heard: "2 \<le> card (answering (srv_self s) remote owners)"
    and read: "server_read owners remote now (store_key e) s = (r, s')"
  shows "\<exists>x. r = Some (apply_decay now s x) \<and> store_key x = store_key e \<and> entry_rank e \<le> entry_rank x
    \<and> (\<exists>m\<in>set owners. x \<in> held m)"
proof -
  let ?k = "store_key e" and ?C = "if srv_self c \<in> set owners \<and> wal_ok io then {srv_self c} else {}"
  let ?A = "?C \<union> fst ` set (filter snd acks)"
  have ne: "owners \<noteq> []" using owners(2) by auto
  have sub: "?A \<subseteq> set owners" using acks(2) by auto
  have logged: "e \<in> held x" if "x \<in> ?A" for x using that acks(3,4) by (auto split: if_splits)
  have d: "distinct (map fst (filter snd acks))" using acks(1) by (simp add: distinct_map_filter)
  have "card (fst ` set (filter snd acks)) = length (filter id (map snd acks))"
    using distinct_card [OF d] by (simp add: filter_map comp_def)
  moreover have "?C \<inter> fst ` set (filter snd acks) = {}" using acks(2) by auto
  then have "card ?A = card ?C + card (fst ` set (filter snd acks))" by (simp add: card_Un_disjoint)
  ultimately have A: "2 \<le> card ?A"
    using write_quorum [OF owners(1) sent] owners(2) by (simp add: WRITE_QUORUM_def split: if_splits)
  let ?ord = "order_self_first (srv_self s) owners"
  obtain b s1 where run: "read_owners 2 ?k remote ?ord 0 None s = (b, s1)" by fastforce
  then have r: "r = map_option (apply_decay now s1) b"
    using read ne owners(2) by (auto simp: server_read_def READ_QUORUM_def)
  have "best_in (held_key held ?k {}) None" by (simp add: held_key_def best_in_def)
  from read_owners_heard [OF ok this _ _ order_self_first_distinct [OF owners(1)] _ run]
  obtain R where R: "R \<subseteq> answering (srv_self s) remote ?ord" "R = answering (srv_self s) remote ?ord \<or> 2 \<le> card R"
    "best_in (held_key held ?k R) b" and dec: "apply_decay now s1 = apply_decay now s" by auto
  have ans: "answering (srv_self s) remote ?ord = answering (srv_self s) remote owners"
    by (simp add: answering_def order_self_first_set)
  have "R \<subseteq> set owners" "2 \<le> card R" using R(1,2) heard unfolding ans by (auto simp: answering_def)
  with two_of_three [OF _ _ sub, of R] A owners obtain x where x: "x \<in> ?A" "x \<in> R"
    by (auto simp: distinct_card)
  have "e \<in> held_key held ?k R" using logged [OF x(1)] x(2) by (auto simp: held_key_def with_key_def)
  from best_in_exists [OF R(3) this] obtain y where y: "y \<in> held_key held ?k R" "b = Some y" "entry_rank e \<le> entry_rank y"
    by blast
  with \<open>R \<subseteq> set owners\<close> show ?thesis unfolding r dec by (auto simp: held_key_def with_key_def)
qed

text \<open>
  The current patch is the newest sampled one. After any sequence of writes and patch
  announcements whose patches are all of the form major.minor, the current patch is the first
  patch that was named or one with an entry of at least 500 samples, and none of these is newer.
\<close>

theorem current_patch_newest:
  assumes "\<forall>ev\<in>set evs. event_patch ev \<noteq> [] \<longrightarrow> parse_patch (event_patch ev) \<noteq> None"
    and "ev \<in> set evs" "event_patch ev \<noteq> []"
  shows "current_patch (fold patch_step evs (new_server now self st)) \<in> candidates evs
    \<and> (\<forall>pt\<in>candidates evs. \<not> patch_newer pt (current_patch (fold patch_step evs (new_server now self st))))"
proof -
  have "\<not> (\<forall>ev\<in>set evs. event_patch ev = [])" using assms(2,3) by blast
  from patch_run_ok [OF assms(1), of now self st, unfolded patch_state_ok_def if_not_P [OF this]] show ?thesis .
qed

text \<open>
  Decay only shrinks the samples of older patches. What a read or a scan returns differs from
  the stored entry in its sample size at most; that is unchanged for the current patch and every
  patch that is not older, never grows, never falls below zero and shrinks as time passes.
\<close>

theorem decay_shrinks_old_samples:
  assumes "0 \<le> se_sample_size e" "current_since s \<le> t" "t \<le> t'"
  shows "apply_decay t s e = e\<lparr>se_sample_size := se_sample_size (apply_decay t s e)\<rparr>
    \<and> 0 \<le> se_sample_size (apply_decay t' s e)
    \<and> se_sample_size (apply_decay t' s e) \<le> se_sample_size (apply_decay t s e)
    \<and> se_sample_size (apply_decay t s e) \<le> se_sample_size e
    \<and> (patch_newer (current_patch s) (se_patch e) \<or> apply_decay t s e = e)
    \<and> apply_decay (current_since s) s e = e"
  using decayed_range [OF assms(1), of "t - current_since s"] decayed_range [OF assms(1), of "t' - current_since s"]
    decayed_mono [OF assms(1), of "t - current_since s" "t' - current_since s"] assms(2,3)
  by (simp add: apply_decay_def Let_def decayed_fresh)

section \<open>Witnesses\<close>

definition stat_of :: "string \<Rightarrow> int \<Rightarrow> int \<Rightarrow> stat_entry" where
  "stat_of pt sq n = (sample_stat sq n)\<lparr>se_patch := pt\<rparr>"

theorem current_patch_newest_witness:
  "current_patch (fold patch_step [Notified 0 ''17.3'', Tracked 1 (stat_of ''17.10'' 1 499), Tracked 2 (stat_of ''17.9'' 1 500)]
     (new_server 0 ''a'' new_lsm)) = ''17.9''"
proof -
  let ?evs = "[Notified 0 ''17.3'', Tracked 1 (stat_of ''17.10'' 1 499), Tracked 2 (stat_of ''17.9'' 1 500)]"
  have p: "parse_patch ''17.3'' = Some (17, 3)" "parse_patch ''17.10'' = Some (17, 10)" "parse_patch ''17.9'' = Some (17, 9)"
    by code_simp+
  have c: "candidates ?evs = {''17.3'', ''17.9''}"
    by (auto simp: candidates_def stat_of_def sample_stat_def PROMOTE_THRESHOLD_def)
  have "\<forall>ev\<in>set ?evs. event_patch ev \<noteq> [] \<longrightarrow> parse_patch (event_patch ev) \<noteq> None"
    by (simp add: p stat_of_def)
  from current_patch_newest [OF this, of "Notified 0 ''17.3''" 0 "''a''" new_lsm]
  show ?thesis by (auto simp: c p patch_newer_def)
qed

theorem decay_shrinks_old_samples_witness:
  "se_sample_size (apply_decay 24 ((new_server 0 ''a'' new_lsm)\<lparr>current_patch := ''17.10''\<rparr>) (stat_of ''17.9'' 1 100)) = 85
   \<and> se_sample_size (apply_decay 48 ((new_server 0 ''a'' new_lsm)\<lparr>current_patch := ''17.10''\<rparr>) (stat_of ''17.9'' 1 100)) \<le> 85"
proof -
  let ?s = "(new_server 0 ''a'' new_lsm)\<lparr>current_patch := ''17.10''\<rparr>" and ?e = "stat_of ''17.9'' 1 100"
  have "patch_newer ''17.10'' ''17.9''" by code_simp
  then have "se_sample_size (apply_decay 24 ?s ?e) = 85"
    using decayed_day [of 1] by (simp add: apply_decay_def Let_def stat_of_def sample_stat_def new_server_def)
  moreover have "se_sample_size (apply_decay 48 ?s ?e) \<le> se_sample_size (apply_decay 24 ?s ?e)"
    using decay_shrinks_old_samples [of ?e ?s 24 48] by (simp add: stat_of_def sample_stat_def new_server_def)
  ultimately show ?thesis by simp
qed

text \<open>One owner that can be heard suffices for an answer, and it may be the one that missed the write.\<close>

lemma read_without_quorum:
  "fst (server_read [''a'', ''b'', ''c''] (\<lambda>_. Dead) 0 (store_key (sample_stat 2 10))
     (new_server 0 ''a'' (store_run (\<lambda>_. 100) [Write disk_up (sample_stat 1 10)] new_lsm))) = Some (sample_stat 1 10)"
  by code_simp

theorem quorum_read_sees_write_witness:
  "fst (server_read [''a'', ''b'', ''c''] (\<lambda>x. if x = ''c'' then Answer (Some (sample_stat 2 10)) else Dead) 0 (store_key (sample_stat 2 10))
     (new_server 0 ''a'' (store_run (\<lambda>_. 100) [Write disk_up (sample_stat 1 10)] new_lsm))) = Some (sample_stat 2 10)"
proof -
  let ?own = "[''a'', ''b'', ''c'']" and ?e = "sample_stat 2 10" and ?old = "sample_stat 1 10"
  let ?held = "\<lambda>x. if x = ''a'' then {?old} else if x = ''b'' \<or> x = ''c'' then {?e} else {}"
  let ?remote = "\<lambda>x. if x = ''c'' then Answer (Some ?e) else Dead"
  let ?s = "new_server 0 ''a'' (store_run (\<lambda>_. 100) [Write disk_up ?old] new_lsm)"
  have key: "store_key (sample_stat a b) = store_key ?e" for a b by (simp add: store_key_def sample_stat_def)
  have good: "good_clock (se_clock (sample_stat a b)) \<longleftrightarrow> 0 \<le> a" for a b
    by (simp add: sample_stat_def good_clock_def wf_clock_def)
  have rank: "entry_rank (sample_stat a b) = (a, b)" for a b by (simp add: entry_rank_def vc_total_def sample_stat_def)
  have wr: "server_write (\<lambda>_. 100) disk_up ?own (map snd [(''a'', False), (''c'', True)]) 0 ?e (new_server 0 ''b'' new_lsm)
      = (Some True, snd (server_write (\<lambda>_. 100) disk_up ?own (map snd [(''a'', False), (''c'', True)]) 0 ?e (new_server 0 ''b'' new_lsm)))"
    by code_simp
  have "store_log [Write disk_up ?old] = {?old}" by (simp add: store_log_def disk_up_def)
  then have "lsm_inv {?old} (srv_lsm ?s)"
    using store_run_inv [OF lsm_inv_new, of "[Write disk_up ?old]" "\<lambda>_. 100"] by (simp add: all_good_def good new_server_def)
  then have ok: "members_ok ?held (store_key ?e) ?remote ?s"
    by (simp add: members_ok_def all_good_def good new_server_def best_in_def with_key_def)
  have "answering (srv_self ?s) ?remote ?own = {''a'', ''c''}" by (auto simp: answering_def new_server_def)
  then have heard: "2 \<le> card (answering (srv_self ?s) ?remote ?own)" by simp
  obtain r s' where read: "server_read ?own ?remote 0 (store_key ?e) ?s = (r, s')" by fastforce
  from quorum_read_sees_write [OF _ _ wr _ _ _ _ ok heard read]
  obtain x where x: "r = Some (apply_decay 0 ?s x)" "entry_rank ?e \<le> entry_rank x" "\<exists>m\<in>set ?own. x \<in> ?held m"
    by (auto simp: new_server_def)
  then have "x = ?e" by (auto simp: rank split: if_splits)
  with x(1) show ?thesis unfolding read by (simp add: apply_decay_def new_server_def)
qed

end
