(* ===== verification/Clients.thy ===== *)
theory Clients
  imports Meta_Server
begin

text \<open>
  The gRPC clients, \<open>common/clients.py\<close>: the requests their methods build, what they take from the
  answers and what they raise. The generated stubs are records of functions on the state of the
  server: \<open>None\<close> when the call ends with an \<open>RpcError\<close>; the messages of a stream are those that
  arrive before it ends.
\<close>

section \<open>Messages\<close>

record 'p publish_request =
  pq_topic :: string
  pq_payload :: 'p
  pq_region :: string
  pq_tier :: string

record publish_response =
  pr_success :: bool
  pr_offset :: int

record subscribe_request =
  sq_topic :: string
  sq_consumer_group :: string
  sq_offset :: int
  sq_region :: string
  sq_tier :: string

record 'p subscribe_response =
  sr_payload :: 'p
  sr_offset :: int

record read_request =
  rq_entity_id :: string
  rq_patch :: string
  rq_tier :: string
  rq_region :: string

record read_response =
  rr_entry :: stat_entry
  rr_found :: bool

section \<open>Channels and stubs\<close>

definition CHANNEL_OPTS :: "(string \<times> int) list" where
  "CHANNEL_OPTS = [(''grpc.max_send_message_length'', 32 * 1024 * 1024), (''grpc.max_receive_message_length'', 32 * 1024 * 1024)]"

record client =
  cl_addr :: string
  cl_options :: "(string \<times> int) list"
  cl_open :: bool

record ('p, 'b) broker_stub =
  Publish :: "'p publish_request \<Rightarrow> 'b \<Rightarrow> publish_response option \<times> 'b"
  Subscribe :: "subscribe_request \<Rightarrow> 'b \<Rightarrow> 'p subscribe_response list"

record 'm meta_stub =
  Write_call :: "stat_entry \<Rightarrow> 'm \<Rightarrow> bool option \<times> 'm"
  Read_call :: "read_request \<Rightarrow> 'm \<Rightarrow> read_response option \<times> 'm"
  Scan_call :: "scan_request \<Rightarrow> 'm \<Rightarrow> stat_entry list option \<times> 'm"

text \<open>\<open>grpc.RpcError\<close>, and the \<open>ValueError\<close> of a call on a closed channel.\<close>

datatype call_exc = RpcError | ClosedChannel

definition new_client :: "string \<Rightarrow> client" where
  "new_client addr = \<lparr>cl_addr = addr, cl_options = CHANNEL_OPTS, cl_open = True\<rparr>"

definition close :: "client \<Rightarrow> client" where
  "close c = c\<lparr>cl_open := False\<rparr>"

definition call :: "client \<Rightarrow> ('s \<Rightarrow> 'r option \<times> 's) \<Rightarrow> 's \<Rightarrow> (call_exc + 'r) \<times> 's" where
  "call c rpc s =
     (if \<not> cl_open c then (Inl ClosedChannel, s)
      else case rpc s of (None, s') \<Rightarrow> (Inl RpcError, s') | (Some r, s') \<Rightarrow> (Inr r, s'))"

section \<open>The broker's client\<close>

definition publish ::
    "('p, 'b) broker_stub \<Rightarrow> client \<Rightarrow> string \<Rightarrow> 'p \<Rightarrow> string \<Rightarrow> string \<Rightarrow> 'b \<Rightarrow> (call_exc + int) \<times> 'b" where
  "publish stub c topic payload rgn tr b =
     (case call c (Publish stub \<lparr>pq_topic = topic, pq_payload = payload, pq_region = rgn, pq_tier = tr\<rparr>) b of
        (Inl x, b') \<Rightarrow> (Inl x, b')
      | (Inr resp, b') \<Rightarrow> (Inr (pr_offset resp), b'))"

text \<open>The tuples that the generator yields before its stream ends.\<close>

definition subscribe ::
    "('p, 'b) broker_stub \<Rightarrow> client \<Rightarrow> string \<Rightarrow> string \<Rightarrow> int \<Rightarrow> string \<Rightarrow> string \<Rightarrow> 'b \<Rightarrow> (int \<times> 'p) list" where
  "subscribe stub c topic grp offset rgn tr b =
     (if \<not> cl_open c then []
      else map (\<lambda>msg. (sr_offset msg, sr_payload msg))
        (Subscribe stub \<lparr>sq_topic = topic, sq_consumer_group = grp, sq_offset = offset, sq_region = rgn, sq_tier = tr\<rparr> b))"

section \<open>The meta store's client\<close>

definition new_store_client :: "string \<Rightarrow> client" where
  "new_store_client addr = \<lparr>cl_addr = addr, cl_options = CHANNEL_OPTS, cl_open = True\<rparr>"

definition store_close :: "client \<Rightarrow> client" where
  "store_close c = c\<lparr>cl_open := False\<rparr>"

definition store_write_call :: "'m meta_stub \<Rightarrow> client \<Rightarrow> stat_entry \<Rightarrow> 'm \<Rightarrow> (call_exc + bool) \<times> 'm" where
  "store_write_call stub c e m = call c (Write_call stub e) m"

definition store_read_call ::
    "'m meta_stub \<Rightarrow> client \<Rightarrow> string \<Rightarrow> string \<Rightarrow> string \<Rightarrow> string \<Rightarrow> 'm \<Rightarrow> (call_exc + stat_entry option) \<times> 'm" where
  "store_read_call stub c eid pt tr rgn m =
     (case call c (Read_call stub \<lparr>rq_entity_id = eid, rq_patch = pt, rq_tier = tr, rq_region = rgn\<rparr>) m of
        (Inl x, m') \<Rightarrow> (Inl x, m')
      | (Inr resp, m') \<Rightarrow> (Inr (if rr_found resp then Some (rr_entry resp) else None), m'))"

definition store_scan_call ::
    "'m meta_stub \<Rightarrow> client \<Rightarrow> string \<Rightarrow> string \<Rightarrow> string \<Rightarrow> string \<Rightarrow> int \<Rightarrow> 'm \<Rightarrow> (call_exc + stat_entry list) \<times> 'm" where
  "store_scan_call stub c etype pt tr rgn limit m =
     call c (Scan_call stub \<lparr>sc_entity_type = etype, sc_patch = pt, sc_tier = tr, sc_region = rgn, sc_limit = limit\<rparr>) m"

section \<open>What the services make of the calls\<close>

text \<open>
  A raised exception is \<open>None\<close> in the models of the processor, the API service and the anomaly
  service.
\<close>

definition raised :: "(call_exc + 'a) \<Rightarrow> 'a option" where
  "raised r = (case r of Inl x \<Rightarrow> None | Inr a \<Rightarrow> Some a)"

definition processor_write :: "'m meta_stub \<Rightarrow> client \<Rightarrow> stat_entry \<Rightarrow> 'm \<Rightarrow> bool option \<times> 'm" where
  "processor_write stub c e m = (case store_write_call stub c e m of (r, m') \<Rightarrow> (raised r, m'))"

definition service_scan :: "'m meta_stub \<Rightarrow> client \<Rightarrow> 'm \<Rightarrow> string \<Rightarrow> string \<Rightarrow> string \<Rightarrow> stat_entry list option" where
  "service_scan stub c m etype pt rgn = raised (fst (store_scan_call stub c etype pt [] rgn 0 m))"

definition anomaly_scan :: "'m meta_stub \<Rightarrow> client \<Rightarrow> 'm \<Rightarrow> string \<Rightarrow> stat_entry list option" where
  "anomaly_scan stub c m etype = raised (fst (store_scan_call stub c etype [] [] [] 0 m))"

section \<open>A meta store that is the only member of its ring\<close>

definition read_key :: "read_request \<Rightarrow> string" where
  "read_key req = rq_entity_id req @ '':'' @ rq_patch req @ '':'' @ rq_tier req @ '':'' @ rq_region req"

definition empty_stat :: stat_entry where
  "empty_stat =
     \<lparr>se_entity_id = [], se_entity_type = [], se_patch = [], se_region = [], se_tier = [], se_win_rate = 0,
      se_avg_placement = 0, se_play_rate = 0, se_sample_size = 0, se_clock = []\<rparr>"

definition single_member ::
    "(stat_entry \<Rightarrow> int) \<Rightarrow> disk \<Rightarrow> (stat_entry list \<Rightarrow> stat_entry list) \<Rightarrow> py_float \<Rightarrow> server meta_stub" where
  "single_member psize io order now =
     \<lparr>Write_call = (\<lambda>e s. server_write psize io [srv_self s] [] now e s),
      Read_call = (\<lambda>req s.
        case server_read [srv_self s] (\<lambda>_. Dead) now (read_key req) s of
          (None, s') \<Rightarrow> (Some \<lparr>rr_entry = empty_stat, rr_found = False\<rparr>, s')
        | (Some e, s') \<Rightarrow> (Some \<lparr>rr_entry = e, rr_found = True\<rparr>, s')),
      Scan_call = (\<lambda>req s. (Some (server_scan order [] now req s), s))\<rparr>"

lemma single_write:
  "server_write psize io [srv_self s] [] now e s =
     (case local_write psize io e (track_patch now e s) of (ok, s') \<Rightarrow> (Some ok, s'))"
proof -
  have "srv_self (track_patch now e s) = srv_self s" by (simp add: track_patch_def see_patch_def Let_def)
  then show ?thesis
    by (auto simp: server_write_def Let_def write_owner_def WRITE_QUORUM_def split: prod.splits)
qed

lemma single_read:
  "server_read [srv_self s] (\<lambda>_. Dead) now key s =
     (case local_read key s of (r, s') \<Rightarrow> (map_option (apply_decay now s') r, s'))"
  by (auto simp: server_read_def order_self_first_def pick_newer_def READ_QUORUM_def split: prod.splits)

lemma single_scan:
  assumes "\<And>xs. mset (order xs) = mset xs"
  shows "set (server_scan order [] now (req\<lparr>sc_limit := 0\<rparr>) s)
    = apply_decay now s ` snd ` set (fold merge_entry (lsm_scan (scan_predicate (req\<lparr>sc_limit := 0\<rparr>)) (srv_lsm s)) [])"
proof -
  have "set (order xs) = set xs" for xs using arg_cong [OF assms, of set_mset xs] by simp
  then show ?thesis by (simp add: server_scan_def Let_def)
qed

lemma calls_of_single_member:
  "cl_open c \<Longrightarrow> processor_write (single_member psize io order now) c e s = server_write psize io [srv_self s] [] now e s"
  "cl_open c \<Longrightarrow> service_scan (single_member psize io order now) c s etype pt rgn
     = Some (server_scan order [] now \<lparr>sc_entity_type = etype, sc_patch = pt, sc_tier = [], sc_region = rgn, sc_limit = 0\<rparr> s)"
  "cl_open c \<Longrightarrow> anomaly_scan (single_member psize io order now) c s etype
     = Some (server_scan order [] now \<lparr>sc_entity_type = etype, sc_patch = [], sc_tier = [], sc_region = [], sc_limit = 0\<rparr> s)"
  by (simp_all add: processor_write_def store_write_call_def call_def single_member_def raised_def service_scan_def
      anomaly_scan_def store_scan_call_def single_write split: prod.splits)

end
