(* ===== verification/Store_Pipeline.thy ===== *)
theory Store_Pipeline
  imports Processor Lsm
begin

text \<open>
  The processor together with the store it writes to. \<open>store_write\<close> is what a meta store that is
  the only member of its ring does with a write request; between two writes of the processor
  anything that is not a write may happen in the store (\<open>between\<close>): reads of the other services,
  flushes, crashes.
\<close>

section \<open>Writing to the store\<close>

definition store_write ::
    "(stat_entry \<Rightarrow> int) \<Rightarrow> (nat \<Rightarrow> disk) \<Rightarrow> (nat \<Rightarrow> store_op list) \<Rightarrow> stat_entry \<Rightarrow> nat \<times> lsm \<Rightarrow> bool option \<times> nat \<times> lsm" where
  "store_write psize io between e s =
     (case s of (n, st) \<Rightarrow>
        (case lsm_write psize (io n) e (store_run psize (between n) st) of (ok, st') \<Rightarrow> (Some ok, n + 1, st')))"

fun write_ops :: "(nat \<Rightarrow> disk) \<Rightarrow> (nat \<Rightarrow> store_op list) \<Rightarrow> nat \<Rightarrow> stat_entry list \<Rightarrow> store_op list" where
  "write_ops io between n [] = []"
| "write_ops io between n (e # es) = between n @ Write (io n) e # write_ops io between (Suc n) es"

lemma store_run_append [simp]: "store_run psize (xs @ ys) st = store_run psize ys (store_run psize xs st)"
  by (simp add: store_run_def)

lemma store_run_Cons [simp]: "store_run psize (x # xs) st = store_run psize xs (store_step psize x st)"
  by (simp add: store_run_def)

lemma write_ops_append [simp]:
  "write_ops io between n (xs @ ys) = write_ops io between n xs @ write_ops io between (n + length xs) ys"
  by (induction xs arbitrary: n) simp_all

lemma write_entries_run:
  "snd (snd (write_entries (store_write psize io between) es w mt (n, st)))
     = (n + length es, store_run psize (write_ops io between n es) st)"
proof (induction es arbitrary: w mt n st)
  case Nil
  then show ?case by (simp add: store_run_def)
next
  case (Cons e es)
  obtain ok st' where w: "lsm_write psize (io n) e (store_run psize (between n) st) = (ok, st')" by fastforce
  show ?case using Cons.IH by (simp add: store_write_def w)
qed

definition flush_ops ::
    "(nat \<Rightarrow> disk) \<Rightarrow> (nat \<Rightarrow> store_op list) \<Rightarrow> (stat_entry \<Rightarrow> int) \<Rightarrow> (vector_clock \<times> stat_entry list) option \<Rightarrow>
     nat \<times> lsm \<Rightarrow> nat \<times> lsm" where
  "flush_ops io between psize out s =
     (case out of None \<Rightarrow> s
      | Some (c, es) \<Rightarrow> (fst s + length es, store_run psize (write_ops io between (fst s) es) (snd s)))"

lemma do_flush_store:
  assumes "do_flush np_mean (store_write psize io between) p s = (out, p', s')"
  shows "s' = flush_ops io between psize out s"
proof -
  obtain n st where s: "s = (n, st)" by fastforce
  let ?c = "AList.update (node_id p) (flush_seq p + 1) (merged_clock p)"
  obtain es agg where f: "flush np_mean ?c (p_aggregator p) = (es, agg)" by fastforce
  obtain w mt s1 where w: "write_entries (store_write psize io between) es 0 (p_metrics p) s = (w, mt, s1)"
    by (metis surj_pair)
  have "s1 = (n + length es, store_run psize (write_ops io between n es) st)"
    using write_entries_run [of psize io between es 0 "p_metrics p" n st] w by (simp add: s)
  with assms show ?thesis by (auto simp: do_flush_def Let_def f w [unfolded s] flush_ops_def s split: if_splits)
qed

lemma turn_store:
  assumes "turn np_mean (store_write psize io between) env lf p s = (out, lf', p', s')"
  shows "s' = flush_ops io between psize out s"
proof -
  obtain q where m: "maybe_flush np_mean (store_write psize io between) (check_time env) (end_time env) lf q s = (out, lf', p', s')"
    using assms unfolding turn_def Let_def by (simp only: split: prod.splits)
  show ?thesis
  proof (cases "out = None \<and> s' = s")
    case True
    then show ?thesis by (simp add: flush_ops_def)
  next
    case False
    with m obtain p1 where "do_flush np_mean (store_write psize io between) q s = (out, p1, s')"
      by (auto simp: maybe_flush_def Let_def split: if_splits prod.splits)
    then show ?thesis by (rule do_flush_store)
  qed
qed

definition written :: "(vector_clock \<times> stat_entry list) list \<Rightarrow> stat_entry list" where
  "written outs = concat (map snd outs)"

lemma run_store:
  assumes "run_loop np_mean (store_write psize io between) envs lf p (n, st) = (outs, lf', p', s)"
  shows "s = (n + length (written outs), store_run psize (write_ops io between n (written outs)) st)"
  using assms
proof (induction envs arbitrary: lf p n st outs)
  case Nil
  then show ?case by (simp add: written_def store_run_def)
next
  case (Cons env envs)
  obtain out lf1 p1 s1 where t: "turn np_mean (store_write psize io between) env lf p (n, st) = (out, lf1, p1, s1)"
    by (metis surj_pair)
  obtain n1 st1 where s1: "s1 = (n1, st1)" by fastforce
  obtain rest where r: "run_loop np_mean (store_write psize io between) envs lf1 p1 s1 = (rest, lf', p', s)"
    and o: "outs = (case out of None \<Rightarrow> rest | Some x \<Rightarrow> x # rest)"
    using Cons.prems t by (auto split: prod.splits)
  from Cons.IH [OF r [unfolded s1]] turn_store [OF t] s1
  show ?case unfolding o by (cases out) (auto simp: written_def flush_ops_def)
qed

section \<open>The clocks of what is written\<close>

lemma flush_clock: "e \<in> set (fst (flush np_mean c agg)) \<Longrightarrow> se_clock e = c"
  by (auto simp: flush_def set_map_filter_some flush_entry_def Let_def split: if_splits)

lemma good_update: "good_clock c \<Longrightarrow> 0 \<le> v \<Longrightarrow> good_clock (AList.update k v c)"
proof -
  assume g: "good_clock c" and v: "0 \<le> v"
  have "set (AList.update k v c) \<subseteq> insert (k, v) (set c)" by (induction c) auto
  with g v have "list_all (\<lambda>(k, v). 0 \<le> v) (AList.update k v c)" unfolding good_clock_def list_all_iff by fast
  with g show ?thesis by (simp add: good_clock_def wf_clock_def distinct_update)
qed

lemma good_merge: "good_clock c \<Longrightarrow> good_clock (merge_clock e c)"
proof -
  have "good_clock (fold (\<lambda>(node, sq) c. if sq > dict_get c node 0 then AList.update node sq c else c) kvs c)"
    if "good_clock c" for kvs c
    using that
  proof (induction kvs arbitrary: c)
    case (Cons p kvs)
    obtain k v where p: "p = (k, v)" by fastforce
    have "good_clock (AList.update k v c)" if "v > dict_get c k 0"
      using good_update [OF Cons.prems] good_clock_get [OF Cons.prems, of k] that by simp
    with Cons show ?case by (simp add: p)
  qed simp
  then show "good_clock c \<Longrightarrow> good_clock (merge_clock e c)" by (simp add: merge_clock_def)
qed

lemma good_merges: "good_clock c \<Longrightarrow> good_clock (fold merge_clock es c)"
  by (induction es arbitrary: c) (simp_all add: good_merge)

definition good_flush :: "vector_clock \<times> stat_entry list \<Rightarrow> bool" where
  "good_flush x \<longleftrightarrow> good_clock (fst x) \<and> (\<forall>e\<in>set (snd x). se_clock e = fst x)"

lemma turn_good:
  assumes "turn np_mean write env lf p store = (out, lf', p', store')" "rb_inv (p_reorder p)"
    "good_clock (merged_clock p)" "0 \<le> flush_seq p"
  shows "rb_inv (p_reorder p') \<and> good_clock (merged_clock p') \<and> 0 \<le> flush_seq p'
    \<and> (case out of None \<Rightarrow> True | Some x \<Rightarrow> good_flush x)"
  using turn_spec [OF assms(1,2)] assms(3,4)
  by (auto simp: flush_outcome_def good_flush_def intro!: good_merges good_update dest: flush_clock split: option.splits)

lemma run_good:
  assumes "run_loop np_mean write envs lf p store = (outs, r)" "rb_inv (p_reorder p)"
    "good_clock (merged_clock p)" "0 \<le> flush_seq p"
  shows "\<forall>x\<in>set outs. good_flush x"
  using assms
proof (induction envs arbitrary: lf p store outs)
  case (Cons env envs)
  obtain out lf1 p1 s1 where t: "turn np_mean write env lf p store = (out, lf1, p1, s1)"
    by (metis surj_pair)
  obtain rest where r: "run_loop np_mean write envs lf1 p1 s1 = (rest, r)"
    and o: "outs = (case out of None \<Rightarrow> rest | Some x \<Rightarrow> x # rest)"
    using Cons.prems(1) t by (auto split: prod.splits)
  note g = turn_good [OF t Cons.prems(2-4)]
  then have "\<forall>x\<in>set rest. good_flush x" using Cons.IH [OF r] by blast
  with g show ?case unfolding o by (auto split: option.splits)
qed simp

lemma new_processor_start:
  "rb_inv (p_reorder (new_processor nid))" "good_clock (merged_clock (new_processor nid))"
  "flush_seq (new_processor nid) = 0" "node_id (new_processor nid) = nid"
  by (simp_all add: new_processor_def rb_inv_new good_clock_def wf_clock_def)

lemma run_totals:
  assumes "run_loop np_mean write envs lf (new_processor nid) store = (outs, r)"
  shows "sorted_wrt (\<lambda>x y. vc_total (fst x) < vc_total (fst y)) outs"
proof -
  note run = run_loop_clocks [OF assms new_processor_start(1), unfolded new_processor_start(3,4)]
  have "sorted_wrt (<) (map (own_seq nid) outs)" using run by simp
  then have own: "sorted_wrt (\<lambda>x y. own_seq nid x < own_seq nid y) outs" by (simp add: sorted_wrt_map)
  have good: "good_clock (fst x)" if "x \<in> set outs" for x
    using run_good [OF assms new_processor_start(1,2)] that by (simp add: new_processor_start(3) good_flush_def)
  show ?thesis
  proof (rule sorted_wrt_mono_rel)
    show "sorted_wrt (\<lambda>x y. own_seq nid x < own_seq nid y \<and> clock_below (fst x) nid y) outs"
      using own run by (auto simp: sorted_wrt_iff_nth_less)
    fix x y assume "x \<in> set outs" "y \<in> set outs" "own_seq nid x < own_seq nid y \<and> clock_below (fst x) nid y"
    moreover from this(3) have "\<forall>k. dict_get (fst x) k 0 \<le> dict_get (fst y) k 0"
      unfolding clock_below_def own_seq_def by (metis less_le)
    ultimately show "vc_total (fst x) < vc_total (fst y)"
      using total_mono(2) [OF good good, of y x nid] by (simp add: own_seq_def)
  qed
qed

section \<open>What the store answers\<close>

text \<open>The entries of the last flush with an entry for the key.\<close>

definition last_holding :: "string \<Rightarrow> (vector_clock \<times> stat_entry list) list \<Rightarrow> stat_entry list" where
  "last_holding k outs =
     (case filter (\<lambda>x. k \<in> set (map store_key (snd x))) (rev outs) of [] \<Rightarrow> [] | x # _ \<Rightarrow> snd x)"

lemma last_holding_split:
  assumes "with_key k (set (written outs)) \<noteq> {}"
  obtains pre x post where "outs = pre @ x # post" "last_holding k outs = snd x"
    "with_key k (set (snd x)) \<noteq> {}" "\<And>y. y \<in> set post \<Longrightarrow> with_key k (set (snd y)) = {}"
proof -
  have ex: "\<exists>x\<in>set outs. k \<in> set (map store_key (snd x))"
    using assms by (auto simp: written_def with_key_def)
  then obtain pre x post where s: "outs = pre @ x # post" "k \<in> set (map store_key (snd x))"
    "\<forall>y\<in>set post. k \<notin> set (map store_key (snd y))"
    using split_list_last_prop [OF ex] by blast
  then have "filter (\<lambda>x. k \<in> set (map store_key (snd x))) (rev post) = []" by (simp add: filter_empty_conv)
  then have "last_holding k outs = snd x" using s(2) by (simp add: last_holding_def s(1))
  then show ?thesis
  proof (rule that [OF s(1)])
    show "with_key k (set (snd x)) \<noteq> {}" using s(2) by (auto simp: with_key_def)
    show "with_key k (set (snd y)) = {}" if "y \<in> set post" for y
      using bspec [OF s(3) that] by (auto simp: with_key_def)
  qed
qed

lemma last_holding_none: "with_key k (set (written outs)) = {} \<Longrightarrow> last_holding k outs = []"
proof -
  assume "with_key k (set (written outs)) = {}"
  then have "filter (\<lambda>x. k \<in> set (map store_key (snd x))) (rev outs) = []"
    by (auto simp: filter_empty_conv written_def with_key_def)
  then show "last_holding k outs = []" by (simp add: last_holding_def)
qed

text \<open>Entries of the flush with the greatest total beat all others of the key.\<close>

lemma best_of_flush:
  assumes b: "best_in (with_key k W) r" and sub: "set es \<subseteq> W" and ne: "with_key k (set es) \<noteq> {}"
    and clock: "\<forall>e\<in>set es. vc_total (se_clock e) = t"
    and less: "\<forall>e\<in>with_key k W - set es. vc_total (se_clock e) < t"
  shows "best_in (with_key k (set es)) r"
proof -
  from ne obtain e where e: "e \<in> set es" "store_key e = k" by (auto simp: with_key_def)
  have "e \<in> with_key k W" using e sub by (auto simp: with_key_def)
  from best_in_exists [OF b this] obtain x where x: "r = Some x" "x \<in> with_key k W" "entry_rank e \<le> entry_rank x" by blast
  have "x \<in> set es"
  proof (rule ccontr)
    assume "x \<notin> set es"
    then have "vc_total (se_clock x) < vc_total (se_clock e)" using less x(2) clock e(1) by simp
    with x(3) show False by (simp add: entry_rank_def)
  qed
  with b x sub show ?thesis by (auto simp: best_in_def with_key_def)
qed

lemma write_ops_log:
  assumes "\<forall>i. wal_ok (io i)" "\<forall>i. store_log (between i) = {}"
  shows "store_log (write_ops io between n es) = set es"
  using assms by (induction es arbitrary: n) (auto simp: store_log_def)

definition answer_after :: "(stat_entry \<Rightarrow> int) \<Rightarrow> (nat \<Rightarrow> store_op list) \<Rightarrow> string \<Rightarrow> nat \<times> lsm \<Rightarrow> stat_entry option" where
  "answer_after psize between k s = fst (lsm_read k (store_run psize (between (fst s)) (snd s)))"

lemma good_written: "\<forall>x\<in>set outs. good_flush x \<Longrightarrow> all_good (set (written outs))"
  by (fastforce simp: all_good_def written_def good_flush_def)

text \<open>A run on a store that already holds the entries \<open>W\<close>.\<close>

lemma run_answer:
  assumes run: "run_loop np_mean (store_write psize io between) envs lf (new_processor nid) (n, st) = (outs, lf', p', s)"
    and inv: "lsm_inv W st" "all_good W"
    and io: "\<forall>i. wal_ok (io i)" and quiet: "\<forall>i. store_log (between i) = {}"
  shows "best_in (with_key k (set (written outs) \<union> W)) (answer_after psize between k s)"
    and "lsm_inv (set (written outs) \<union> W) (snd s)" and "all_good (set (written outs) \<union> W)"
proof -
  let ?W = "set (written outs) \<union> W" and ?ops = "write_ops io between n (written outs)"
  have s: "s = (n + length (written outs), store_run psize ?ops st)" by (rule run_store [OF run])
  have "\<forall>x\<in>set outs. good_flush x"
    using run_good [OF run new_processor_start(1,2)] by (simp add: new_processor_start(3))
  then show g: "all_good ?W" using inv(2) good_written by (simp add: all_good_def ball_Un)
  have l: "store_log ?ops = set (written outs)" by (rule write_ops_log [OF io quiet])
  show i: "lsm_inv ?W (snd s)"
    using store_run_inv [OF inv(1), of ?ops psize] g by (simp add: l s)
  have q: "store_log (between m) = {}" for m using quiet by blast
  have "lsm_inv ?W (store_run psize (between (fst s)) (snd s))"
    using store_run_inv [OF i, of "between (fst s)" psize] g by (simp add: q)
  from lsm_read_best(1) [OF this g] show "best_in (with_key k ?W) (answer_after psize between k s)"
    by (simp add: answer_after_def)
qed

lemma last_flush_wins:
  assumes run: "run_loop np_mean write envs lf (new_processor nid) store = (outs, r)"
    and ne: "with_key k (set (written outs)) \<noteq> {}"
  obtains t where "set (last_holding k outs) \<subseteq> set (written outs)" "with_key k (set (last_holding k outs)) \<noteq> {}"
    "\<forall>e\<in>set (last_holding k outs). vc_total (se_clock e) = t"
    "\<forall>e\<in>with_key k (set (written outs)) - set (last_holding k outs). vc_total (se_clock e) < t"
proof -
  from ne obtain pre x post where o: "outs = pre @ x # post" and l: "last_holding k outs = snd x"
    and kx: "with_key k (set (snd x)) \<noteq> {}" and after: "\<And>y. y \<in> set post \<Longrightarrow> with_key k (set (snd y)) = {}"
    by (rule last_holding_split) blast
  have good: "\<forall>x\<in>set outs. good_flush x"
    using run_good [OF run new_processor_start(1,2)] by (simp add: new_processor_start(3))
  have less: "vc_total (fst y) < vc_total (fst x)" if "y \<in> set pre" for y
    using run_totals [OF run] that by (simp add: o sorted_wrt_append)
  have clock: "\<forall>e\<in>set (snd x). vc_total (se_clock e) = vc_total (fst x)"
    using good by (simp add: o good_flush_def)
  have old: "\<forall>e\<in>with_key k (set (written outs)) - set (snd x). vc_total (se_clock e) < vc_total (fst x)"
  proof
    fix e assume e: "e \<in> with_key k (set (written outs)) - set (snd x)"
    then obtain y where y: "y \<in> set outs" "e \<in> set (snd y)" "store_key e = k" "e \<notin> set (snd x)"
      by (auto simp: written_def with_key_def)
    then have "y \<in> set pre" using after [of y] by (auto simp: o with_key_def)
    with less y good show "vc_total (se_clock e) < vc_total (fst x)" by (simp add: good_flush_def)
  qed
  have "set (snd x) \<subseteq> set (written outs)" by (auto simp: o written_def)
  from that [unfolded l, OF this kx clock old] show ?thesis .
qed

text \<open>
  The store serves the last flush. Whatever events arrive, and whatever reads, flushes, disk
  failures other than of the log, and crashes the store goes through between two writes of the
  processor, a read of a key returns an entry for it from the last flush that had one: the one
  with the largest sample where the key stands for several entities. Each flush thus replaces the
  earlier statistics of the key; nothing is accumulated across flushes.
\<close>

theorem store_serves_last_flush:
  assumes run: "run_loop np_mean (store_write psize io between) envs lf (new_processor nid) (0, new_lsm) = (outs, lf', p', s)"
    and io: "\<forall>i. wal_ok (io i)" and quiet: "\<forall>i. store_log (between i) = {}"
  shows "best_in (with_key k (set (last_holding k outs))) (answer_after psize between k s)"
proof -
  let ?W = "set (written outs)"
  have b: "best_in (with_key k ?W) (answer_after psize between k s)"
    using run_answer(1) [OF run lsm_inv_new _ io quiet] by (simp add: all_good_def)
  show ?thesis
  proof (cases "with_key k ?W = {}")
    case True
    then have "with_key k (set (last_holding k outs)) = with_key k ?W"
      by (simp add: last_holding_none) (simp add: with_key_def)
    with b show ?thesis by simp
  next
    case False
    from last_flush_wins [OF run this] show ?thesis
      by (metis best_of_flush [OF b])
  qed
qed

definition shop_turn :: "match_event \<Rightarrow> py_float \<Rightarrow> turn_env" where
  "shop_turn m t = \<lparr>arrivals = [m], available = 1, push_time = t, pop_time = t + 100, check_time = t + 100, end_time = t + 100\<rparr>"

definition bard_key :: string where
  "bard_key = ''TFT17_Bard:17.3:GOLD:NA''"

definition one_crash :: "nat \<Rightarrow> store_op list" where
  "one_crash i = (if i = 3 then [Crash, Read bard_key] else [])"

lemma one_crash_quiet: "\<forall>i. store_log (one_crash i) = {}"
  by (simp add: one_crash_def store_log_def)

lemma best_in_single:
  assumes "best_in (with_key k (set es)) r" "map f (filter (\<lambda>e. store_key e = k) es) = [n]"
  shows "map_option f r = Some n"
proof -
  from assms(2) obtain e where f: "filter (\<lambda>e. store_key e = k) es = [e]" "f e = n" by auto
  then have "with_key k (set es) = {e}" unfolding with_key_def by (metis empty_set list.simps(15) set_filter)
  with assms(1) f(2) show ?thesis by (cases r) (auto simp: best_in_def)
qed

theorem store_serves_last_flush_witness:
  "map_option se_sample_size (answer_after (\<lambda>_. 100) one_crash bard_key
     (snd (snd (snd (run_loop exact_mean (store_write (\<lambda>_. 100) (\<lambda>_. disk_up) one_crash)
       [shop_turn sample_match 0, shop_turn (sample_match\<lparr>match_id := ''m2'', players := [sample_board 3]\<rparr>) 100]
       0 (new_processor ''p'') (0, new_lsm)))))) = Some 1"
proof -
  let ?run = "run_loop exact_mean (store_write (\<lambda>_. 100) (\<lambda>_. disk_up) one_crash)
       [shop_turn sample_match 0, shop_turn (sample_match\<lparr>match_id := ''m2'', players := [sample_board 3]\<rparr>) 100]
       0 (new_processor ''p'') (0, new_lsm)"
  obtain outs lf' p' s where r: "?run = (outs, lf', p', s)" by (metis surj_pair)
  have "map se_sample_size (filter (\<lambda>e. store_key e = bard_key) (last_holding bard_key (fst ?run))) = [1]"
    by code_simp
  then have "map se_sample_size (filter (\<lambda>e. store_key e = bard_key) (last_holding bard_key outs)) = [1]"
    by (simp only: r fst_conv)
  with store_serves_last_flush [OF r _ one_crash_quiet, of bard_key]
  show ?thesis unfolding r by (simp add: disk_up_def best_in_single)
qed

section \<open>After a restart\<close>

text \<open>
  C32. A restart can freeze what is served. The flush clocks of a processor that was started again
  begin anew while the store keeps its entries. As long as no flush of the new processor has a
  clock total as large as that of the last flush of the old one with the key, a read of the key
  still returns the old processor's entry, though the new one has been accepted and logged.
\<close>

theorem restart_serves_old:
  assumes run1: "run_loop np_mean (store_write psize io between) envs1 lf1 (new_processor nid) (0, new_lsm) = (outs1, lf1', p1, s1)"
    and run2: "run_loop np_mean (store_write psize io between) envs2 lf2 (new_processor nid') s1 = (outs2, lf2', p2, s2)"
    and io: "\<forall>i. wal_ok (io i)" and quiet: "\<forall>i. store_log (between i) = {}"
    and held: "last_holding k outs1 \<noteq> []"
    and behind: "\<forall>(c, es)\<in>set outs2. \<forall>e\<in>set (last_holding k outs1). vc_total c < vc_total (se_clock e)"
  shows "best_in (with_key k (set (last_holding k outs1))) (answer_after psize between k s2)"
proof -
  have ne: "with_key k (set (written outs1)) \<noteq> {}" using held last_holding_none by blast
  from last_flush_wins [OF run1 ne] obtain t where l: "set (last_holding k outs1) \<subseteq> set (written outs1)"
    "with_key k (set (last_holding k outs1)) \<noteq> {}" "\<forall>e\<in>set (last_holding k outs1). vc_total (se_clock e) = t"
    "\<forall>e\<in>with_key k (set (written outs1)) - set (last_holding k outs1). vc_total (se_clock e) < t" .
  note first = run_answer(2,3) [OF run1 lsm_inv_new _ io quiet, unfolded Un_empty_right]
  obtain n st where s1: "s1 = (n, st)" by fastforce
  have "lsm_inv (set (written outs1)) st" "all_good (set (written outs1))"
    using first by (simp_all add: s1 all_good_def)
  from run_answer(1) [OF run2 [unfolded s1] this io quiet]
  have b: "best_in (with_key k (set (written outs2) \<union> set (written outs1))) (answer_after psize between k s2)" .
  have good: "\<forall>x\<in>set outs2. good_flush x"
    using run_good [OF run2 new_processor_start(1,2)] by (simp add: new_processor_start(3))
  have "vc_total (se_clock e) < t" if "e \<in> set (written outs2)" for e
  proof -
    from that obtain x where x: "x \<in> set outs2" "e \<in> set (snd x)" by (auto simp: written_def)
    obtain e' where e': "e' \<in> set (last_holding k outs1)" using l(2) by (auto simp: with_key_def)
    from bspec [OF behind x(1)] e' have "vc_total (fst x) < vc_total (se_clock e')" by (cases x) auto
    with x good l(3) e' show ?thesis by (simp add: good_flush_def)
  qed
  then have "\<forall>e\<in>with_key k (set (written outs2) \<union> set (written outs1)) - set (last_holding k outs1). vc_total (se_clock e) < t"
    using l(4) by (auto simp: with_key_def)
  with best_of_flush [OF b _ l(2,3)] l(1) show ?thesis by blast
qed

definition late_match :: "int \<Rightarrow> int \<Rightarrow> match_event" where
  "late_match sq plc = sample_match\<lparr>clocks := [(''ingestor-1'', sq)], players := [sample_board plc]\<rparr>"

theorem restart_serves_old_witness:
  "map_option se_avg_placement (answer_after (\<lambda>_. 100) one_crash bard_key
     (snd (snd (snd (run_loop exact_mean (store_write (\<lambda>_. 100) (\<lambda>_. disk_up) one_crash) [shop_turn (late_match 1 8) 100] 100 (new_processor ''p'')
       (snd (snd (snd (run_loop exact_mean (store_write (\<lambda>_. 100) (\<lambda>_. disk_up) one_crash) [shop_turn (late_match 5 1) 0] 0 (new_processor ''p'')
         (0, new_lsm)))))))))) = Some 1"
proof -
  let ?run1 = "run_loop exact_mean (store_write (\<lambda>_. 100) (\<lambda>_. disk_up) one_crash) [shop_turn (late_match 5 1) 0] 0 (new_processor ''p'') (0, new_lsm)"
  obtain outs1 lf1' p1 s1 where r1: "?run1 = (outs1, lf1', p1, s1)" by (metis surj_pair)
  let ?run2 = "run_loop exact_mean (store_write (\<lambda>_. 100) (\<lambda>_. disk_up) one_crash) [shop_turn (late_match 1 8) 100] 100 (new_processor ''p'') s1"
  obtain outs2 lf2' p2 s2 where r2: "?run2 = (outs2, lf2', p2, s2)" by (metis surj_pair)
  have "(case ?run1 of (outs1, _, _, s1) \<Rightarrow>
      (let l = last_holding bard_key outs1
       in (map se_avg_placement (filter (\<lambda>e. store_key e = bard_key) l), list_all (\<lambda>e. vc_total (se_clock e) = 6) l,
        case run_loop exact_mean (store_write (\<lambda>_. 100) (\<lambda>_. disk_up) one_crash) [shop_turn (late_match 1 8) 100] 100
          (new_processor ''p'') s1 of (outs2, _) \<Rightarrow> map vc_total (map fst outs2)))) = ([1], True, [2])"
    by code_simp
  then have c: "map se_avg_placement (filter (\<lambda>e. store_key e = bard_key) (last_holding bard_key outs1)) = [1]
      \<and> (\<forall>e\<in>set (last_holding bard_key outs1). vc_total (se_clock e) = 6) \<and> map vc_total (map fst outs2) = [2]"
    unfolding r1 r2 Let_def prod.case prod.inject list_all_iff simp_thms by assumption
  note one = conjunct1 [OF c] and six = conjunct1 [OF conjunct2 [OF c]] and two = conjunct2 [OF conjunct2 [OF c]]
  have "vc_total (fst x) = 2" if "x \<in> set outs2" for x using two that by auto
  then have "\<forall>(c, es)\<in>set outs2. \<forall>e\<in>set (last_holding bard_key outs1). vc_total c < vc_total (se_clock e)"
    using six by fastforce
  moreover have "last_holding bard_key outs1 \<noteq> []" using one by auto
  ultimately have "best_in (with_key bard_key (set (last_holding bard_key outs1))) (answer_after (\<lambda>_. 100) one_crash bard_key s2)"
    using restart_serves_old [OF r1 r2 _ one_crash_quiet] by (simp add: disk_up_def)
  from best_in_single [OF this one] show ?thesis unfolding r1 snd_conv r2 .
qed

end
