(* ===== verification/Store_Service.thy ===== *)
theory Store_Service
  imports Clients Store_Pipeline Service
begin

text \<open>
  From the events to the scans of the services: the processor writes through its client to a meta
  store with one member, and the API service and the anomaly service scan that store through
  theirs. Between two writes the store may serve reads, flush and crash; a crash forgets the
  current patch.
\<close>

section \<open>The run of the processor on the server\<close>

definition server_op :: "(stat_entry \<Rightarrow> int) \<Rightarrow> py_float \<Rightarrow> store_op \<Rightarrow> server \<Rightarrow> server" where
  "server_op psize now p srv =
     (case p of
        Crash \<Rightarrow> new_server now (srv_self srv) (reopen psize (srv_lsm srv))
      | _ \<Rightarrow> srv\<lparr>srv_lsm := store_step psize p (srv_lsm srv)\<rparr>)"

definition server_ops :: "(stat_entry \<Rightarrow> int) \<Rightarrow> (nat \<Rightarrow> store_op list) \<Rightarrow> (nat \<Rightarrow> py_float) \<Rightarrow> nat \<times> server \<Rightarrow> server" where
  "server_ops psize between clock s = fold (server_op psize (clock (fst s))) (between (fst s)) (snd s)"

definition served_write ::
    "(stat_entry \<Rightarrow> int) \<Rightarrow> (nat \<Rightarrow> disk) \<Rightarrow> (stat_entry list \<Rightarrow> stat_entry list) \<Rightarrow> (nat \<Rightarrow> store_op list) \<Rightarrow> (nat \<Rightarrow> py_float) \<Rightarrow>
     client \<Rightarrow> stat_entry \<Rightarrow> nat \<times> server \<Rightarrow> bool option \<times> nat \<times> server" where
  "served_write psize io order between clock c e s =
     (case processor_write (single_member psize (io (fst s)) order (clock (fst s))) c e (server_ops psize between clock s) of
        (r, srv) \<Rightarrow> (r, fst s + 1, srv))"

definition stored :: "nat \<times> server \<Rightarrow> nat \<times> lsm" where
  "stored s = (fst s, srv_lsm (snd s))"

lemma server_ops_lsm: "srv_lsm (fold (server_op psize now) ps srv) = store_run psize ps (srv_lsm srv)"
  by (induction ps arbitrary: srv)
    (auto simp: server_op_def new_server_def store_run_def split: store_op.split)

lemma track_patch_lsm: "srv_lsm (track_patch now e s) = srv_lsm s"
  by (simp add: track_patch_def see_patch_def Let_def)

lemma served_write_stored:
  assumes "cl_open c"
  shows "store_write psize io between e (stored s) = map_prod id stored (served_write psize io order between clock c e s)"
  by (simp add: served_write_def calls_of_single_member(1) [OF assms] single_write store_write_def stored_def local_write_def
      server_ops_def server_ops_lsm track_patch_lsm split: prod.splits)

lemma write_entries_sim:
  assumes "\<And>e s. w1 e (f s) = map_prod id f (w2 e s)"
  shows "write_entries w1 es n mt (f s) = map_prod id (map_prod id f) (write_entries w2 es n mt s)"
proof (induction es arbitrary: n mt s)
  case (Cons e es)
  show ?case by (cases "w2 e s"; cases "fst (w2 e s)") (auto simp: assms Cons.IH)
qed simp

lemma turn_sim:
  assumes "\<And>e s. w1 e (f s) = map_prod id f (w2 e s)"
  shows "turn np_mean w1 env lf p (f s) = map_prod id (map_prod id (map_prod id f)) (turn np_mean w2 env lf p s)"
  by (simp add: turn_def maybe_flush_def do_flush_def Let_def write_entries_sim [where ?w1.0 = w1 and ?w2.0 = w2 and f = f, OF assms] split: prod.split)

lemma run_loop_sim:
  assumes "\<And>e s. w1 e (f s) = map_prod id f (w2 e s)"
  shows "run_loop np_mean w1 envs lf p (f s) = map_prod id (map_prod id (map_prod id f)) (run_loop np_mean w2 envs lf p s)"
proof (induction envs arbitrary: lf p s)
  case (Cons env envs)
  show ?case
    by (cases "turn np_mean w2 env lf p s") (simp add: turn_sim [where ?w1.0 = w1 and ?w2.0 = w2 and f = f, OF assms] Cons.IH split: prod.split)
qed simp

section \<open>Scanning\<close>

lemma update_new_key: "k \<notin> fst ` set d \<Longrightarrow> AList.update k v d = d @ [(k, v)]"
  by (induction d) auto

lemma merge_distinct:
  "distinct (map fst d @ map store_key es) \<Longrightarrow> fold merge_entry es d = d @ map (\<lambda>e. (store_key e, e)) es"
proof (induction es arbitrary: d)
  case (Cons e es)
  then have "store_key e \<notin> fst ` set d" by auto
  then have "merge_entry e d = d @ [(store_key e, e)]"
    by (simp add: merge_entry_def update_new_key map_of_eq_None_iff [THEN iffD2])
  with Cons show ?case by simp
qed simp

text \<open>Every key's entries from the last flush that has one.\<close>

definition last_entries :: "(vector_clock \<times> stat_entry list) list \<Rightarrow> stat_entry set" where
  "last_entries outs = {e. e \<in> set (last_holding (store_key e) outs)}"

lemma last_holding_mem: "last_holding k outs = [] \<or> (\<exists>x\<in>set outs. last_holding k outs = snd x)"
proof (cases "filter (\<lambda>x. k \<in> set (map store_key (snd x))) (rev outs)")
  case (Cons x xs)
  then have "x \<in> set (filter (\<lambda>x. k \<in> set (map store_key (snd x))) (rev outs))" by simp
  then show ?thesis using Cons by (auto simp: last_holding_def)
qed (simp add: last_holding_def)

lemma last_entries_written: "last_entries outs \<subseteq> set (written outs)"
proof
  fix e assume "e \<in> last_entries outs"
  then have "e \<in> set (last_holding (store_key e) outs)" by (simp add: last_entries_def)
  with last_holding_mem [of "store_key e" outs] obtain x where "x \<in> set outs" "e \<in> set (snd x)" by force
  then show "e \<in> set (written outs)" by (auto simp: written_def intro: bexI [of _ x])
qed

lemma scan_last_entries:
  assumes run: "run_loop np_mean (store_write psize io between) envs lf (new_processor nid) (0, new_lsm) = (outs, lf', p', s)"
    and io: "\<forall>i. wal_ok (io i)" and quiet: "\<forall>i. store_log (between i) = {}"
    and P: "\<forall>e\<in>set (written outs). \<forall>e'\<in>set (written outs). store_key e = store_key e' \<longrightarrow> P e = P e'"
    and single: "\<And>x. x \<in> set outs \<Longrightarrow> inj_on store_key (set (snd x))"
  shows "set (lsm_scan P (store_run psize (between (fst s)) (snd s))) = {e \<in> last_entries outs. P e}"
    and "distinct (map store_key (lsm_scan P (store_run psize (between (fst s)) (snd s))))"
proof -
  let ?st = "store_run psize (between (fst s)) (snd s)" and ?W = "set (written outs)"
  have g: "all_good ?W" and i: "lsm_inv ?W (snd s)"
    using run_answer(2,3) [OF run lsm_inv_new _ io quiet] by (simp_all add: all_good_def)
  have "store_log (between (fst s)) = {}" using quiet by blast
  then have inv: "lsm_inv ?W ?st" using store_run_inv [OF i, of "between (fst s)" psize] g by simp
  note scan = lsm_scan_best [OF inv g P]
  have last: "best_in (with_key k (set (last_holding k outs))) r" if "best_in (with_key k ?W) r" "with_key k ?W \<noteq> {}" for k r
    using last_flush_wins [OF run that(2)] best_of_flush [OF that(1)] by metis
  have uniq: "e = e'" if "e \<in> last_entries outs" "e' \<in> set (last_holding (store_key e) outs)" "store_key e' = store_key e" for e e'
  proof -
    have "e \<in> set (last_holding (store_key e) outs)" using that(1) by (simp add: last_entries_def)
    with that(2) last_holding_mem [of "store_key e" outs] obtain x where x: "x \<in> set outs" "e \<in> set (snd x)" "e' \<in> set (snd x)"
      by force
    from inj_onD [OF single [OF x(1)] that(3) [symmetric] x(2,3)] show ?thesis .
  qed
  have mem: "e \<in> last_entries outs \<and> P e" if "e \<in> set (lsm_scan P ?st)" for e
  proof -
    from scan(2) [OF that] have b: "best_in (with_key (store_key e) ?W) (Some e)" "P e" by blast+
    then have "with_key (store_key e) ?W \<noteq> {}" by (auto simp: best_in_def)
    from last [OF b(1) this] b(2) show ?thesis by (auto simp: best_in_def with_key_def last_entries_def)
  qed
  show "set (lsm_scan P ?st) = {e \<in> last_entries outs. P e}"
  proof (intro subset_antisym subsetI)
    fix e assume "e \<in> {e \<in> last_entries outs. P e}"
    then have e: "e \<in> last_entries outs" "P e" by blast+
    then have "e \<in> ?W" using last_entries_written by blast
    from scan(3) [OF this e(2)] obtain e' where e': "e' \<in> set (lsm_scan P ?st)" "store_key e = store_key e'" by blast
    from mem [OF e'(1)] have "e' \<in> set (last_holding (store_key e) outs)" by (simp add: last_entries_def e'(2))
    with uniq [OF e(1) this] e' show "e \<in> set (lsm_scan P ?st)" by simp
  qed (use mem in blast)
  show "distinct (map store_key (lsm_scan P ?st))" by (rule scan(1))
qed

lemma scan_predicate_key: "entry_key e = entry_key e' \<Longrightarrow> scan_predicate req e = scan_predicate req e'"
  by (simp add: scan_predicate_def entry_key_def)

lemma mset_concat_mem: "xs \<in> set xss \<Longrightarrow> mset xs \<subseteq># mset (concat xss)"
  by (induction xss) (auto intro: subset_mset.order_trans)

lemma run_flushes:
  assumes "mean_spec np_mean"
    "run_loop np_mean write envs lf (new_processor nid) store = (outs, lf', p', s)" "x \<in> set outs"
  shows "\<exists>ms. ms \<noteq> [] \<and> mset ms \<subseteq># mset (concat (map arrivals envs))
    \<and> set (snd x) = reference_entry (fst x) ms ` {k. samples ms k \<noteq> []} \<and> distinct (map entry_key (snd x))"
proof -
  from run_loop_inv [OF assms(2) proc_inv_new] obtain mss cur where
    l: "list_all2 (flush_matches np_mean nid) outs mss"
    and b: "mset (concat mss) + mset cur + pending (p_reorder p') + mset (incoming p') = mset (concat (map arrivals envs))"
    by (auto simp: new_processor_def pending_def new_reorder_buffer_def)
  from assms(3) obtain i where i: "i < length outs" "x = outs ! i" by (auto simp: in_set_conv_nth)
  have f: "flush_matches np_mean nid x (mss ! i)" and len: "i < length mss"
    using l i by (auto simp: list_all2_conv_all_nth)
  have "mset (mss ! i) \<subseteq># mset (concat mss)" by (rule mset_concat_mem) (use len in simp)
  also have "\<dots> \<subseteq># mset (concat (map arrivals envs))" unfolding b [symmetric] by (simp add: add.assoc)
  finally show ?thesis using f
    by (intro exI [of _ "mss ! i"])
       (auto simp: flush_matches_def flush_set [OF assms(1)] flush_distinct [OF assms(1)] split: prod.splits)
qed

section \<open>Property\<close>

text \<open>
  C25. From the events to a scan. A processor whose client writes to a meta store with one member
  has run over any arrivals, while the store served reads, flushed and crashed; no log write
  failed, and store keys are unambiguous. Then a scan of the API service returns, for each key
  that passes the filter, the entry of the last flush that had the key, with at most its sample
  size decayed; and that entry is the reference statistic of some of the events that arrived.
\<close>

theorem service_sees_last_flush:
  assumes mean: "mean_spec np_mean" and conn: "cl_open c" and order: "\<And>xs. mset (order xs) = mset xs"
    and run: "run_loop np_mean (served_write psize io order between clock c) envs lf (new_processor nid)
      (0, new_server t0 self new_lsm) = (outs, lf', p', s)"
    and io: "\<forall>i. wal_ok (io i)" and quiet: "\<forall>i. store_log (between i) = {}"
    and keys: "\<forall>x\<in>set (written outs). \<forall>y\<in>set (written outs). store_key x = store_key y \<longrightarrow> entry_key x = entry_key y"
  shows "\<exists>es. service_scan (single_member psize io' order now) c (server_ops psize between clock s) etype pt rgn = Some es
    \<and> set es = apply_decay now (server_ops psize between clock s)
        ` {e \<in> last_entries outs. scan_predicate \<lparr>sc_entity_type = etype, sc_patch = pt, sc_tier = [], sc_region = rgn, sc_limit = 0\<rparr> e}
    \<and> (\<forall>e\<in>last_entries outs. \<exists>ms. mset ms \<subseteq># mset (concat (map arrivals envs))
        \<and> samples ms (entry_key e) \<noteq> [] \<and> e = reference_entry (se_clock e) ms (entry_key e))"
proof -
  let ?req = "\<lparr>sc_entity_type = etype, sc_patch = pt, sc_tier = [], sc_region = rgn, sc_limit = 0\<rparr>"
  let ?srv = "server_ops psize between clock s"
  have run': "run_loop np_mean (store_write psize io between) envs lf (new_processor nid) (0, new_lsm) = (outs, lf', p', stored s)"
    using run_loop_sim [where f = stored and ?w1.0 = "store_write psize io between"
        and ?w2.0 = "served_write psize io order between clock c", OF served_write_stored [OF conn],
        of np_mean envs lf "new_processor nid" "(0, new_server t0 self new_lsm)"] run
    by (simp add: stored_def new_server_def)
  have inj: "inj_on store_key (set (snd x))" if x: "x \<in> set outs" for x
  proof (rule inj_onI)
    fix e e' assume e: "e \<in> set (snd x)" "e' \<in> set (snd x)" "store_key e = store_key e'"
    then have "e \<in> set (written outs)" "e' \<in> set (written outs)" using x by (auto simp: written_def)
    with keys e(3) have "entry_key e = entry_key e'" by blast
    moreover from run_flushes [OF mean run x] have "distinct (map entry_key (snd x))" by blast
    ultimately show "e = e'" using e(1,2) by (metis distinct_map inj_onD)
  qed
  have P: "\<forall>e\<in>set (written outs). \<forall>e'\<in>set (written outs). store_key e = store_key e' \<longrightarrow>
      scan_predicate ?req e = scan_predicate ?req e'"
    using keys scan_predicate_key by blast
  have lsm: "srv_lsm ?srv = store_run psize (between (fst (stored s))) (snd (stored s))"
    by (simp add: server_ops_def server_ops_lsm stored_def)
  note scan = scan_last_entries [OF run' io quiet P inj, folded lsm]
  have "set (map snd (fold merge_entry (lsm_scan (scan_predicate ?req) (srv_lsm ?srv)) []))
      = {e \<in> last_entries outs. scan_predicate ?req e}"
    by (subst merge_distinct) (use scan in \<open>simp_all add: comp_def\<close>)
  then have "set (server_scan order [] now ?req ?srv) = apply_decay now ?srv ` {e \<in> last_entries outs. scan_predicate ?req e}"
    using single_scan [where order = order and req = ?req and now = now and s = ?srv, OF order] by simp
  moreover have "\<exists>ms. mset ms \<subseteq># mset (concat (map arrivals envs)) \<and> samples ms (entry_key e) \<noteq> []
      \<and> e = reference_entry (se_clock e) ms (entry_key e)" if e: "e \<in> last_entries outs" for e
  proof -
    have "e \<in> set (written outs)" using e last_entries_written by blast
    then obtain x where x: "x \<in> set outs" "e \<in> set (snd x)" by (auto simp: written_def)
    from run_flushes [OF mean run x(1)] obtain ms k where "mset ms \<subseteq># mset (concat (map arrivals envs))"
      "samples ms k \<noteq> []" "e = reference_entry (fst x) ms k" using x(2) by auto
    moreover from this(3) have "entry_key e = k" by simp
    moreover from \<open>e = reference_entry (fst x) ms k\<close> have "se_clock e = fst x"
      by (simp add: reference_entry_def Let_def split: prod.splits)
    ultimately show ?thesis by metis
  qed
  ultimately show ?thesis by (simp add: calls_of_single_member(2) [OF conn])
qed

section \<open>Witness\<close>

definition tame :: "stat_entry \<Rightarrow> bool" where
  "tame e \<longleftrightarrow> CHR '':'' \<notin> set (se_entity_id e @ se_patch e @ se_tier e @ se_region e)"

text \<open>Without colons in the fields and with one type for each id, store keys are unambiguous.\<close>

lemma append_colon: "a @ CHR '':'' # b = c @ CHR '':'' # d \<Longrightarrow> CHR '':'' \<notin> set a \<Longrightarrow> CHR '':'' \<notin> set c \<Longrightarrow> a = c \<and> b = d"
  by (induction a arbitrary: c) (auto simp: Cons_eq_append_conv append_eq_Cons_conv)

lemma tame_keys:
  assumes "tame x" "tame y" "store_key x = store_key y"
  shows "se_entity_id x = se_entity_id y \<and> se_patch x = se_patch y \<and> se_tier x = se_tier y \<and> se_region x = se_region y"
proof -
  have c: "CHR '':'' \<notin> set (se_entity_id z) \<and> CHR '':'' \<notin> set (se_patch z) \<and> CHR '':'' \<notin> set (se_tier z)" if "tame z" for z
    using that by (simp add: tame_def)
  from assms(3) have "se_entity_id x @ CHR '':'' # se_patch x @ CHR '':'' # se_tier x @ CHR '':'' # se_region x
      = se_entity_id y @ CHR '':'' # se_patch y @ CHR '':'' # se_tier y @ CHR '':'' # se_region y"
    by (simp add: store_key_def)
  with append_colon c [OF assms(1)] c [OF assms(2)] show ?thesis by blast
qed

definition demo_run :: "(vector_clock \<times> stat_entry list) list \<times> py_float \<times> processor \<times> nat \<times> server" where
  "demo_run = run_loop exact_mean (served_write (\<lambda>_. 100) (\<lambda>_. disk_up) id one_crash (\<lambda>_. 0) (new_store_client ''store''))
     [shop_turn sample_match 0] 0 (new_processor ''p'') (0, new_server 0 ''a'' new_lsm)"

theorem service_sees_last_flush_witness:
  "\<exists>es. service_scan (single_member (\<lambda>_. 100) disk_up id 0) (new_store_client ''store'')
       (server_ops (\<lambda>_. 100) one_crash (\<lambda>_. 0) (snd (snd (snd demo_run)))) ''champion'' [] [] = Some es
     \<and> (\<forall>e\<in>last_entries (fst demo_run). \<exists>ms. samples ms (entry_key e) \<noteq> [] \<and> e = reference_entry (se_clock e) ms (entry_key e))
     \<and> last_entries (fst demo_run) \<noteq> {}"
proof -
  obtain outs lf' p' s where r: "demo_run = (outs, lf', p', s)" by (metis surj_pair)
  have "(case demo_run of (outs, _) \<Rightarrow> let ks = map store_key (written outs) in distinct ks \<and> ks \<noteq> [])"
    by code_simp
  then have d: "distinct (map store_key (written outs))" and w: "written outs \<noteq> []"
    by (simp_all add: r Let_def)
  have keys: "\<forall>x\<in>set (written outs). \<forall>y\<in>set (written outs). store_key x = store_key y \<longrightarrow> entry_key x = entry_key y"
    using d by (metis distinct_map inj_onD)
  from w obtain e where e: "e \<in> set (written outs)" by (cases "written outs") auto
  then have "with_key (store_key e) (set (written outs)) \<noteq> {}" by (auto simp: with_key_def)
  from last_flush_wins [OF r [unfolded demo_run_def] this]
  obtain x where "x \<in> with_key (store_key e) (set (last_holding (store_key e) outs))" by blast
  then have "x \<in> last_entries outs" by (simp add: last_entries_def with_key_def)
  then have ne: "last_entries outs \<noteq> {}" by blast
  from service_sees_last_flush [OF exact_mean_spec _ _ r [unfolded demo_run_def] _ one_crash_quiet keys]
  show ?thesis
    unfolding r using ne by (simp add: new_store_client_def disk_up_def) blast
qed

end
