(* ===== verification/Broker_Log.thy ===== *)
theory Broker_Log
  imports Proto Py_Str "HOL-Library.Word"
begin

text \<open>
  The log of a partition on the broker, \<open>broker/partition.go\<close>, down to its bytes, and what
  \<open>broker/broker.go\<close> does with it for a publisher and for a subscriber. A file is the list of its
  bytes; reading and writing it succeed, except for a write that a crash tears, which leaves any
  prefix of the bytes behind. \<open>None\<close> is \<open>io.EOF\<close>.
\<close>

section \<open>Big-endian integers\<close>

type_synonym bytes = "8 word list"

primrec put_be :: "nat \<Rightarrow> nat \<Rightarrow> bytes" where
  "put_be 0 n = []"
| "put_be (Suc k) n = put_be k (n div 256) @ [of_nat n]"

definition get_be :: "bytes \<Rightarrow> nat" where
  "get_be bs = foldl (\<lambda>n b. 256 * n + unat b) 0 bs"

lemma length_put_be [simp]: "length (put_be k n) = k"
  by (induction k arbitrary: n) simp_all

lemma get_put_be: "get_be (put_be k n) = n mod 256 ^ k"
proof (induction k arbitrary: n)
  case (Suc k)
  have "get_be (put_be (Suc k) n) = 256 * (n div 256 mod 256 ^ k) + n mod 256"
    using Suc [of "n div 256"] by (simp add: get_be_def unat_of_nat)
  then show ?case by (simp add: mod_mult2_eq)
qed (simp add: get_be_def)

section \<open>Partition\<close>

definition headerSize :: nat where
  "headerSize = 12"

record partition =
  log_file :: bytes
  index :: "nat list" \<comment> \<open>the byte position of every retained record\<close>
  next_offset :: int
  base_offset :: int
  max_records :: int

text \<open>\<open>int64(x)\<close> of an unsigned 64-bit number.\<close>

definition int64 :: "nat \<Rightarrow> int" where
  "int64 n = (if int n < 2 ^ 63 then int n else int n - 2 ^ 64)"

definition record_bytes :: "int \<Rightarrow> bytes \<Rightarrow> bytes" where
  "record_bytes off payload = put_be 8 (nat (off mod 2 ^ 64)) @ put_be 4 (length payload) @ payload"

text \<open>The loop of \<open>recover\<close>: the position of each record from \<open>pos\<close> on, with the offset its header holds.\<close>

function scan :: "bytes \<Rightarrow> nat \<Rightarrow> (nat \<times> nat) list" where
  "scan f pos =
     (if length f < pos + headerSize then []
      else (let header = take headerSize (drop pos f); record_offset = get_be (take 8 header); len = get_be (drop 8 header)
            in (pos, record_offset) # scan f (pos + headerSize + len)))"
  by pat_completeness auto

termination by (relation "measure (\<lambda>(f, pos). length f - pos)") (auto simp: headerSize_def)

declare scan.simps [simp del]

definition recover :: "int \<Rightarrow> bytes \<Rightarrow> partition" where
  "recover cap f =
     (let rs = scan f 0; first = (case rs of [] \<Rightarrow> 0 | (_, record_offset) # _ \<Rightarrow> int64 record_offset)
      in \<lparr>log_file = f, index = map fst rs, next_offset = first + int (length rs), base_offset = first, max_records = cap\<rparr>)"

definition trim :: "int \<Rightarrow> partition \<Rightarrow> partition" where
  "trim n p =
     (if n \<le> 0 \<or> n \<ge> int (length (index p)) then p
      else (let start = index p ! nat n
            in p\<lparr>log_file := drop start (log_file p), index := map (\<lambda>i. i - start) (drop (nat n) (index p)),
                 base_offset := base_offset p + n\<rparr>))"

definition append_record :: "bytes \<Rightarrow> partition \<Rightarrow> int \<times> partition" where
  "append_record payload p =
     (let off = next_offset p;
          p1 = p\<lparr>log_file := log_file p @ record_bytes off payload, index := index p @ [length (log_file p)],
                 next_offset := off + 1\<rparr>
      in (off,
          if max_records p > 0 \<and> int (length (index p1)) > max_records p
          then trim (int (length (index p1)) - (max_records p - max_records p div 10)) p1 else p1))"

definition read_at :: "int \<Rightarrow> partition \<Rightarrow> bytes option" where
  "read_at off p =
     (if off < base_offset p \<or> off \<ge> next_offset p then None
      else (let pos = index p ! nat (off - base_offset p)
            in if length (log_file p) < pos + headerSize then None
               else (let len = get_be (drop 8 (take headerSize (drop pos (log_file p))))
                     in if length (log_file p) < pos + headerSize + len then None
                        else Some (take len (drop (pos + headerSize) (log_file p))))))"

section \<open>The abstract log\<close>

text \<open>The retained payloads \<open>ps\<close>, of which the first has offset \<open>b\<close>.\<close>

primrec log_bytes :: "int \<Rightarrow> bytes list \<Rightarrow> bytes" where
  "log_bytes b [] = []"
| "log_bytes b (q # qs) = record_bytes b q @ log_bytes (b + 1) qs"

definition log_size :: "bytes list \<Rightarrow> nat" where
  "log_size ps = sum_list (map (\<lambda>q. headerSize + length q) ps)"

definition positions :: "nat \<Rightarrow> bytes list \<Rightarrow> nat list" where
  "positions s ps = map (\<lambda>k. s + log_size (take k ps)) [0..<length ps]"

definition small :: "bytes list \<Rightarrow> bool" where
  "small ps \<longleftrightarrow> (\<forall>q\<in>set ps. length q < 2 ^ 32)"

definition holds :: "int \<Rightarrow> bytes list \<Rightarrow> partition \<Rightarrow> bool" where
  "holds b ps p \<longleftrightarrow>
     log_file p = log_bytes b ps \<and> index p = positions 0 ps \<and> base_offset p = b \<and> next_offset p = b + int (length ps)"

lemma length_record [simp]: "length (record_bytes b q) = headerSize + length q"
  by (simp add: record_bytes_def headerSize_def)

lemma log_size_simps [simp]:
  "log_size [] = 0" "log_size (q # qs) = headerSize + length q + log_size qs"
  "log_size (ps @ qs) = log_size ps + log_size qs"
  by (simp_all add: log_size_def)

lemma length_log_bytes [simp]: "length (log_bytes b ps) = log_size ps"
  by (induction ps arbitrary: b) simp_all

lemma log_bytes_append: "log_bytes b (ps @ qs) = log_bytes b ps @ log_bytes (b + int (length ps)) qs"
  by (induction ps arbitrary: b) (simp_all add: algebra_simps)

lemma drop_log_bytes: "drop (log_size (take n ps)) (log_bytes b ps) = log_bytes (b + int (length (take n ps))) (drop n ps)"
  using log_bytes_append [of b "take n ps" "drop n ps"] by simp

lemma length_positions [simp]: "length (positions s ps) = length ps"
  by (simp add: positions_def)

lemma nth_positions: "k < length ps \<Longrightarrow> positions s ps ! k = s + log_size (take k ps)"
  by (simp add: positions_def)

lemma positions_Cons: "positions s (q # qs) = s # positions (s + headerSize + length q) qs"
  by (rule nth_equalityI) (auto simp: nth_positions nth_Cons split: nat.splits)

lemma positions_snoc: "positions s (ps @ [q]) = positions s ps @ [s + log_size ps]"
  by (rule nth_equalityI) (auto simp: nth_positions nth_append)

lemma positions_drop:
  assumes "n < length ps"
  shows "map (\<lambda>i. i - positions 0 ps ! n) (drop n (positions 0 ps)) = positions 0 (drop n ps)"
proof (rule nth_equalityI)
  fix k
  assume "k < length (map (\<lambda>i. i - positions 0 ps ! n) (drop n (positions 0 ps)))"
  then have k: "n + k < length ps" by simp
  have "take (n + k) ps = take n ps @ take k (drop n ps)" by (rule take_add)
  then have "log_size (take (n + k) ps) = log_size (take n ps) + log_size (take k (drop n ps))" by simp
  with k assms show "map (\<lambda>i. i - positions 0 ps ! n) (drop n (positions 0 ps)) ! k = positions 0 (drop n ps) ! k"
    by (simp add: nth_positions)
qed simp

section \<open>Headers\<close>

text \<open>The header at the front of a record, and the payload behind it.\<close>

lemma header_of_record:
  assumes "length q < 2 ^ 32"
  shows "get_be (take 8 (take headerSize (record_bytes b q @ rest))) = nat (b mod 2 ^ 64)"
    and "get_be (drop 8 (take headerSize (record_bytes b q @ rest))) = length q"
    and "take (length q) (drop headerSize (record_bytes b q @ rest)) = q"
proof -
  have "nat (b mod 2 ^ 64) < 2 ^ 64" by (simp add: nat_less_iff)
  then have "get_be (put_be 8 (nat (b mod 2 ^ 64))) = nat (b mod 2 ^ 64)" by (simp add: get_put_be)
  moreover have "get_be (put_be 4 (length q)) = length q" using assms by (simp add: get_put_be)
  ultimately show "get_be (take 8 (take headerSize (record_bytes b q @ rest))) = nat (b mod 2 ^ 64)"
    "get_be (drop 8 (take headerSize (record_bytes b q @ rest))) = length q"
    "take (length q) (drop headerSize (record_bytes b q @ rest)) = q"
    by (simp_all add: record_bytes_def headerSize_def)
qed

lemma torn_header:
  assumes "length q < 2 ^ 32" "headerSize \<le> n"
  shows "take headerSize (take n (record_bytes b q)) = take headerSize (record_bytes b q @ [])"
  using assms by (simp add: min_absorb1)

lemma scan_record:
  assumes "length q < 2 ^ 32"
  shows "scan (pre @ record_bytes b q @ rest) (length pre)
    = (length pre, nat (b mod 2 ^ 64)) # scan (pre @ record_bytes b q @ rest) (length pre + headerSize + length q)"
proof -
  let ?f = "pre @ record_bytes b q @ rest"
  have "drop (length pre) ?f = record_bytes b q @ rest" "\<not> length ?f < length pre + headerSize" by simp_all
  then show ?thesis by (subst scan.simps) (simp only: Let_def header_of_record [OF assms] if_False)
qed

lemma scan_end: "length f < pos + headerSize \<Longrightarrow> scan f pos = []"
  by (subst scan.simps) simp

lemma scan_log:
  assumes "small ps"
  shows "scan (pre @ log_bytes b ps @ rest) (length pre)
    = zip (positions (length pre) ps) (map (\<lambda>k. nat ((b + int k) mod 2 ^ 64)) [0..<length ps])
      @ scan (pre @ log_bytes b ps @ rest) (length pre + log_size ps)"
  using assms
proof (induction ps arbitrary: pre b)
  case (Cons q qs)
  then have q: "length q < 2 ^ 32" and qs: "small qs" by (simp_all add: small_def)
  from Cons.IH [OF qs, of "pre @ record_bytes b q" "b + 1"] show ?case
    using scan_record [OF q, of pre b "log_bytes (b + 1) qs @ rest"]
    by (simp add: map_upt_Suc positions_Cons ac_simps del: upt_Suc)
qed (simp add: positions_def)

lemma int64_offset: "0 \<le> b \<Longrightarrow> b < 2 ^ 63 \<Longrightarrow> int64 (nat (b mod 2 ^ 64)) = b"
  by (simp add: int64_def nat_less_iff)

section \<open>Operations on the abstract log\<close>

lemma recover_log:
  assumes ps: "small ps" and b: "0 \<le> b" "b < 2 ^ 63" and rest: "length rest < headerSize" and ne: "ps = [] \<Longrightarrow> b = 0"
  shows "recover cap (log_bytes b ps @ rest)
    = \<lparr>log_file = log_bytes b ps @ rest, index = positions 0 ps, next_offset = b + int (length ps), base_offset = b, max_records = cap\<rparr>"
proof -
  have "scan (log_bytes b ps @ rest) 0 = zip (positions 0 ps) (map (\<lambda>k. nat ((b + int k) mod 2 ^ 64)) [0..<length ps])"
    using scan_log [OF ps, of "[]" b rest] rest by (simp add: scan_end)
  then show ?thesis
  proof (cases ps)
    case (Cons q qs)
    with \<open>scan _ _ = _\<close> show ?thesis
      by (simp add: recover_def Let_def map_upt_Suc positions_Cons int64_offset [OF b, simplified] del: upt_Suc)
  qed (use ne in \<open>simp add: recover_def positions_def\<close>)
qed

lemma holds_recover:
  assumes "holds b ps p" "small ps" "0 \<le> b" "b < 2 ^ 63" "ps = [] \<Longrightarrow> b = 0"
  shows "recover (max_records p) (log_file p) = p"
  using assms recover_log [OF assms(2-4), of "[]" "max_records p"] by (simp add: holds_def headerSize_def)

lemma holds_trim:
  assumes "holds b ps p"
  shows "holds (if n \<le> 0 \<or> n \<ge> int (length ps) then b else b + n)
    (if n \<le> 0 \<or> n \<ge> int (length ps) then ps else drop (nat n) ps) (trim n p)"
proof (cases "n \<le> 0 \<or> n \<ge> int (length ps)")
  case False
  then have n: "nat n < length ps" by (simp add: nat_less_iff)
  then have "log_size (take (nat n) ps) = positions 0 ps ! nat n" by (simp add: nth_positions)
  with drop_log_bytes [of "nat n" ps b] positions_drop [OF n] assms False n show ?thesis
    by (simp add: holds_def trim_def Let_def)
qed (use assms in \<open>auto simp: holds_def trim_def\<close>)

lemma max_records_ops [simp]:
  "max_records (trim n p) = max_records p" "max_records (snd (append_record q p)) = max_records p"
  "max_records (recover cap f) = cap"
  by (simp_all add: trim_def append_record_def recover_def Let_def)

lemma holds_append:
  assumes h: "holds b ps p"
  obtains b' n where "fst (append_record q p) = b + int (length ps)" "holds b' (drop n (ps @ [q])) (snd (append_record q p))"
    "b' = b + int n" "n \<le> length ps" "max_records p \<le> 0 \<longrightarrow> n = 0"
    "max_records p > 0 \<longrightarrow> int (length ps) \<le> max_records p \<longrightarrow> int (length (drop n (ps @ [q]))) \<le> max_records p"
proof -
  define p1 where "p1 = p\<lparr>log_file := log_file p @ record_bytes (next_offset p) q,
     index := index p @ [length (log_file p)], next_offset := next_offset p + 1\<rparr>"
  have h1: "holds b (ps @ [q]) p1" using h by (simp add: p1_def holds_def log_bytes_append positions_snoc)
  have len: "int (length (index p1)) = int (length ps) + 1" using h by (simp add: p1_def holds_def)
  define t where "t = max_records p - max_records p div 10"
  define m where "m = int (length ps) + 1 - t"
  have app: "append_record q p
      = (next_offset p, if max_records p > 0 \<and> int (length ps) + 1 > max_records p then trim m p1 else p1)"
    unfolding append_record_def Let_def p1_def [symmetric] len t_def [symmetric] m_def [symmetric] ..
  have off: "next_offset p = b + int (length ps)" using h by (simp add: holds_def)
  show thesis
  proof (cases "max_records p > 0 \<and> int (length ps) + 1 > max_records p")
    case True
    then have "0 < t" "t \<le> max_records p" by (auto simp: t_def)
    with True have m: "0 < m" "m < int (length (ps @ [q]))" by (auto simp: m_def)
    then have "holds (b + m) (drop (nat m) (ps @ [q])) (trim m p1)" using holds_trim [OF h1, of m] by simp
    then show thesis
      using that [of "b + m" "nat m"] m True \<open>t \<le> max_records p\<close> by (simp add: app off nat_le_iff m_def)
  next
    case False
    then have "append_record q p = (next_offset p, p1)" by (simp only: app if_False)
    with h1 that [of b 0] False show thesis by (auto simp: off)
  qed
qed

lemma read_at_torn:
  assumes h: "base_offset p = b" "next_offset p = b + int (length ps) + n" "0 \<le> n" "index p = positions 0 ps @ rest_index"
      "log_file p = log_bytes b ps @ rest" and ps: "small ps"
    and off: "b \<le> off" "off < b + int (length ps)"
  shows "read_at off p = Some (ps ! nat (off - b))"
proof -
  define k where "k = nat (off - b)"
  have k: "k < length ps" using off by (simp add: k_def)
  have split: "log_file p = log_bytes b (take k ps) @ record_bytes (b + int k) (ps ! k) @ log_bytes (b + int k + 1) (drop (Suc k) ps) @ rest"
    using log_bytes_append [of b "take k ps" "ps ! k # drop (Suc k) ps"] k
    by (simp add: h(5) id_take_nth_drop [OF k, symmetric])
  have q: "length (ps ! k) < 2 ^ 32" using ps k by (simp add: small_def)
  have pos: "index p ! k = log_size (take k ps)" using k by (simp add: h(4) nth_append nth_positions)
  have d: "drop (index p ! k) (log_file p) = record_bytes (b + int k) (ps ! k) @ log_bytes (b + int k + 1) (drop (Suc k) ps) @ rest"
    by (simp add: split pos)
  have d12: "drop (index p ! k + headerSize) (log_file p) = drop headerSize (drop (index p ! k) (log_file p))"
    by (simp add: add.commute)
  have len: "index p ! k + headerSize + length (ps ! k) \<le> length (log_file p)" by (simp add: split pos)
  have "\<not> (off < base_offset p \<or> off \<ge> next_offset p)" using off h(1-3) by simp
  then show ?thesis
    unfolding read_at_def h(1) k_def [symmetric] Let_def d12 d header_of_record [OF q] using len by simp
qed

lemma read_at_log:
  assumes "holds b ps p" "small ps"
  shows "read_at off p = (if b \<le> off \<and> off < b + int (length ps) then Some (ps ! nat (off - b)) else None)"
proof (cases "b \<le> off \<and> off < b + int (length ps)")
  case True
  then show ?thesis using read_at_torn [of p b ps 0 "[]" "[]" off] assms by (simp add: holds_def)
next
  case False
  then show ?thesis using assms by (auto simp: read_at_def holds_def)
qed

section \<open>Runs of the log\<close>

text \<open>\<open>Reopen\<close> is a restart of the broker between two appends: \<open>openPartition\<close> on the file that is there.\<close>

datatype log_op = Publish bytes | Reopen

primrec log_run :: "log_op list \<Rightarrow> partition \<Rightarrow> int list \<times> partition" where
  "log_run [] p = ([], p)"
| "log_run (op # ops) p =
     (case op of
        Publish q \<Rightarrow> (case append_record q p of (off, p1) \<Rightarrow> (case log_run ops p1 of (offs, p2) \<Rightarrow> (off # offs, p2)))
      | Reopen \<Rightarrow> log_run ops (recover (max_records p) (log_file p)))"

primrec published :: "log_op list \<Rightarrow> bytes list" where
  "published [] = []"
| "published (op # ops) = (case op of Publish q \<Rightarrow> q # published ops | Reopen \<Rightarrow> published ops)"

text \<open>Of all payloads \<open>ps\<close> appended so far, the partition retains those from number \<open>n\<close> on.\<close>

definition retains :: "nat \<Rightarrow> bytes list \<Rightarrow> partition \<Rightarrow> bool" where
  "retains n ps p \<longleftrightarrow>
     holds (int n) (drop n ps) p \<and> (if ps = [] then n = 0 else n < length ps)
     \<and> (if max_records p \<le> 0 then n = 0 else int (length (drop n ps)) \<le> max_records p)"

lemma retains_recover_empty: "retains 0 [] (recover cap [])"
  by (simp add: retains_def holds_def recover_def scan_end headerSize_def positions_def)

lemma retains_append:
  assumes "retains n ps p"
  shows "fst (append_record q p) = int (length ps)"
    and "\<exists>m\<ge>n. retains m (ps @ [q]) (snd (append_record q p))"
proof -
  have n: "n \<le> length ps" using assms by (cases "ps = []") (simp_all add: retains_def)
  have h: "holds (int n) (drop n ps) p" using assms by (simp add: retains_def)
  from holds_append [OF h, of q] obtain b m where
    f: "fst (append_record q p) = int n + int (length (drop n ps))"
    and s: "holds b (drop m (drop n ps @ [q])) (snd (append_record q p))" "b = int n + int m" "m \<le> length (drop n ps)"
    and c: "max_records p \<le> 0 \<longrightarrow> m = 0"
      "max_records p > 0 \<longrightarrow> int (length (drop n ps)) \<le> max_records p \<longrightarrow> int (length (drop m (drop n ps @ [q]))) \<le> max_records p"
    by blast
  show "fst (append_record q p) = int (length ps)" using f n by simp
  have d: "drop m (drop n ps @ [q]) = drop (n + m) (ps @ [q])" using n by (simp add: add.commute)
  have "retains (n + m) (ps @ [q]) (snd (append_record q p))"
    unfolding retains_def max_records_ops
  proof (intro conjI)
    show "holds (int (n + m)) (drop (n + m) (ps @ [q])) (snd (append_record q p))" using s(1,2) d by simp
    show "if ps @ [q] = [] then n + m = 0 else n + m < length (ps @ [q])" using s(3) n by simp
    show "if max_records p \<le> 0 then n + m = 0 else int (length (drop (n + m) (ps @ [q]))) \<le> max_records p"
      using c assms unfolding d retains_def by (cases "max_records p \<le> 0") simp_all
  qed
  then show "\<exists>m\<ge>n. retains m (ps @ [q]) (snd (append_record q p))" using le_add1 by blast
qed

lemma retains_small: "small ps \<Longrightarrow> small (drop n ps)"
  by (auto simp: small_def dest: in_set_dropD)

lemma retains_recover:
  assumes "retains n ps p" "small ps" "length ps < 2 ^ 63"
  shows "recover (max_records p) (log_file p) = p"
proof (rule holds_recover)
  show "holds (int n) (drop n ps) p" "small (drop n ps)" using assms by (simp_all add: retains_def retains_small)
  have "n \<le> length ps" using assms(1) by (cases "ps = []") (simp_all add: retains_def)
  with assms(3) show "int n < 2 ^ 63" by simp
  show "drop n ps = [] \<Longrightarrow> int n = 0" using assms(1) by (cases "ps = []") (simp_all add: retains_def)
qed simp

lemma retains_read:
  assumes "retains n ps p" "small ps"
  shows "read_at off p = (if int n \<le> off \<and> off < int (length ps) then Some (ps ! nat off) else None)"
proof -
  have h: "holds (int n) (drop n ps) p" using assms by (simp add: retains_def)
  have n: "n \<le> length ps" using assms(1) by (cases "ps = []") (simp_all add: retains_def)
  have "drop n ps ! nat (off - int n) = ps ! nat off" if "int n \<le> off" "off < int (length ps)"
    using that n by (simp add: nat_diff_distrib)
  then show ?thesis using read_at_log [OF h retains_small [OF assms(2)], of off] n by auto
qed

lemma retains_offsets:
  assumes "retains n ps p"
  shows "base_offset p = int n" "next_offset p = int (length ps)" "n \<le> length ps"
  using assms by (cases "ps = []"; simp add: retains_def holds_def)+

lemma log_run_retains:
  assumes "retains n ps p" "small (ps @ published ops)" "length (ps @ published ops) < 2 ^ 63" "log_run ops p = (offs, p')"
  shows "offs = map (\<lambda>k. int (length ps + k)) [0..<length (published ops)] \<and> (\<exists>m. retains m (ps @ published ops) p') \<and> max_records p' = max_records p"
  using assms
proof (induction ops arbitrary: n ps p offs)
  case (Cons op ops)
  show ?case
  proof (cases op)
    case (Publish q)
    obtain off p1 where a: "append_record q p = (off, p1)" by fastforce
    obtain offs1 where r: "log_run ops p1 = (offs1, p')" "offs = off # offs1"
      using Cons.prems(4) by (auto simp: Publish a split: prod.splits)
    from retains_append [OF Cons.prems(1), of q] a obtain m where
      off: "off = int (length ps)" and m: "retains m (ps @ [q]) p1" by auto
    have mx: "max_records p1 = max_records p" using max_records_ops(2) [of q p] by (simp add: a)
    from Cons.IH [OF m _ _ r(1)] Cons.prems(2,3) show ?thesis
      by (auto simp: Publish r off mx map_upt_Suc ac_simps simp del: upt_Suc)
  next
    case Reopen
    have "small ps" "length ps < 2 ^ 63" using Cons.prems(2,3) by (auto simp: small_def)
    from retains_recover [OF Cons.prems(1) this] Cons.prems Cons.IH [OF Cons.prems(1)] show ?thesis
      by (simp add: Reopen)
  qed
qed auto

text \<open>
  C27. The broker's log is the list of what was published. Whatever is appended to a partition,
  with restarts in between, its bytes encode an abstract log: appends are given the offsets 0, 1,
  2, \<dots>; reading returns, byte for byte, what was published at an offset that is retained, and
  \<open>EOF\<close> at every other; what is not retained is a prefix; without a cap everything is retained,
  with a cap at most that many records and always the newest; and reopening changes nothing.
\<close>

theorem broker_log_refines:
  assumes "small (published ops)" and "length (published ops) < 2 ^ 63"
    and "log_run ops (recover cap []) = (offs, p)"
  shows "offs = map int [0..<length (published ops)]
    \<and> next_offset p = int (length (published ops))
    \<and> (\<exists>n. base_offset p = int n \<and> n \<le> length (published ops) \<and> (published ops \<noteq> [] \<longrightarrow> n < length (published ops))
        \<and> (cap \<le> 0 \<longrightarrow> n = 0) \<and> (0 < cap \<longrightarrow> int (length (published ops) - n) \<le> cap)
        \<and> (\<forall>off. read_at off p =
             (if int n \<le> off \<and> off < int (length (published ops)) then Some (published ops ! nat off) else None)))
    \<and> recover cap (log_file p) = p"
proof -
  from log_run_retains [OF retains_recover_empty _ _ assms(3)] assms(1,2) obtain n where
    offs: "offs = map int [0..<length (published ops)]" and n: "retains n (published ops) p" and cap: "max_records p = cap"
    by auto
  have c: "(published ops \<noteq> [] \<longrightarrow> n < length (published ops)) \<and> (cap \<le> 0 \<longrightarrow> n = 0)
      \<and> (0 < cap \<longrightarrow> int (length (published ops) - n) \<le> cap)"
    using n by (auto simp: retains_def cap split: if_splits)
  from retains_recover [OF n assms(1,2)] cap have "recover cap (log_file p) = p" by simp
  with offs c retains_offsets [OF n] retains_read [OF n assms(1)] show ?thesis by blast
qed

theorem broker_log_refines_witness:
  "read_at 2 (snd (log_run [Publish [1], Publish [2, 3], Reopen, Publish []] (recover 2 []))) = Some []
   \<and> read_at 0 (snd (log_run [Publish [1], Publish [2, 3], Reopen, Publish []] (recover 2 []))) = None"
proof -
  let ?ops = "[Publish [1], Publish [2, 3], Reopen, Publish []]"
  obtain offs p where r: "log_run ?ops (recover 2 []) = (offs, p)" by fastforce
  have ps: "published ?ops = [[1], [2, 3], []]" by simp
  from broker_log_refines [OF _ _ r, unfolded ps] obtain n where
    n: "base_offset p = int n" "n < 3" "int (3 - n) \<le> 2"
    and rd: "\<forall>off. read_at off p = (if int n \<le> off \<and> off < 3 then Some ([[1], [2, 3], []] ! nat off) else None)"
    by (auto simp: small_def)
  from n have "1 \<le> n" "n \<le> 2" by linarith+
  then show ?thesis unfolding r snd_conv using rd by simp
qed

section \<open>A write that a crash tears\<close>

text \<open>The file after a crash that let \<open>k\<close> bytes of the record of \<open>payload\<close> through.\<close>

definition torn_file :: "nat \<Rightarrow> bytes \<Rightarrow> partition \<Rightarrow> bytes" where
  "torn_file k payload p = log_file p @ take k (record_bytes (next_offset p) payload)"

lemma recover_torn:
  assumes ps: "small ps" and b: "0 \<le> b" "b + int (length ps) < 2 ^ 63" and ne: "ps = [] \<Longrightarrow> b = 0"
    and q: "length q < 2 ^ 32" and k: "headerSize \<le> k" "k < headerSize + length q"
  defines "f \<equiv> log_bytes b ps @ take k (record_bytes (b + int (length ps)) q)"
  shows "recover cap f
    = \<lparr>log_file = f, index = positions 0 ps @ [log_size ps], next_offset = b + int (length ps) + 1, base_offset = b, max_records = cap\<rparr>"
proof -
  let ?off = "b + int (length ps)"
  let ?h = "take headerSize (drop (log_size ps) f)"
  have len: "length f = log_size ps + k" using k by (simp add: f_def)
  have h: "?h = take headerSize (record_bytes ?off q @ [])" using k by (simp add: f_def min_absorb1)
  have "scan f (log_size ps) = (log_size ps, get_be (take 8 ?h)) # scan f (log_size ps + headerSize + get_be (drop 8 ?h))"
    using k by (subst scan.simps) (simp add: Let_def len del: take_take)
  also have "\<dots> = [(log_size ps, nat (?off mod 2 ^ 64))]"
    unfolding h header_of_record [OF q] using k by (simp add: scan_end len)
  finally have "scan f 0 = zip (positions 0 ps) (map (\<lambda>k. nat ((b + int k) mod 2 ^ 64)) [0..<length ps]) @ [(log_size ps, nat (?off mod 2 ^ 64))]"
    using scan_log [OF ps, of "[]" b "take k (record_bytes ?off q)"] by (simp add: f_def)
  moreover have "b < 2 ^ 63" using b by linarith
  ultimately show ?thesis
    using ne int64_offset [OF b(1), simplified]
    by (cases ps) (simp_all add: recover_def Let_def map_upt_Suc positions_Cons positions_def [of _ "[]"] del: upt_Suc)
qed

lemma read_at_header:
  assumes "base_offset p \<le> off" "off < next_offset p" "index p ! nat (off - base_offset p) = pos"
    and "take headerSize (drop pos (log_file p)) = take headerSize (record_bytes b q @ [])" "length q < 2 ^ 32"
    and "pos + headerSize \<le> length (log_file p)"
  shows "read_at off p =
    (if length (log_file p) < pos + headerSize + length q then None
     else Some (take (length q) (drop (pos + headerSize) (log_file p))))"
proof -
  have "\<not> (off < base_offset p \<or> off \<ge> next_offset p)" "\<not> length (log_file p) < pos + headerSize"
    using assms(1,2,6) by simp_all
  then show ?thesis
    unfolding read_at_def Let_def assms(3,4) header_of_record [OF assms(5)] by (simp only: if_False)
qed

lemma append_record_uncapped:
  "max_records p \<le> 0 \<or> int (length (index p)) + 1 \<le> max_records p \<Longrightarrow>
   append_record q p = (next_offset p, p\<lparr>log_file := log_file p @ record_bytes (next_offset p) q,
     index := index p @ [length (log_file p)], next_offset := next_offset p + 1\<rparr>)"
  by (auto simp: append_record_def Let_def)

lemma fst_append_record: "fst (append_record q p) = next_offset p"
  by (simp add: append_record_def Let_def)

lemma torn_write_facts:
  assumes "retains n ps p" "small ps" "length ps + 1 < 2 ^ 63" "length q < 2 ^ 32"
    and "headerSize \<le> k" "k < headerSize + length q"
  shows "let p1 = recover (max_records p) (torn_file k q p)
     in next_offset p1 = int (length ps) + 1 \<and> base_offset p1 = int n
      \<and> (\<forall>off < int (length ps). read_at off p1 = read_at off p)
      \<and> read_at (int (length ps)) p1 = None
      \<and> fst (append_record r p1) = int (length ps) + 1
      \<and> ((max_records p \<le> 0 \<or> int (length ps - n) + 2 \<le> max_records p) \<and> length q \<le> k + length r \<longrightarrow>
         read_at (int (length ps)) (snd (append_record r p1))
           = Some (take (length q) (take (k - headerSize) q @ record_bytes (int (length ps) + 1) r)))"
proof -
  let ?ps = "drop n ps" and ?f = "torn_file k q p"
  define p1 where "p1 = recover (max_records p) ?f"
  have h: "holds (int n) ?ps p" using assms(1) by (simp add: retains_def)
  note n = retains_offsets [OF assms(1)]
  have ps: "small ?ps" using assms(2) by (rule retains_small)
  have f: "?f = log_bytes (int n) ?ps @ take k (record_bytes (int n + int (length ?ps)) q)"
    using h by (simp add: torn_file_def holds_def)
  have p1: "p1 = \<lparr>log_file = ?f, index = positions 0 ?ps @ [log_size ?ps], next_offset = int (length ps) + 1,
      base_offset = int n, max_records = max_records p\<rparr>"
    unfolding p1_def f
    by (subst recover_torn [OF ps _ _ _ assms(4-6)]) (use n(3) assms(1,3) in \<open>auto simp: retains_def split: if_splits\<close>)
  have len: "length ?f = log_size ?ps + k" using assms(6) by (simp add: f)
  have hd: "take headerSize (drop (log_size ?ps) (log_file p')) = take headerSize (record_bytes (int (length ps)) q @ [])"
    if "log_file p' = ?f @ rest" for p' rest
    using assms(5,6) n(3) by (simp add: that f min_absorb1)
  have at: "index p1 ! nat (int (length ps) - base_offset p1) = log_size ?ps"
    using n(3) by (simp add: p1 nth_append nat_diff_distrib)
  have eof: "read_at (int (length ps)) p1 = None"
    using read_at_header [OF _ _ at hd [of _ "[]"] assms(4)] n(3) assms(5,6) len by (simp add: p1)
  have old: "read_at off p1 = read_at off p" if "off < int (length ps)" for off
  proof (cases "int n \<le> off")
    case True
    have "read_at off p1 = Some (?ps ! nat (off - int n))"
      by (rule read_at_torn [of _ _ _ 1, OF _ _ _ _ _ ps]) (use True that n(3) in \<open>simp_all add: p1 f\<close>)
    also have "\<dots> = read_at off p"
      using read_at_log [OF h ps, of off] True that n(3) by simp
    finally show ?thesis .
  next
    case False
    then show ?thesis using h by (simp add: read_at_def p1 holds_def)
  qed
  have app: "read_at (int (length ps)) (snd (append_record r p1))
      = Some (take (length q) (take (k - headerSize) q @ record_bytes (int (length ps) + 1) r))"
    if c: "max_records p \<le> 0 \<or> int (length ps - n) + 2 \<le> max_records p" and l: "length q \<le> k + length r"
  proof -
    have "int (length (index p1)) + 1 = int (length ps - n) + 2" by (simp add: p1)
    with c have a: "append_record r p1 = (next_offset p1, p1\<lparr>log_file := log_file p1 @ record_bytes (next_offset p1) r,
        index := index p1 @ [length (log_file p1)], next_offset := next_offset p1 + 1\<rparr>)" (is "_ = (_, ?p2)")
      by (intro append_record_uncapped) (auto simp: p1)
    have lf: "log_file ?p2 = ?f @ record_bytes (int (length ps) + 1) r" by (simp add: p1)
    have i: "index ?p2 ! nat (int (length ps) - base_offset ?p2) = log_size ?ps"
      using n(3) by (simp add: p1 nth_append nat_diff_distrib)
    have "drop (log_size ?ps + headerSize) (log_file ?p2) = take (k - headerSize) q @ record_bytes (int (length ps) + 1) r"
    proof -
      have "drop (log_size ?ps + headerSize) ?f = take (k - headerSize) q"
        using assms(5,6) by (simp add: f drop_take headerSize_def record_bytes_def)
      then show ?thesis unfolding lf using assms(5) by (simp add: len)
    qed
    moreover have "read_at (int (length ps)) ?p2 = Some (take (length q) (drop (log_size ?ps + headerSize) (log_file ?p2)))"
      using read_at_header [OF _ _ i hd [OF lf] assms(4)] n(3) len l assms(5) by (simp add: p1)
    ultimately show ?thesis by (simp add: a)
  qed
  have "fst (append_record r p1) = int (length ps) + 1" by (simp add: fst_append_record p1)
  with eof old app show ?thesis unfolding Let_def p1_def [symmetric] by (simp add: p1)
qed

text \<open>
  C29. A torn write is not repaired. The broker crashes inside the write of a record after its
  header and before its last byte, and restarts. The torn record gets an index entry: the next
  append is given the offset after it, what was retained before is still there, and reading the
  torn offset is \<open>EOF\<close> although it lies below the next offset, so that a subscriber that arrives
  there does not get past it. Appending does not truncate the torn bytes either: once the next
  record fills up what is missing, the torn offset reads as the beginning of the lost payload
  followed by bytes of that record, its header included.
\<close>

theorem torn_write_unrepaired:
  assumes "retains n ps p" "small ps" "length ps + 1 < 2 ^ 63" "length q < 2 ^ 32"
    and "headerSize \<le> k" "k < headerSize + length q"
  shows "let p1 = recover (max_records p) (torn_file k q p)
     in next_offset p1 = int (length ps) + 1
      \<and> (\<forall>off < int (length ps). read_at off p1 = read_at off p)
      \<and> read_at (int (length ps)) p1 = None
      \<and> fst (append_record r p1) = int (length ps) + 1
      \<and> ((max_records p \<le> 0 \<or> int (length ps - n) + 2 \<le> max_records p) \<and> length q \<le> k + length r \<longrightarrow>
         read_at (int (length ps)) (snd (append_record r p1))
           = Some (take (length q) (take (k - headerSize) q @ record_bytes (int (length ps) + 1) r)))"
  using torn_write_facts [OF assms] unfolding Let_def by blast

theorem torn_write_unrepaired_witness:
  "\<exists>p. fst (log_run [Publish [7]] (recover 0 [])) = [0] \<and> snd (log_run [Publish [7]] (recover 0 [])) = p
    \<and> read_at 1 (recover 0 (torn_file 13 [1, 2, 3] p)) = None
    \<and> read_at 1 (snd (append_record [] (recover 0 (torn_file 13 [1, 2, 3] p)))) = Some [1, 0, 0]"
proof -
  obtain offs p where r: "log_run [Publish [7]] (recover 0 []) = (offs, p)" by fastforce
  have ps: "published [Publish [7]] = [[7]]" by simp
  from log_run_retains [OF retains_recover_empty _ _ r] obtain n where
    offs: "offs = [0]" and n: "retains n [[7]] p" and c: "max_records p = 0" by (auto simp: ps small_def)
  have k: "headerSize \<le> 13" "(13 :: nat) < headerSize + length [1, 2, 3 :: 8 word]" "length [1, 2, 3 :: 8 word] < 2 ^ 32"
    "length [[7 :: 8 word]] + 1 < 2 ^ 63" by (simp_all add: headerSize_def)
  have "take (length [1, 2, 3 :: 8 word]) (take (13 - headerSize) [1, 2, 3] @ record_bytes (int (length [[7 :: 8 word]]) + 1) []) = [1, 0, 0]"
    by code_simp
  with torn_write_unrepaired [OF n _ k(4) k(3) k(1,2), of "[]"] c
  have "read_at 1 (recover 0 (torn_file 13 [1, 2, 3] p)) = None
    \<and> read_at 1 (snd (append_record [] (recover 0 (torn_file 13 [1, 2, 3] p)))) = Some [1, 0, 0]"
    by (simp add: small_def Let_def)
  with offs show ?thesis by (simp only: r fst_conv snd_conv) blast
qed

text \<open>
  A write torn inside the header of a record is worse after the second restart. A log of which one
  byte of a first header got through takes an append at offset 0, which is acknowledged and can be
  read; after the next restart the headers are read one byte off, and the payload is gone.
\<close>

theorem torn_header_loses_record:
  "let p1 = recover 0 (torn_file 1 [9] (recover 0 [])); p2 = snd (append_record [1, 2, 3] p1)
   in fst (append_record [1, 2, 3] p1) = 0 \<and> read_at 0 p2 = Some [1, 2, 3]
    \<and> read_at 0 (recover 0 (log_file p2)) = Some []"
  by code_simp

end
