(* ===== verification/Broker.thy ===== *)
theory Broker
  imports Broker_Log Offsets
begin

text \<open>
  What \<open>broker/broker.go\<close> does with the partitions: the keys and file names, a subscription that
  runs while others publish and the log is trimmed, and the choice and filling of replicas. The
  hash ring is a parameter (the owners it names for a key).
\<close>

section \<open>Keys and file names\<close>

definition safe_char :: "char \<Rightarrow> bool" where
  "safe_char c \<longleftrightarrow> (CHR ''a'' \<le> c \<and> c \<le> CHR ''z'') \<or> (CHR ''A'' \<le> c \<and> c \<le> CHR ''Z'') \<or> (CHR ''0'' \<le> c \<and> c \<le> CHR ''9'')
     \<or> c = CHR ''_'' \<or> c = CHR ''-''"

definition sanitize :: "string \<Rightarrow> string" where
  "sanitize key = map (\<lambda>c. if safe_char c then c else CHR ''_'') key"

definition log_name :: "string \<Rightarrow> string" where
  "log_name key = sanitize key @ ''.log''"

definition or_all :: "string \<Rightarrow> string" where
  "or_all s = (if s = [] then ''ALL'' else s)"

definition partition_key :: "string \<Rightarrow> string \<Rightarrow> string \<Rightarrow> string" where
  "partition_key topic rgn tr = topic @ ''_'' @ or_all rgn @ ''_'' @ or_all tr"

text \<open>\<open>strings.LastIndex\<close> of a character; \<open>None\<close> stands for -1.\<close>

primrec last_index :: "char \<Rightarrow> string \<Rightarrow> nat option" where
  "last_index c [] = None"
| "last_index c (x # xs) =
     (case last_index c xs of Some i \<Rightarrow> Some (Suc i) | None \<Rightarrow> if x = c then Some 0 else None)"

definition split_key :: "string \<Rightarrow> string \<times> string \<times> string" where
  "split_key key =
     (case last_index (CHR ''_'') key of
        None \<Rightarrow> (key, ''ALL'', ''ALL'')
      | Some i \<Rightarrow>
          (let tr = drop (i + 1) key; rest = take i key
           in case last_index (CHR ''_'') rest of
                None \<Rightarrow> (rest, ''ALL'', tr)
              | Some j \<Rightarrow> (take j rest, drop (j + 1) rest, tr)))"

lemma last_index_none: "c \<notin> set xs \<Longrightarrow> last_index c xs = None"
  by (induction xs) auto

lemma last_index_append: "c \<notin> set ys \<Longrightarrow> last_index c (xs @ c # ys) = Some (length xs)"
  by (induction xs) (simp_all add: last_index_none)

lemma or_all_no_underscore: "CHR ''_'' \<notin> set s \<Longrightarrow> CHR ''_'' \<notin> set (or_all s)"
  by (simp add: or_all_def)

lemma split_partition_key:
  assumes "CHR ''_'' \<notin> set rgn" "CHR ''_'' \<notin> set tr"
  shows "split_key (partition_key topic rgn tr) = (topic, or_all rgn, or_all tr)"
proof -
  have "last_index (CHR ''_'') ((topic @ ''_'' @ or_all rgn) @ CHR ''_'' # or_all tr) = Some (length (topic @ ''_'' @ or_all rgn))"
    by (rule last_index_append [OF or_all_no_underscore [OF assms(2)]])
  then have 1: "last_index (CHR ''_'') (partition_key topic rgn tr) = Some (length (topic @ ''_'' @ or_all rgn))"
    by (simp add: partition_key_def)
  have 2: "last_index (CHR ''_'') (topic @ ''_'' @ or_all rgn) = Some (length topic)"
    using last_index_append [OF or_all_no_underscore [OF assms(1)], of topic] by simp
  have 3: "take (length (topic @ ''_'' @ or_all rgn)) (partition_key topic rgn tr) = topic @ ''_'' @ or_all rgn"
    "drop (length (topic @ ''_'' @ or_all rgn) + 1) (partition_key topic rgn tr) = or_all tr"
    by (simp_all add: partition_key_def)
  show ?thesis unfolding split_key_def 1 option.case Let_def 3 2 by simp
qed

lemma sanitize_safe: "(\<forall>c\<in>set key. safe_char c) \<Longrightarrow> sanitize key = key"
  by (simp add: sanitize_def map_idI)

lemma safe_partition_key:
  assumes "\<forall>c\<in>set (topic @ rgn @ tr). safe_char c"
  shows "\<forall>c\<in>set (partition_key topic rgn tr). safe_char c"
proof -
  have "safe_char (CHR ''_'')" "safe_char (CHR ''A'')" "safe_char (CHR ''L'')" by code_simp+
  with assms show ?thesis by (auto simp: partition_key_def or_all_def)
qed

text \<open>
  Every partition has a file of its own. For topics, regions and tiers of letters, digits,
  hyphens and underscores, regions and tiers without underscores, two publications go to the same
  log file exactly if they have the same topic, region and tier, an empty region or tier counting
  as \<open>ALL\<close>; and the broker recovers these three from the key.
\<close>

theorem partition_files_distinct:
  assumes "\<forall>c\<in>set (topic @ rgn @ tr @ topic' @ rgn' @ tr'). safe_char c"
    and "\<forall>s\<in>{rgn, tr, rgn', tr'}. CHR ''_'' \<notin> set s"
  shows "(log_name (partition_key topic rgn tr) = log_name (partition_key topic' rgn' tr')
        \<longleftrightarrow> (topic, or_all rgn, or_all tr) = (topic', or_all rgn', or_all tr'))
      \<and> split_key (partition_key topic rgn tr) = (topic, or_all rgn, or_all tr)"
    (is "(?same \<longleftrightarrow> ?eq) \<and> _")
proof (intro conjI iffI)
  have s: "split_key (partition_key topic rgn tr) = (topic, or_all rgn, or_all tr)"
    "split_key (partition_key topic' rgn' tr') = (topic', or_all rgn', or_all tr')"
    using assms(2) by (simp_all add: split_partition_key)
  then show "split_key (partition_key topic rgn tr) = (topic, or_all rgn, or_all tr)" by simp
  assume ?same
  then have "sanitize (partition_key topic rgn tr) = sanitize (partition_key topic' rgn' tr')"
    by (simp add: log_name_def)
  moreover have "sanitize (partition_key topic rgn tr) = partition_key topic rgn tr"
    "sanitize (partition_key topic' rgn' tr') = partition_key topic' rgn' tr'"
    by (intro sanitize_safe safe_partition_key; use assms(1) in auto)+
  ultimately show ?eq using s by metis
qed (simp add: partition_key_def)

theorem partition_files_distinct_witness:
  "log_name (partition_key ''raw_matches'' ''NA'' ''GOLD'') \<noteq> log_name (partition_key ''raw_matches'' ''EUW'' ''GOLD'')
   \<and> log_name (partition_key ''anomaly_alerts'' [] []) = log_name (partition_key ''anomaly_alerts'' ''ALL'' [])"
proof -
  have "\<forall>c\<in>set (''raw_matches'' @ ''NA'' @ ''GOLD'' @ ''raw_matches'' @ ''EUW'' @ ''GOLD''). safe_char c"
    "\<forall>c\<in>set (''anomaly_alerts'' @ [] @ [] @ ''anomaly_alerts'' @ ''ALL'' @ []). safe_char c" by code_simp+
  from this [THEN partition_files_distinct] show ?thesis by (simp add: or_all_def)
qed

section \<open>A subscription\<close>

text \<open>
  The turns of the loop of \<open>Subscribe\<close>. Each of the three looks at the partition takes its lock on
  its own, so that appends fall between them: \<open>BaseOffset\<close>, \<open>NextOffset\<close> and \<open>ReadAt\<close>. Waiting and
  the token bucket only pass time.
\<close>

datatype turn = At_Base | At_Next | At_Read

record subscription =
  sb_log :: partition
  sb_published :: "bytes list" \<comment> \<open>ghost: everything published so far\<close>
  sb_turn :: turn
  sb_offset :: int
  sb_sent :: "(bytes \<times> int) list"

definition subscribe_start :: "int \<Rightarrow> int" where
  "subscribe_start off = (if off < 0 then 0 else off)"

definition subscribe_step :: "subscription \<Rightarrow> subscription" where
  "subscribe_step s =
     (case sb_turn s of
        At_Base \<Rightarrow>
          (let base = base_offset (sb_log s)
           in s\<lparr>sb_offset := if sb_offset s < base then base else sb_offset s, sb_turn := At_Next\<rparr>)
      | At_Next \<Rightarrow> s\<lparr>sb_turn := if sb_offset s \<ge> next_offset (sb_log s) then At_Base else At_Read\<rparr>
      | At_Read \<Rightarrow>
          (case read_at (sb_offset s) (sb_log s) of
             None \<Rightarrow> s\<lparr>sb_turn := At_Base\<rparr>
           | Some payload \<Rightarrow>
               s\<lparr>sb_sent := sb_sent s @ [(payload, sb_offset s)], sb_offset := sb_offset s + 1, sb_turn := At_Base\<rparr>))"

definition publish_step :: "bytes \<Rightarrow> subscription \<Rightarrow> subscription" where
  "publish_step q s = s\<lparr>sb_log := snd (append_record q (sb_log s)), sb_published := sb_published s @ [q]\<rparr>"

text \<open>gRPC refuses messages of 4 GB and more, far beyond its configured limit.\<close>

inductive sub_step :: "subscription \<Rightarrow> subscription \<Rightarrow> bool" where
  publish_message: "length q < 2 ^ 32 \<Longrightarrow> sub_step s (publish_step q s)"
| subscriber_turn: "sub_step s (subscribe_step s)"

inductive_cases sub_stepE: "sub_step s s'"

inductive sub_reaches :: "subscription \<Rightarrow> subscription \<Rightarrow> bool" where
  start: "sub_reaches s s"
| more: "sub_reaches s s' \<Longrightarrow> sub_step s' s'' \<Longrightarrow> sub_reaches s s''"

definition subscribe :: "int \<Rightarrow> partition \<Rightarrow> bytes list \<Rightarrow> subscription" where
  "subscribe off p ps = \<lparr>sb_log = p, sb_published = ps, sb_turn = At_Base, sb_offset = subscribe_start off, sb_sent = []\<rparr>"

definition sub_ok :: "int \<Rightarrow> subscription \<Rightarrow> bool" where
  "sub_ok lo s \<longleftrightarrow>
     (\<exists>n. retains n (sb_published s) (sb_log s)) \<and> small (sb_published s)
     \<and> lo \<le> sb_offset s
     \<and> (\<forall>(q, off)\<in>set (sb_sent s). lo \<le> off \<and> off < sb_offset s \<and> off < int (length (sb_published s))
          \<and> q = sb_published s ! nat off)
     \<and> sorted_wrt (<) (map snd (sb_sent s))
     \<and> (\<forall>off. lo \<le> off \<and> off < sb_offset s \<longrightarrow> off \<in> snd ` set (sb_sent s) \<or> off < base_offset (sb_log s))"

lemma publish_step_ok:
  assumes ok: "sub_ok lo s" and lo: "0 \<le> lo" and q: "length q < 2 ^ 32"
  shows "sub_ok lo (publish_step q s)"
proof -
  let ?ps = "sb_published s" and ?p = "sb_log s"
  obtain n where n: "retains n ?ps ?p" using ok by (auto simp: sub_ok_def)
  from retains_append(2) [OF n, of q] obtain m where
    m: "n \<le> m" "retains m (?ps @ [q]) (snd (append_record q ?p))" by blast
  have base: "base_offset ?p \<le> base_offset (snd (append_record q ?p))"
    using retains_offsets(1) [OF n] retains_offsets(1) [OF m(2)] m(1) by simp
  show ?thesis
    unfolding sub_ok_def
  proof (intro conjI)
    show "\<exists>n. retains n (sb_published (publish_step q s)) (sb_log (publish_step q s))"
      using m(2) by (auto simp: publish_step_def)
    show "\<forall>off. lo \<le> off \<and> off < sb_offset (publish_step q s) \<longrightarrow>
        off \<in> snd ` set (sb_sent (publish_step q s)) \<or> off < base_offset (sb_log (publish_step q s))"
      using ok base by (fastforce simp: sub_ok_def publish_step_def)
    show "\<forall>(q', off)\<in>set (sb_sent (publish_step q s)). lo \<le> off \<and> off < sb_offset (publish_step q s)
        \<and> off < int (length (sb_published (publish_step q s))) \<and> q' = sb_published (publish_step q s) ! nat off"
      using ok lo by (fastforce simp: sub_ok_def publish_step_def nth_append)
  qed (use ok q in \<open>auto simp: sub_ok_def publish_step_def small_def\<close>)
qed

lemma subscribe_step_ok:
  assumes ok: "sub_ok lo s" and lo: "0 \<le> lo"
  shows "sub_ok lo (subscribe_step s)"
proof (cases "sb_turn s")
  case At_Base
  then show ?thesis using ok by (auto simp: sub_ok_def subscribe_step_def Let_def)
next
  case At_Next
  then show ?thesis using ok by (simp add: sub_ok_def subscribe_step_def)
next
  case At_Read
  obtain n where n: "retains n (sb_published s) (sb_log s)" "small (sb_published s)" using ok by (auto simp: sub_ok_def)
  show ?thesis
  proof (cases "read_at (sb_offset s) (sb_log s)")
    case None
    then show ?thesis using ok At_Read by (simp add: sub_ok_def subscribe_step_def)
  next
    case (Some q)
    then have q: "sb_offset s < int (length (sb_published s))" "q = sb_published s ! nat (sb_offset s)"
      by (simp_all add: retains_read [OF n] split: if_splits)
    have all: "off = sb_offset s \<or> off \<in> snd ` set (sb_sent s) \<or> off < base_offset (sb_log s)"
      if "lo \<le> off" "off < sb_offset s + 1" for off
      using ok that unfolding sub_ok_def by (metis zle_add1_eq_le order_le_less)
    show ?thesis
      using ok q all At_Read Some by (fastforce simp: sub_ok_def subscribe_step_def sorted_wrt_append)
  qed
qed

lemma sub_reaches_ok:
  assumes "sub_reaches s s'" "sub_ok lo s" "0 \<le> lo"
  shows "sub_ok lo s'"
  using assms
proof (induction rule: sub_reaches.induct)
  case (more s s' s'')
  from more.hyps(2) more.IH [OF more.prems] more.prems(2) show ?case
    by (elim sub_stepE) (simp_all add: publish_step_ok subscribe_step_ok)
qed

lemma subscribe_ok:
  "retains n ps p \<Longrightarrow> small ps \<Longrightarrow> sub_ok (subscribe_start off) (subscribe off p ps)"
  by (auto simp: sub_ok_def subscribe_def)

text \<open>Within the retained log nothing is skipped.\<close>

lemma sub_ok_no_gap:
  assumes ok: "sub_ok lo s" and base: "base_offset (sb_log s) \<le> lo"
  shows "sb_sent s = map (\<lambda>k. (sb_published s ! nat (lo + int k), lo + int k)) [0..<length (sb_sent s)]"
    and "sb_offset s = lo + int (length (sb_sent s))"
proof -
  have sorted: "sorted_wrt (<) (map snd (sb_sent s))" using ok by (simp add: sub_ok_def)
  have set: "set (map snd (sb_sent s)) = {lo..<sb_offset s}"
    using ok base unfolding sub_ok_def by (force simp: image_iff)
  have "map snd (sb_sent s) = [lo..sb_offset s - 1]"
  proof (rule sorted_distinct_set_unique)
    show "sorted (map snd (sb_sent s))" "distinct (map snd (sb_sent s))"
      using sorted strict_sorted_iff by blast+
  qed (use set in auto)
  also have "\<dots> = map (\<lambda>k. lo + int k) [0..<nat (sb_offset s - lo)]"
    by (rule nth_equalityI) simp_all
  finally have snds: "map snd (sb_sent s) = map (\<lambda>k. lo + int k) [0..<nat (sb_offset s - lo)]" .
  from arg_cong [OF this, of length] have len: "length (sb_sent s) = nat (sb_offset s - lo)" by simp
  have "lo \<le> sb_offset s" using ok by (simp add: sub_ok_def)
  with len have at: "sb_offset s = lo + int (length (sb_sent s))" by simp
  have "sb_sent s ! k = (sb_published s ! nat (lo + int k), lo + int k)" if k: "k < length (sb_sent s)" for k
  proof -
    have "snd (sb_sent s ! k) = lo + int k"
      using arg_cong [OF snds, of "\<lambda>xs. xs ! k"] k len by simp
    moreover have "fst (sb_sent s ! k) = sb_published s ! nat (snd (sb_sent s ! k))"
      using ok nth_mem [OF k] unfolding sub_ok_def by (cases "sb_sent s ! k") fastforce
    ultimately show ?thesis by (simp add: prod_eq_iff)
  qed
  then show "sb_sent s = map (\<lambda>k. (sb_published s ! nat (lo + int k), lo + int k)) [0..<length (sb_sent s)]"
    by (auto intro!: nth_equalityI)
  show "sb_offset s = lo + int (length (sb_sent s))" by (rule at)
qed

text \<open>
  C28. A subscription delivers the log. While others publish and the retention trims, a subscriber
  gets only what was published, each message at most once and in the order of the offsets, with its
  offset, from the requested one on; what it is not sent among the offsets it has passed was
  trimmed away. A subscriber that started within the retained log and did not fall behind it has
  been sent exactly the published messages from its start on, without a gap.
\<close>

theorem subscription_delivers:
  assumes "retains n ps p" "small ps" and "sub_reaches (subscribe req p ps) s"
  shows "(\<forall>(q, off)\<in>set (sb_sent s). subscribe_start req \<le> off \<and> off < int (length (sb_published s)) \<and> q = sb_published s ! nat off)
    \<and> sorted_wrt (<) (map snd (sb_sent s))
    \<and> (\<forall>off. subscribe_start req \<le> off \<and> off < sb_offset s \<longrightarrow> off \<in> snd ` set (sb_sent s) \<or> off < base_offset (sb_log s))
    \<and> (base_offset (sb_log s) \<le> subscribe_start req \<longrightarrow>
         sb_sent s = map (\<lambda>k. (sb_published s ! nat (subscribe_start req + int k), subscribe_start req + int k)) [0..<length (sb_sent s)]
       \<and> sb_offset s = subscribe_start req + int (length (sb_sent s)))"
proof -
  have "0 \<le> subscribe_start req" by (simp add: subscribe_start_def)
  note ok = sub_reaches_ok [OF assms(3) subscribe_ok [OF assms(1,2)] this]
  from ok sub_ok_no_gap [OF ok] show ?thesis unfolding sub_ok_def by fastforce
qed

theorem subscription_delivers_witness:
  "sb_sent ((subscribe_step ^^ 3) (publish_step [8] (subscribe 0 (snd (append_record [7] (recover 0 []))) [[7]])))
    = [([7], 0)]"
proof -
  define s1 where "s1 = publish_step [8] (subscribe 0 (snd (append_record [7] (recover 0 []))) [[7]])"
  define s where "s = (subscribe_step ^^ 3) s1"
  obtain n where n: "retains n [[7]] (snd (append_record [7] (recover 0 [])))"
    using retains_append(2) [OF retains_recover_empty, of "[7]" 0] by auto
  have "sub_reaches (subscribe 0 (snd (append_record [7] (recover 0 []))) [[7]]) s1"
    unfolding s1_def by (rule sub_reaches.more [OF sub_reaches.start publish_message]) simp
  then have r: "sub_reaches (subscribe 0 (snd (append_record [7] (recover 0 []))) [[7]]) ((subscribe_step ^^ k) s1)" for k
    by (induction k) (auto intro: sub_reaches.more subscriber_turn)
  have "small [[7]]" by (simp add: small_def)
  from subscription_delivers [OF n this r [of 3, folded s_def]]
  have "base_offset (sb_log s) \<le> subscribe_start 0 \<Longrightarrow>
      sb_sent s = map (\<lambda>k. (sb_published s ! nat (subscribe_start 0 + int k), subscribe_start 0 + int k)) [0..<length (sb_sent s)]"
    by blast
  moreover have "base_offset (sb_log s) = 0" "sb_published s = [[7], [8]]" "length (sb_sent s) = 1"
    unfolding s_def s1_def by code_simp+
  ultimately have "sb_sent s = [([7], 0)]" by (simp add: subscribe_start_def)
  then show ?thesis by (simp only: s_def s1_def)
qed

text \<open>One round of the loop, when nothing is published during it.\<close>

lemma subscribe_round:
  assumes "sb_turn s = At_Base" "base_offset (sb_log s) \<le> sb_offset s" "sb_offset s < next_offset (sb_log s)"
  shows "(subscribe_step ^^ 3) s =
    (case read_at (sb_offset s) (sb_log s) of
       None \<Rightarrow> s
     | Some q \<Rightarrow> s\<lparr>sb_sent := sb_sent s @ [(q, sb_offset s)], sb_offset := sb_offset s + 1\<rparr>)"
  using assms by (cases s) (simp add: subscribe_step_def numeral_3_eq_3 Let_def split: option.split)

text \<open>
  A subscriber within the retained log catches up: after three turns for each message that it is
  behind it has been sent them all.
\<close>

theorem subscription_catches_up:
  assumes "retains n ps p" "small ps" "int n \<le> off" "off + int m = int (length ps)"
  shows "sb_sent ((subscribe_step ^^ (3 * m)) (subscribe off p ps)) = map (\<lambda>k. (ps ! nat (off + int k), off + int k)) [0..<m]"
proof -
  have off: "0 \<le> off" using assms(3) by linarith
  have "(subscribe_step ^^ (3 * j)) (subscribe off p ps)
      = (subscribe off p ps)\<lparr>sb_sent := map (\<lambda>k. (ps ! nat (off + int k), off + int k)) [0..<j], sb_offset := off + int j\<rparr>"
    if "j \<le> m" for j
    using that
  proof (induction j)
    case 0
    then show ?case using off by (simp add: subscribe_def subscribe_start_def)
  next
    case (Suc j)
    let ?s = "(subscribe off p ps)\<lparr>sb_sent := map (\<lambda>k. (ps ! nat (off + int k), off + int k)) [0..<j], sb_offset := off + int j\<rparr>"
    have "(subscribe_step ^^ (3 * Suc j)) (subscribe off p ps) = (subscribe_step ^^ 3) ?s"
      using Suc by (simp add: funpow_add)
    also have "\<dots> = ?s\<lparr>sb_sent := sb_sent ?s @ [(ps ! nat (off + int j), off + int j)], sb_offset := off + int j + 1\<rparr>"
      using assms Suc.prems retains_offsets [OF assms(1)] retains_read [OF assms(1,2), of "off + int j"]
      by (subst subscribe_round) (simp_all add: subscribe_def)
    finally show ?case by simp
  qed
  from this [of m] show ?thesis by simp
qed

text \<open>A subscriber at a torn record makes no progress.\<close>

theorem torn_write_blocks_subscriber:
  assumes "retains n ps p" "small ps" "length ps + 1 < 2 ^ 63" "length q < 2 ^ 32"
    and "headerSize \<le> k" "k < headerSize + length q"
  shows "(subscribe_step ^^ (3 * m)) (subscribe (int (length ps)) (recover (max_records p) (torn_file k q p)) ps)
    = subscribe (int (length ps)) (recover (max_records p) (torn_file k q p)) ps"
proof -
  let ?s = "subscribe (int (length ps)) (recover (max_records p) (torn_file k q p)) ps"
  have t: "next_offset (sb_log ?s) = int (length ps) + 1" "read_at (int (length ps)) (sb_log ?s) = None"
    using torn_write_facts [OF assms] by (simp_all add: subscribe_def Let_def)
  have "base_offset (sb_log ?s) \<le> int (length ps)"
    using torn_write_facts [OF assms] retains_offsets(3) [OF assms(1)] by (simp add: subscribe_def Let_def)
  then have "(subscribe_step ^^ 3) ?s = ?s"
    by (subst subscribe_round) (simp_all add: t, simp_all add: subscribe_def subscribe_start_def t [unfolded subscribe_def, simplified])
  then show ?thesis by (induction m) (simp_all add: funpow_add)
qed

section \<open>What the processor is sent\<close>

text \<open>
  The processor's subscriber thread consumes what the broker sends it: \<open>Offsets.session\<close>, which takes
  the messages from the saved offset on out of the list of all published messages, is this
  subscription, as long as the saved offset lies within the retained log.
\<close>

theorem session_reads_subscription:
  assumes "retains n ps p" "small ps" and "sub_reaches (subscribe (load dir prt (sub_files u)) p ps) s"
    and "0 \<le> load dir prt (sub_files u)" "base_offset (sb_log s) \<le> load dir prt (sub_files u)"
  shows "session parse (sb_published s) dir prt (length (sb_sent s)) u
    = consume parse dir prt (load dir prt (sub_files u)) (map fst (sb_sent s)) (u\<lparr>last_saved := load dir prt (sub_files u)\<rparr>)"
proof -
  let ?start = "load dir prt (sub_files u)"
  have start: "subscribe_start ?start = ?start" using assms(4) by (simp add: subscribe_start_def)
  have ok: "sub_ok ?start s" by (rule sub_reaches_ok [OF assms(3) subscribe_ok [OF assms(1,2), of ?start, unfolded start] assms(4)])
  note sent = sub_ok_no_gap(1) [OF ok assms(5)]
  have below: "\<forall>(q, off)\<in>set (sb_sent s). off < int (length (sb_published s))" using ok by (auto simp: sub_ok_def)
  have len: "nat ?start + k < length (sb_published s)" if k: "k < length (sb_sent s)" for k
  proof -
    have "sb_sent s ! k = (sb_published s ! nat (?start + int k), ?start + int k)" by (subst sent) (simp add: k)
    with below nth_mem [OF k] have "?start + int k < int (length (sb_published s))" by fastforce
    with assms(4) show ?thesis by linarith
  qed
  have "map fst (sb_sent s) = take (length (sb_sent s)) (drop (nat ?start) (sb_published s))"
  proof (rule nth_equalityI)
    have "length (sb_sent s) \<le> length (sb_published s) - nat ?start"
      using len [of "length (sb_sent s) - 1"] by (cases "length (sb_sent s)") simp_all
    then show "length (map fst (sb_sent s)) = length (take (length (sb_sent s)) (drop (nat ?start) (sb_published s)))" by simp
    fix k
    assume "k < length (map fst (sb_sent s))"
    then have k: "k < length (sb_sent s)" by simp
    have "fst (sb_sent s ! k) = sb_published s ! nat (?start + int k)" by (subst sent) (simp add: k)
    moreover have "nat (?start + int k) = nat ?start + k" using assms(4) by simp
    ultimately show "map fst (sb_sent s) ! k = take (length (sb_sent s)) (drop (nat ?start) (sb_published s)) ! k"
      using k len [OF k] by simp
  qed
  then show ?thesis by (simp add: session_def Let_def)
qed

section \<open>Replicas\<close>

definition replicationFactor :: nat where
  "replicationFactor = 2"

text \<open>The loop of \<open>replicaTargets\<close> over the owners that the ring names.\<close>

fun pick_targets :: "string \<Rightarrow> string list \<Rightarrow> string list \<Rightarrow> string list" where
  "pick_targets self [] targets = targets"
| "pick_targets self (a # owners) targets =
     (if a = self then pick_targets self owners targets
      else (let targets' = targets @ [a]
            in if length targets' \<ge> replicationFactor - 1 then targets' else pick_targets self owners targets'))"

definition replicaTargets :: "string \<Rightarrow> string list \<Rightarrow> string list" where
  "replicaTargets self owners = pick_targets self owners []"

text \<open>
  A publication: its offset, the log after it, and the peers it is replicated to, which are none
  for a publication that is itself a replica's.
\<close>

definition publish_handler :: "bool \<Rightarrow> string list \<Rightarrow> bytes \<Rightarrow> partition \<Rightarrow> int \<times> partition \<times> string list" where
  "publish_handler is_replica replicas q p =
     (case append_record q p of (off, p') \<Rightarrow> (off, p', if is_replica then [] else replicas))"

text \<open>The payloads that \<open>backfill\<close> publishes to a new replica, and the replica's log after them.\<close>

definition backfill :: "partition \<Rightarrow> bytes list" where
  "backfill p = List.map_filter (\<lambda>k. read_at (int k) p) [0..<nat (next_offset p)]"

definition after_backfill :: "partition \<Rightarrow> partition \<Rightarrow> partition" where
  "after_backfill p r = fold (\<lambda>q r. fst (snd (publish_handler True [] q r))) (backfill p) r"

definition peer_dead :: "string list \<Rightarrow> string list \<Rightarrow> string list \<times> string list" where
  "peer_dead old targets = (targets, filter (\<lambda>t. t \<notin> set old) targets)"

text \<open>A partition is replicated to the first owner that is another node; a replica's write goes no further.\<close>

lemma replicaTargets_first: "replicaTargets self owners = take 1 (filter (\<lambda>a. a \<noteq> self) owners)"
  unfolding replicaTargets_def by (induction owners) (simp_all add: replicationFactor_def Let_def)

theorem replica_writes:
  "publish_handler is_replica (replicaTargets self owners) q p = (off, p', targets)
   \<Longrightarrow> self \<notin> set targets \<and> length targets < replicationFactor \<and> set targets \<subseteq> set owners \<and> (is_replica \<longrightarrow> targets = [])"
proof (cases "filter (\<lambda>a. a \<noteq> self) owners")
  case (Cons a rest)
  then have "a \<noteq> self" "a \<in> set owners" by (auto simp: filter_eq_Cons_iff)
  then show "publish_handler is_replica (replicaTargets self owners) q p = (off, p', targets) \<Longrightarrow> ?thesis"
    by (auto simp: publish_handler_def replicaTargets_first Cons replicationFactor_def split: prod.splits if_splits)
qed (auto simp: publish_handler_def replicaTargets_first replicationFactor_def split: prod.splits)

lemma backfill_payloads:
  assumes "retains n ps p" "small ps"
  shows "backfill p = drop n ps"
proof -
  note f = retains_offsets [OF assms(1)]
  have some: "List.map_filter g xs = map h xs" if "\<forall>k\<in>set xs. g k = Some (h k)" for g :: "nat \<Rightarrow> bytes option" and h xs
    using that by (induction xs) (simp_all add: map_filter_simps)
  have none: "List.map_filter g xs = []" if "\<forall>k\<in>set xs. g k = None" for g :: "nat \<Rightarrow> bytes option" and xs
    using that by (induction xs) (simp_all add: map_filter_simps)
  have "List.map_filter (\<lambda>k. read_at (int k) p) [0..<n] = []"
    by (rule none) (simp add: retains_read [OF assms])
  moreover have "List.map_filter (\<lambda>k. read_at (int k) p) [n..<length ps] = map (\<lambda>k. ps ! k) [n..<length ps]"
    by (rule some) (simp add: retains_read [OF assms])
  moreover have "map (\<lambda>k. ps ! k) [n..<length ps] = drop n ps" by (rule nth_equalityI) (use f(3) in simp_all)
  moreover have "[0..<length ps] = [0..<n] @ [n..<length ps]" using f(3) by (metis le0 le_add_diff_inverse upt_add_eq_append)
  ultimately show ?thesis by (simp add: backfill_def f(2) map_filter_def)
qed

text \<open>
  Filling a replica renumbers the messages. A replica that has received the messages \<open>rs\<close> before has
  those that the partition retains behind them afterwards: message number \<open>n + k\<close> of the partition is
  at offset \<open>length rs + k\<close> of the replica, a different one unless the replica had received exactly as
  many messages as the partition has trimmed.
\<close>

theorem backfill_renumbers:
  assumes "retains n ps p" "small ps" "retains m rs r" "small rs" "max_records r \<le> 0" "k < length ps - n"
  shows "read_at (int (n + k)) p = Some (ps ! (n + k))"
    and "read_at (int (length rs + k)) (after_backfill p r) = Some (ps ! (n + k))"
proof -
  show "read_at (int (n + k)) p = Some (ps ! (n + k))"
    using assms(6) by (simp add: retains_read [OF assms(1,2)] nat_add_distrib)
  have fold: "retains m rs r \<Longrightarrow> max_records r \<le> 0 \<Longrightarrow>
      \<exists>m. retains m (rs @ qs) (fold (\<lambda>q r. fst (snd (publish_handler True [] q r))) qs r) \<and>
          max_records (fold (\<lambda>q r. fst (snd (publish_handler True [] q r))) qs r) \<le> 0" for qs m rs r
  proof (induction qs arbitrary: m rs r)
    case (Cons q qs)
    have h: "fst (snd (publish_handler True [] q r)) = snd (append_record q r)"
      by (simp add: publish_handler_def split: prod.split)
    from retains_append(2) [OF Cons.prems(1), of q] obtain m' where "retains m' (rs @ [q]) (snd (append_record q r))" by blast
    from Cons.IH [OF this] Cons.prems(2) show ?case by (simp add: h)
  qed auto
  from fold [OF assms(3,5), of "drop n ps"] obtain m' where
    m': "retains m' (rs @ drop n ps) (after_backfill p r)" "max_records (after_backfill p r) \<le> 0"
    by (auto simp: after_backfill_def backfill_payloads [OF assms(1,2)])
  have "m' = 0" using m' by (simp add: retains_def split: if_splits)
  moreover have "small (rs @ drop n ps)" using assms(4) retains_small [OF assms(2), of n] by (auto simp: small_def)
  ultimately show "read_at (int (length rs + k)) (after_backfill p r) = Some (ps ! (n + k))"
    using retains_read [OF m'(1), of "int (length rs + k)"] assms(6) by (simp add: nth_append nat_add_distrib)
qed

end
