(* ===== verification/Hash_Ring.thy ===== *)
theory Hash_Ring
  imports Py_Str "HOL-Library.Word"
begin

text \<open>
  The consistent hashing ring of \<open>hasher/hashring.go\<close>, by which the brokers place the replicas of a
  partition and the meta store those of an entry. CRC-32 is a parameter; \<open>sort.Search\<close> on a sorted
  slice returns the number of elements below the key.
\<close>

section \<open>The ring\<close>

type_synonym ring_hash = "32 word"

record hash_ring =
  virtual_nodes :: nat
  ring :: "ring_hash list" \<comment> \<open>sorted\<close>
  node_map :: "ring_hash \<rightharpoonup> string"
  ring_nodes :: "string list" \<comment> \<open>the keys of the map \<open>nodes\<close>\<close>

definition new_ring :: "int \<Rightarrow> hash_ring" where
  "new_ring v = \<lparr>virtual_nodes = (if v \<le> 0 then 150 else nat v), ring = [], node_map = (\<lambda>_. None), ring_nodes = []\<rparr>"

definition slot_label :: "string \<Rightarrow> nat \<Rightarrow> string" where
  "slot_label addr i = addr @ ''#'' @ show_int (int i)"

definition add_slot ::
    "(string \<Rightarrow> ring_hash) \<Rightarrow> string \<Rightarrow> nat \<Rightarrow> ring_hash list \<times> (ring_hash \<rightharpoonup> string) \<Rightarrow>
     ring_hash list \<times> (ring_hash \<rightharpoonup> string)" where
  "add_slot crc addr i x =
     (case x of (hs, m) \<Rightarrow>
        (let h = crc (slot_label addr i) in if m h \<noteq> None then (hs, m) else (hs @ [h], m(h \<mapsto> addr))))"

definition add_node :: "(string \<Rightarrow> ring_hash) \<Rightarrow> string \<Rightarrow> hash_ring \<Rightarrow> hash_ring" where
  "add_node crc addr r =
     (if addr \<in> set (ring_nodes r) then r
      else (case fold (add_slot crc addr) [0..<virtual_nodes r] (ring r, node_map r) of
              (hs, m) \<Rightarrow> r\<lparr>ring_nodes := ring_nodes r @ [addr], ring := sort hs, node_map := m\<rparr>))"

definition remove_node :: "string \<Rightarrow> hash_ring \<Rightarrow> hash_ring" where
  "remove_node addr r =
     (if addr \<notin> set (ring_nodes r) then r
      else r\<lparr>ring_nodes := filter (\<lambda>a. a \<noteq> addr) (ring_nodes r),
             ring := filter (\<lambda>h. node_map r h \<noteq> Some addr) (ring r),
             node_map := (\<lambda>h. if h \<in> set (ring r) \<and> node_map r h = Some addr then None else node_map r h)\<rparr>)"

definition search :: "ring_hash \<Rightarrow> hash_ring \<Rightarrow> nat" where
  "search h r =
     (let idx = length (takeWhile (\<lambda>x. x < h) (ring r)) in if idx = length (ring r) then 0 else idx)"

definition owner :: "hash_ring \<Rightarrow> ring_hash \<Rightarrow> string" where
  "owner r h = (case node_map r h of None \<Rightarrow> [] | Some a \<Rightarrow> a)"

definition get_node :: "(string \<Rightarrow> ring_hash) \<Rightarrow> string \<Rightarrow> hash_ring \<Rightarrow> string" where
  "get_node crc key r = (if ring r = [] then [] else owner r (ring r ! search (crc key) r))"

text \<open>The loop of \<open>GetNodes\<close> over the slots from the primary on; \<open>seen\<close> holds the elements of the result.\<close>

fun walk :: "hash_ring \<Rightarrow> nat \<Rightarrow> ring_hash list \<Rightarrow> string list \<Rightarrow> string list" where
  "walk r n [] result = result"
| "walk r n (h # hs) result =
     (if length result < n
      then walk r n hs (if owner r h \<in> set result then result else result @ [owner r h])
      else result)"

definition get_nodes :: "(string \<Rightarrow> ring_hash) \<Rightarrow> string \<Rightarrow> int \<Rightarrow> hash_ring \<Rightarrow> string list" where
  "get_nodes crc key n r =
     (if ring r = [] \<or> n \<le> 0 then []
      else (let start = search (crc key) r
            in walk r (min (nat n) (length (ring_nodes r))) (drop start (ring r) @ take start (ring r)) []))"

section \<open>Invariant\<close>

definition ring_ok :: "hash_ring \<Rightarrow> bool" where
  "ring_ok r \<longleftrightarrow>
     sorted (ring r) \<and> distinct (ring r) \<and> set (ring r) = dom (node_map r)
     \<and> ran (node_map r) \<subseteq> set (ring_nodes r) \<and> distinct (ring_nodes r)"

lemma ring_ok_new: "ring_ok (new_ring v)"
  by (simp add: ring_ok_def new_ring_def)

lemma add_slots:
  assumes "distinct hs" "set hs = dom m" "fold (add_slot crc addr) is (hs, m) = (hs', m')"
  shows "distinct hs' \<and> set hs' = dom m'
    \<and> m' = (\<lambda>h. if m h = None \<and> h \<in> (\<lambda>i. crc (slot_label addr i)) ` set is then Some addr else m h)"
  using assms
proof (induction "is" arbitrary: hs m)
  case (Cons i "is")
  let ?h = "crc (slot_label addr i)"
  obtain hs1 m1 where s: "add_slot crc addr i (hs, m) = (hs1, m1)" by fastforce
  then have 1: "distinct hs1" "set hs1 = dom m1" "m1 = (if m ?h \<noteq> None then m else m(?h \<mapsto> addr))"
    using Cons.prems(1,2) by (auto simp: add_slot_def Let_def split: if_splits)
  from Cons.IH [OF 1(1,2)] Cons.prems(3) s show ?case by (auto simp: 1(3) fun_eq_iff)
qed auto

lemma ring_ok_add:
  assumes "ring_ok r"
  shows "ring_ok (add_node crc addr r)"
    and "ring_nodes (add_node crc addr r) = (if addr \<in> set (ring_nodes r) then ring_nodes r else ring_nodes r @ [addr])"
    and "addr \<notin> set (ring_nodes r) \<Longrightarrow> node_map (add_node crc addr r) =
      (\<lambda>h. if node_map r h = None \<and> h \<in> (\<lambda>i. crc (slot_label addr i)) ` {..<virtual_nodes r} then Some addr else node_map r h)"
proof -
  obtain hs m where f: "fold (add_slot crc addr) [0..<virtual_nodes r] (ring r, node_map r) = (hs, m)" by fastforce
  from add_slots [OF _ _ this] assms
  have hs: "distinct hs" "set hs = dom m"
    and m: "m = (\<lambda>h. if node_map r h = None \<and> h \<in> (\<lambda>i. crc (slot_label addr i)) ` {0..<virtual_nodes r} then Some addr else node_map r h)"
    by (auto simp: ring_ok_def)
  have "ran m \<subseteq> insert addr (ran (node_map r))" unfolding m by (auto simp: ran_def split: if_splits)
  then show "ring_ok (add_node crc addr r)" using assms hs by (auto simp: ring_ok_def add_node_def f)
  show "ring_nodes (add_node crc addr r) = (if addr \<in> set (ring_nodes r) then ring_nodes r else ring_nodes r @ [addr])"
    by (simp add: add_node_def f)
  show "addr \<notin> set (ring_nodes r) \<Longrightarrow> node_map (add_node crc addr r) =
      (\<lambda>h. if node_map r h = None \<and> h \<in> (\<lambda>i. crc (slot_label addr i)) ` {..<virtual_nodes r} then Some addr else node_map r h)"
    by (simp add: add_node_def f m atLeast0LessThan)
qed

lemma ring_ok_remove:
  assumes "ring_ok r"
  shows "ring_ok (remove_node addr r)"
    and "ring_nodes (remove_node addr r) = filter (\<lambda>a. a \<noteq> addr) (ring_nodes r)"
    and "node_map (remove_node addr r) = (\<lambda>h. if node_map r h = Some addr then None else node_map r h)"
    and "ring (remove_node addr r) = filter (\<lambda>h. node_map r h \<noteq> Some addr) (ring r)"
proof -
  have no: "node_map r h \<noteq> Some addr" if "addr \<notin> set (ring_nodes r)" for h
    using assms that by (auto simp: ring_ok_def ran_def)
  show nodes: "ring_nodes (remove_node addr r) = filter (\<lambda>a. a \<noteq> addr) (ring_nodes r)"
    by (auto simp: remove_node_def intro!: filter_True [symmetric])
  show map: "node_map (remove_node addr r) = (\<lambda>h. if node_map r h = Some addr then None else node_map r h)"
    using assms no by (auto simp: remove_node_def ring_ok_def fun_eq_iff)
  show ring: "ring (remove_node addr r) = filter (\<lambda>h. node_map r h \<noteq> Some addr) (ring r)"
    using no by (auto simp: remove_node_def intro!: filter_True [symmetric])
  show "ring_ok (remove_node addr r)"
    using assms unfolding ring_ok_def nodes map ring
    by (auto simp: sorted_wrt_filter ran_def dom_def split: if_splits)
qed

section \<open>The owners of a key\<close>

text \<open>Reference: the distinct nodes in the order of their first slots, clockwise from the hash of the key.\<close>

primrec firsts :: "'a list \<Rightarrow> 'a list" where
  "firsts [] = []"
| "firsts (x # xs) = x # filter (\<lambda>y. y \<noteq> x) (firsts xs)"

definition clockwise :: "ring_hash \<Rightarrow> hash_ring \<Rightarrow> ring_hash list" where
  "clockwise h r = filter (\<lambda>x. h \<le> x) (ring r) @ filter (\<lambda>x. x < h) (ring r)"

definition owners :: "(string \<Rightarrow> ring_hash) \<Rightarrow> string \<Rightarrow> hash_ring \<Rightarrow> string list" where
  "owners crc key r = firsts (map (owner r) (clockwise (crc key) r))"

lemma set_firsts [simp]: "set (firsts xs) = set xs"
  by (induction xs) auto

lemma distinct_firsts [simp]: "distinct (firsts xs)"
  by (induction xs) auto

lemma filter_firsts: "filter P (firsts xs) = firsts (filter P xs)"
proof (induction xs)
  case (Cons x xs)
  have "filter P (filter (\<lambda>y. y \<noteq> x) (firsts xs)) = filter (\<lambda>y. y \<noteq> x) (filter P (firsts xs))" by (simp add: conj_commute)
  moreover have "filter (\<lambda>y. y \<noteq> x) (filter P (firsts xs)) = filter P (firsts xs)" if "\<not> P x"
    using that by (auto simp: conj_commute intro!: filter_cong)
  ultimately show ?case using Cons by simp
qed simp

lemma walk_firsts:
  "length result \<le> n \<Longrightarrow>
   walk r n hs result = take n (result @ filter (\<lambda>a. a \<notin> set result) (firsts (map (owner r) hs)))"
proof (induction hs arbitrary: result)
  case (Cons h hs)
  let ?a = "owner r h" and ?f = "firsts (map (owner r) hs)"
  show ?case
  proof (cases "length result < n")
    case True
    show ?thesis
    proof (cases "?a \<in> set result")
      case in_result: True
      then have "filter (\<lambda>a. a \<notin> set result) (filter (\<lambda>y. y \<noteq> ?a) ?f) = filter (\<lambda>a. a \<notin> set result) ?f"
        unfolding filter_filter by (intro filter_cong) auto
      with True in_result Cons.IH [OF Cons.prems] show ?thesis by simp
    next
      case out: False
      then have "filter (\<lambda>a. a \<notin> set result) (filter (\<lambda>y. y \<noteq> ?a) ?f) = filter (\<lambda>a. a \<notin> set (result @ [?a])) ?f"
        unfolding filter_filter by (intro filter_cong) auto
      with True out Cons.IH [of "result @ [?a]"] show ?thesis by simp
    qed
  next
    case False
    then show ?thesis using Cons.prems by simp
  qed
qed simp

lemma sorted_takeWhile_filter: "sorted xs \<Longrightarrow> takeWhile (\<lambda>x. x < h) xs = filter (\<lambda>x. x < (h :: 'a :: linorder)) xs"
  by (induction xs) (force simp: not_less intro!: filter_False [symmetric])+

lemma sorted_dropWhile_filter: "sorted xs \<Longrightarrow> dropWhile (\<lambda>x. x < h) xs = filter (\<lambda>x. (h :: 'a :: linorder) \<le> x) xs"
  by (induction xs) (force simp: not_less intro!: filter_True [symmetric])+

lemma clockwise_search:
  assumes "ring_ok r"
  shows "drop (search h r) (ring r) @ take (search h r) (ring r) = clockwise h r"
proof -
  let ?tw = "takeWhile (\<lambda>x. x < h) (ring r)" and ?dw = "dropWhile (\<lambda>x. x < h) (ring r)"
  have s: "sorted (ring r)" using assms by (simp add: ring_ok_def)
  have c: "clockwise h r = ?dw @ ?tw"
    unfolding clockwise_def sorted_takeWhile_filter [OF s] sorted_dropWhile_filter [OF s] ..
  show ?thesis
  proof (cases "length ?tw = length (ring r)")
    case True
    then have "?dw = []" by (metis takeWhile_dropWhile_id length_append length_0_conv add_cancel_right_right)
    then have "?tw = ring r" by (metis takeWhile_dropWhile_id append_Nil2)
    moreover have "search h r = 0" unfolding search_def Let_def True by simp
    ultimately show ?thesis by (simp only: c \<open>?dw = []\<close> drop_0 take_0 append_Nil append_Nil2)
  next
    case False
    then show ?thesis by (simp add: search_def c dropWhile_eq_drop [symmetric] takeWhile_eq_take [symmetric])
  qed
qed

lemma owners_nodes:
  assumes "ring_ok r"
  shows "set (owners crc key r) \<subseteq> set (ring_nodes r)" "distinct (owners crc key r)"
    "length (owners crc key r) \<le> length (ring_nodes r)"
proof -
  have "owner r h \<in> set (ring_nodes r)" if "h \<in> set (ring r)" for h
  proof -
    obtain a where "node_map r h = Some a" using assms \<open>h \<in> set (ring r)\<close> by (auto simp: ring_ok_def)
    then show ?thesis using assms by (auto simp: owner_def ring_ok_def ran_def)
  qed
  then show sub: "set (owners crc key r) \<subseteq> set (ring_nodes r)" by (auto simp: owners_def clockwise_def)
  show d: "distinct (owners crc key r)" by (simp add: owners_def)
  have "card (set (owners crc key r)) \<le> card (set (ring_nodes r))" by (rule card_mono [OF _ sub]) simp
  then show "length (owners crc key r) \<le> length (ring_nodes r)"
    using assms by (simp add: distinct_card [OF d] distinct_card ring_ok_def)
qed

text \<open>\<open>GetNodes\<close> returns the first \<open>n\<close> owners of a key, each once.\<close>

theorem get_nodes_owners:
  assumes "ring_ok r"
  shows "get_nodes crc key n r = take (nat n) (owners crc key r)"
proof (cases "ring r = [] \<or> n \<le> 0")
  case True
  then show ?thesis by (auto simp: get_nodes_def owners_def clockwise_def)
next
  case False
  then have "get_nodes crc key n r = walk r (min (nat n) (length (ring_nodes r))) (clockwise (crc key) r) []"
    by (simp add: get_nodes_def Let_def clockwise_search [OF assms])
  then have "get_nodes crc key n r = take (min (nat n) (length (ring_nodes r))) (owners crc key r)"
    by (simp add: walk_firsts owners_def)
  then show ?thesis using owners_nodes(3) [OF assms, of crc key] by (simp add: min_def)
qed

section \<open>Changes of the ring\<close>

text \<open>
  Removing a node takes it out of the owners of every key and leaves the order of the others; a key
  that the node is not among the first \<open>n\<close> owners of keeps these.
\<close>

theorem remove_node_owners:
  assumes "ring_ok r"
  shows "owners crc key (remove_node addr r) = filter (\<lambda>a. a \<noteq> addr) (owners crc key r)"
    and "addr \<notin> set (get_nodes crc key n r) \<Longrightarrow> get_nodes crc key n (remove_node addr r) = get_nodes crc key n r"
proof -
  let ?r = "remove_node addr r"
  have o: "owner r h \<noteq> addr \<longleftrightarrow> node_map r h \<noteq> Some addr" "node_map r h \<noteq> Some addr \<Longrightarrow> owner ?r h = owner r h"
    if "h \<in> set (ring r)" for h
  proof -
    obtain a where "node_map r h = Some a" using assms \<open>h \<in> set (ring r)\<close> by (auto simp: ring_ok_def)
    then show "owner r h \<noteq> addr \<longleftrightarrow> node_map r h \<noteq> Some addr" "node_map r h \<noteq> Some addr \<Longrightarrow> owner ?r h = owner r h"
      by (simp_all add: owner_def ring_ok_remove(3) [OF assms])
  qed
  have "clockwise (crc key) ?r = filter (\<lambda>h. owner r h \<noteq> addr) (clockwise (crc key) r)"
    unfolding clockwise_def ring_ok_remove(4) [OF assms] filter_append filter_filter
    by (intro arg_cong2 [of _ _ _ _ append] filter_cong) (auto simp: o)
  then have "map (owner ?r) (clockwise (crc key) ?r) = filter (\<lambda>a. a \<noteq> addr) (map (owner r) (clockwise (crc key) r))"
    by (auto simp: filter_map comp_def clockwise_def o intro!: map_cong)
  then show own: "owners crc key ?r = filter (\<lambda>a. a \<noteq> addr) (owners crc key r)"
    by (simp add: owners_def filter_firsts)
  have "take k (filter (\<lambda>a. a \<noteq> addr) xs) = take k xs" if "addr \<notin> set (take k xs)" for k xs
    using that by (induction xs arbitrary: k) (auto simp: take_Cons split: nat.splits)
  then show "addr \<notin> set (get_nodes crc key n r) \<Longrightarrow> get_nodes crc key n ?r = get_nodes crc key n r"
    by (simp add: get_nodes_owners [OF assms] get_nodes_owners [OF ring_ok_remove(1) [OF assms]] own)
qed

text \<open>
  A universe of nodes without collisions. Then every node has its slots in the ring, whatever was
  added and removed in whatever order, so that programs that know the same nodes agree on the
  owners of every key, and \<open>GetNodes\<close> names as many as there are.
\<close>

definition collision_free :: "(string \<Rightarrow> ring_hash) \<Rightarrow> nat \<Rightarrow> string set \<Rightarrow> bool" where
  "collision_free crc v U \<longleftrightarrow>
     (\<forall>a\<in>U. \<forall>b\<in>U. \<forall>i<v. \<forall>j<v. crc (slot_label a i) = crc (slot_label b j) \<longrightarrow> a = b)"

datatype ring_op = Add string | Remove string

primrec op_node :: "ring_op \<Rightarrow> string" where
  "op_node (Add a) = a"
| "op_node (Remove a) = a"

definition ring_step :: "(string \<Rightarrow> ring_hash) \<Rightarrow> ring_op \<Rightarrow> hash_ring \<Rightarrow> hash_ring" where
  "ring_step crc op r = (case op of Add a \<Rightarrow> add_node crc a r | Remove a \<Rightarrow> remove_node a r)"

definition ring_full :: "(string \<Rightarrow> ring_hash) \<Rightarrow> hash_ring \<Rightarrow> bool" where
  "ring_full crc r \<longleftrightarrow>
     (\<forall>h a. node_map r h = Some a \<longleftrightarrow> a \<in> set (ring_nodes r) \<and> (\<exists>i<virtual_nodes r. h = crc (slot_label a i)))"

lemma virtual_nodes_step [simp]: "virtual_nodes (ring_step crc op r) = virtual_nodes r"
  by (simp add: ring_step_def add_node_def remove_node_def split: ring_op.split prod.split)

lemma ring_full_step:
  assumes ok: "ring_ok r" and full: "ring_full crc r" and cf: "collision_free crc (virtual_nodes r) U"
    and U: "set (ring_nodes r) \<subseteq> U" "op_node op \<in> U"
  shows "ring_ok (ring_step crc op r)" "ring_full crc (ring_step crc op r)" "set (ring_nodes (ring_step crc op r)) \<subseteq> U"
proof -
  show "ring_ok (ring_step crc op r)" using ok by (simp add: ring_step_def ring_ok_add ring_ok_remove split: ring_op.split)
  show "set (ring_nodes (ring_step crc op r)) \<subseteq> U"
    using U by (cases op) (auto simp: ring_step_def ring_ok_add(2) [OF ok] ring_ok_remove(2) [OF ok])
  show "ring_full crc (ring_step crc op r)"
  proof (cases op)
    case (Add a)
    show ?thesis
    proof (cases "a \<in> set (ring_nodes r)")
      case True
      then show ?thesis using full by (simp add: Add ring_step_def add_node_def)
    next
      case False
      have clash: "node_map r (crc (slot_label a i)) = None" if "i < virtual_nodes r" for i
      proof (rule ccontr)
        assume "node_map r (crc (slot_label a i)) \<noteq> None"
        then obtain b j where "b \<in> set (ring_nodes r)" "j < virtual_nodes r" "crc (slot_label a i) = crc (slot_label b j)"
          using full by (auto simp: ring_full_def)
        with cf U that Add False show False unfolding collision_free_def by (metis op_node.simps(1) subsetD)
      qed
      have some: "node_map r (crc (slot_label b i)) = Some b" if "b \<in> set (ring_nodes r)" "i < virtual_nodes r" for b i
        using full that by (auto simp: ring_full_def)
      have "node_map (add_node crc a r) h = Some b \<longleftrightarrow>
          b \<in> set (ring_nodes r @ [a]) \<and> (\<exists>i<virtual_nodes r. h = crc (slot_label b i))" for h b
      proof (cases "node_map r h")
        case None
        then show ?thesis unfolding ring_ok_add(3) [OF ok False] by (auto simp: some)
      next
        case (Some c)
        then obtain j where "c \<in> set (ring_nodes r)" "j < virtual_nodes r" "h = crc (slot_label c j)"
          using full by (auto simp: ring_full_def)
        with Some show ?thesis unfolding ring_ok_add(3) [OF ok False] by (auto simp: some) (metis clash some option.inject option.distinct(1))+
      qed
      then show ?thesis
        using False virtual_nodes_step [of crc op r] by (simp add: ring_full_def Add ring_step_def ring_ok_add(2) [OF ok])
    qed
  next
    case (Remove a)
    have "node_map (remove_node a r) h = Some b \<longleftrightarrow> node_map r h = Some b \<and> b \<noteq> a" for h b
      by (auto simp: ring_ok_remove(3) [OF ok])
    then show ?thesis
      using full virtual_nodes_step [of crc op r]
      by (auto simp: Remove ring_full_def ring_step_def ring_ok_remove(2) [OF ok])
  qed
qed

lemma ring_run_full:
  assumes "ring_ok r" "ring_full crc r" "collision_free crc (virtual_nodes r) U" "set (ring_nodes r) \<subseteq> U" "op_node ` set ops \<subseteq> U"
  shows "ring_ok (fold (ring_step crc) ops r) \<and> ring_full crc (fold (ring_step crc) ops r)
    \<and> virtual_nodes (fold (ring_step crc) ops r) = virtual_nodes r"
  using assms
proof (induction ops arbitrary: r)
  case (Cons op ops)
  then have "op_node op \<in> U" by simp
  note step = ring_full_step [OF Cons.prems(1-4) this]
  from Cons.IH [OF step(1,2) _ step(3)] Cons.prems(3,5) show ?case by simp
qed simp

lemma full_rings_equal:
  assumes "ring_ok r" "ring_ok r'" "ring_full crc r" "ring_full crc r'"
    and "virtual_nodes r = virtual_nodes r'" "set (ring_nodes r) = set (ring_nodes r')"
  shows "ring r = ring r' \<and> node_map r = node_map r'"
proof -
  have "node_map r h = Some a \<longleftrightarrow> node_map r' h = Some a" for h a
    using assms(3-6) by (simp add: ring_full_def)
  then have m: "node_map r = node_map r'" by (intro ext) (metis option.exhaust)
  with assms(1,2) have "set (ring r) = set (ring r')" by (simp add: ring_ok_def)
  with assms(1,2) m show ?thesis by (auto simp: ring_ok_def intro: sorted_distinct_set_unique)
qed

theorem rings_agree:
  assumes "collision_free crc (virtual_nodes (new_ring v)) U" "op_node ` set (ops @ ops') \<subseteq> U"
  defines "r \<equiv> fold (ring_step crc) ops (new_ring v)" and "r' \<equiv> fold (ring_step crc) ops' (new_ring v)"
  assumes "set (ring_nodes r) = set (ring_nodes r')"
  shows "get_nodes crc key n r = get_nodes crc key n r'"
    and "length (get_nodes crc key n r) = min (nat n) (card (set (ring_nodes r)))"
proof -
  have new: "ring_ok (new_ring v)" "ring_full crc (new_ring v)" "set (ring_nodes (new_ring v)) \<subseteq> U"
    by (simp_all add: ring_ok_new) (simp_all add: ring_full_def new_ring_def)
  have r: "ring_ok r" "ring_full crc r" "virtual_nodes r = virtual_nodes (new_ring v)"
    and r': "ring_ok r'" "ring_full crc r'" "virtual_nodes r' = virtual_nodes (new_ring v)"
    using ring_run_full [OF new(1,2) assms(1) new(3), of ops] ring_run_full [OF new(1,2) assms(1) new(3), of ops'] assms(2)
    by (simp_all add: r_def r'_def image_Un)
  have eq: "ring r = ring r'" "node_map r = node_map r'"
    using full_rings_equal [OF r(1) r'(1) r(2) r'(2)] r(3) r'(3) assms(5) by simp_all
  have "owner r = owner r'" by (simp add: fun_eq_iff owner_def eq)
  then have "owners crc key r = owners crc key r'" by (simp add: owners_def clockwise_def eq)
  then show "get_nodes crc key n r = get_nodes crc key n r'" by (simp add: get_nodes_owners r r')
  have "set (ring_nodes r) \<subseteq> set (owners crc key r)"
  proof
    fix a
    assume a: "a \<in> set (ring_nodes r)"
    have "0 < virtual_nodes r" by (simp add: r(3) new_ring_def)
    with a r(2) have m: "node_map r (crc (slot_label a 0)) = Some a" by (auto simp: ring_full_def)
    then have "crc (slot_label a 0) \<in> set (ring r)" using r(1) by (auto simp: ring_ok_def)
    moreover have "owner r (crc (slot_label a 0)) = a" using m by (simp add: owner_def)
    ultimately show "a \<in> set (owners crc key r)" by (force simp: owners_def clockwise_def)
  qed
  with owners_nodes(1) [OF r(1), of crc key] have "set (owners crc key r) = set (ring_nodes r)" by blast
  then have "length (owners crc key r) = card (set (ring_nodes r))"
    using distinct_card [OF owners_nodes(2) [OF r(1), of crc key]] by simp
  then show "length (get_nodes crc key n r) = min (nat n) (card (set (ring_nodes r)))" by (simp add: get_nodes_owners r min_def)
qed

end
