(* ===== verification/Api_App.thy ===== *)
theory Api_App
  imports Endpoints
begin

text \<open>
  The REST application as a whole, \<open>api/main.py\<close>: the middleware in front of the handlers, for a
  sequence of requests. FastAPI's routing of a request to a handler and the rendering of what a
  handler returns are parameters; \<open>None\<close> stands for a request without a handler.
\<close>

section \<open>One request\<close>

text \<open>What a request meets: the environment of the service and of a lookup at that moment.\<close>

record moment =
  mo_env :: api_env
  mo_api :: "string \<Rightarrow> riot_api" \<comment> \<open>Riot's answers under a key\<close>
  mo_iso_date :: "int \<Rightarrow> string"
  mo_file_ok :: bool
  mo_today :: string

definition profile_lookup :: "display \<Rightarrow> moment \<Rightarrow> player_lookup" where
  "profile_lookup dsp mo key game_name tag st =
     build_player_profile (mo_api mo key) dsp (mo_iso_date mo) (en_now_ms (mo_env mo)) (mo_file_ok mo) (mo_today mo) game_name tag st"

definition app_next ::
    "(request \<Rightarrow> api_request option) \<Rightarrow> (api_response option \<Rightarrow> response) \<Rightarrow> display \<Rightarrow> moment \<Rightarrow> request \<Rightarrow> api_state \<Rightarrow>
     response \<times> api_state" where
  "app_next routes shown dsp mo r st =
     (case routes r of
        None \<Rightarrow> (shown None, st)
      | Some req \<Rightarrow> (case handle (mo_env mo) (profile_lookup dsp mo) req st of (res, st') \<Rightarrow> (shown (Some res), st')))"

text \<open>
  \<open>None\<close> for the response: the middleware raised an exception (which it never does while its limits
  are positive).
\<close>

definition serve ::
    "tunables \<Rightarrow> (request \<Rightarrow> api_request option) \<Rightarrow> (api_response option \<Rightarrow> response) \<Rightarrow> display \<Rightarrow> arrival \<times> moment \<Rightarrow>
     guards \<times> api_state \<Rightarrow> (response \<times> bool) option \<times> guards \<times> api_state" where
  "serve cfg routes shown dsp x s =
     (case (x, s) of (((now, day, r), mo), (g, st)) \<Rightarrow>
        (case rate_limit_middleware cfg (\<lambda>r. fst (app_next routes shown dsp mo r st)) now day r g of
           (res, g') \<Rightarrow> (res, g', if called res then snd (app_next routes shown dsp mo r st) else st)))"

text \<open>A run: the responses, each with the number of requests made to Riot on its behalf.\<close>

primrec app_run ::
    "tunables \<Rightarrow> (request \<Rightarrow> api_request option) \<Rightarrow> (api_response option \<Rightarrow> response) \<Rightarrow> display \<Rightarrow>
     (arrival \<times> moment) list \<Rightarrow> guards \<times> api_state \<Rightarrow>
     ((arrival \<times> (response \<times> bool) option \<times> nat) list) \<times> guards \<times> api_state" where
  "app_run cfg routes shown dsp [] s = ([], s)"
| "app_run cfg routes shown dsp (x # xs) s =
     (case serve cfg routes shown dsp x s of (res, s1) \<Rightarrow>
        (case app_run cfg routes shown dsp xs s1 of (out, s2) \<Rightarrow>
          ((fst x, res, requests (as_riot (snd s1)) - requests (as_riot (snd s))) # out, s2)))"

section \<open>Requests to Riot\<close>

definition ids_capped :: "riot_api \<Rightarrow> bool" where
  "ids_capped api \<longleftrightarrow> (\<forall>host path i len ids. api_ids api host path i = Body len ids \<longrightarrow> length ids \<le> 20)"

lemma lookup_requests:
  assumes ids: "ids_capped api"
    and run: "build_player_profile api dsp iso_date now_ms ok today game_name tag st = (r, st')"
  shows "requests st \<le> requests st' \<and> requests st' \<le> requests st + 46"
proof -
  obtain platform ac cluster where rt: "route tag = (platform, ac, cluster)" by (cases "route tag")
  obtain q n where acct: "account api game_name tag (requests st) = (q, n)" by fastforce
  note n = account_requests [OF acct]
  note run' = run [unfolded build_player_profile_def rt prod.case Let_def acct]
  show ?thesis
  proof (cases "\<exists>a pid. q = Inr (Some a) \<and> ac_puuid a = Some pid")
    case False
    then have "st' = st\<lparr>requests := n\<rparr>" using run' by (auto split: sum.splits option.splits)
    with n show ?thesis by simp
  next
    case True
    then obtain a pid where q: "q = Inr (Some a)" "ac_puuid a = Some pid" by blast
    from run' q profile_of_account_result [OF ids [unfolded ids_capped_def], of dsp iso_date now_ms ok today platform cluster]
    have "n < requests st' \<and> requests st' \<le> n + 44" by fastforce
    with n show ?thesis by simp
  qed
qed

lemma player_analysis_profile:
  "player_analysis f ck nm k = Profile p \<Longrightarrow> \<exists>key g t. f key g t = Inr p"
  by (auto simp: player_analysis_def Let_def split: prod.splits if_splits sum.splits)

lemma answer_player_state:
  assumes "answer_player build ck nm k rs = (res, rs')"
  shows "rs' = rs \<or> (\<exists>key g t. rs' = snd (build key g t rs))"
proof (cases "player_analysis (\<lambda>key g t. Inr (build key g t rs)) ck nm k")
  case (Profile p)
  from player_analysis_profile [OF this] obtain key g t where b: "build key g t rs = p" by auto
  have "rs' = snd p"
    using assms by (cases p) (auto simp: answer_player_def Profile split: sum.splits riot_exc.splits)
  with b show ?thesis by blast
qed (use assms in \<open>simp_all add: answer_player_def\<close>)

lemma dispatch_state:
  "snd (dispatch env build call st) = st'
   \<Longrightarrow> as_riot st' = as_riot st \<or> (\<exists>nm r k key g t. call = PlayerAnalysis nm r k \<and> as_riot st' = snd (build key g t (as_riot st)))"
proof (cases call)
  case (PlayerAnalysis nm r k)
  assume d: "snd (dispatch env build call st) = st'"
  obtain res rs where a: "answer_player build (en_configured_key env) nm k (as_riot st) = (res, rs)" by fastforce
  with d PlayerAnalysis have "as_riot st' = rs" by auto
  with answer_player_state [OF a] show ?thesis by (auto simp: PlayerAnalysis)
qed (auto split: prod.splits)

lemma endpoint_player: "endpoint req = Inr (PlayerAnalysis nm r k) \<Longrightarrow> \<exists>a b c d. req = PlayerReq a b c d"
proof (cases req)
  case (ListReq et pt rgn tr rng limit)
  then show "endpoint req = Inr (PlayerAnalysis nm r k) \<Longrightarrow> ?thesis"
    by (simp add: with_filters_def with_param_def split: sum.splits)
qed (auto simp: with_filters_def with_param_def split: sum.splits)

lemma app_next_requests:
  assumes ids: "\<And>key. ids_capped (mo_api mo key)" and n: "app_next routes shown dsp mo r st = (res, st')"
  shows "requests (as_riot st) \<le> requests (as_riot st')"
    and "requests (as_riot st') \<le> requests (as_riot st) + (if \<exists>a b c d. routes r = Some (PlayerReq a b c d) then 46 else 0)"
proof -
  have "as_riot st' = as_riot st
    \<or> (\<exists>key g t. (\<exists>a b c d. routes r = Some (PlayerReq a b c d)) \<and> as_riot st' = snd (profile_lookup dsp mo key g t (as_riot st)))"
  proof (cases "routes r")
    case None
    then show ?thesis using n by (simp add: app_next_def)
  next
    case (Some req)
    show ?thesis
    proof (cases "endpoint req")
      case (Inl e)
      then show ?thesis using n Some by (simp add: app_next_def handle_def)
    next
      case (Inr call)
      then have "snd (dispatch (mo_env mo) (profile_lookup dsp mo) call st) = st'"
        using n Some by (simp add: app_next_def handle_def split: prod.splits)
      from dispatch_state [OF this] show ?thesis
      proof (elim disjE exE conjE)
        fix nm rgn k key g t
        assume "call = PlayerAnalysis nm rgn k" and st': "as_riot st' = snd (profile_lookup dsp mo key g t (as_riot st))"
        with Inr endpoint_player have "\<exists>a b c d. routes r = Some (PlayerReq a b c d)" using Some by blast
        with st' show ?thesis by blast
      qed simp
    qed
  qed
  moreover have "requests rs \<le> requests (snd (profile_lookup dsp mo key g t rs))
      \<and> requests (snd (profile_lookup dsp mo key g t rs)) \<le> requests rs + 46" for key g t rs
    unfolding profile_lookup_def by (rule lookup_requests [OF ids prod.collapse [symmetric]])
  ultimately show "requests (as_riot st) \<le> requests (as_riot st')"
    "requests (as_riot st') \<le> requests (as_riot st) + (if \<exists>a b c d. routes r = Some (PlayerReq a b c d) then 46 else 0)"
    by auto
qed

section \<open>The run and the run of the middleware\<close>

lemma middleware_next:
  "rate_limit_middleware cfg f now day r g = (res, g') \<Longrightarrow>
     \<exists>res'. rate_limit_middleware cfg f' now day r g = (res', g') \<and> called res' = called res"
  by (auto simp: rate_limit_middleware_def called_def split: prod.splits option.splits if_splits)

lemma app_run_guards:
  "app_run cfg routes shown dsp xs (g, st) = (out, g', st') \<Longrightarrow>
     mw_run cfg f (map fst xs) g = (map (\<lambda>(x, res, n). (x, called res)) out, g')"
proof (induction xs arbitrary: g st out)
  case (Cons x xs)
  obtain now day r mo where x: "x = ((now, day, r), mo)" by (metis surj_pair)
  obtain res g1 where m: "rate_limit_middleware cfg (\<lambda>r. fst (app_next routes shown dsp mo r st)) now day r g = (res, g1)"
    by fastforce
  from middleware_next [OF this, of f] obtain res' where
    m': "rate_limit_middleware cfg f now day r g = (res', g1)" "called res' = called res" by blast
  let ?st1 = "if called res then snd (app_next routes shown dsp mo r st) else st"
  have s: "serve cfg routes shown dsp x (g, st) = (res, g1, ?st1)" by (simp add: serve_def x m)
  obtain out1 where o: "app_run cfg routes shown dsp xs (g1, ?st1) = (out1, g', st')"
    and out: "out = (fst x, res, requests (as_riot ?st1) - requests (as_riot st)) # out1"
    using Cons.prems by (auto simp: s split: prod.splits)
  from Cons.IH [OF o] show ?case by (simp add: out x m')
qed simp

definition riot_requests :: "int \<Rightarrow> (arrival \<times> (response \<times> bool) option \<times> nat) list \<Rightarrow> nat" where
  "riot_requests d out = sum_list (map (\<lambda>((now, day, r), res, n). if day = d then n else 0) out)"

lemma app_run_requests:
  assumes ids: "\<forall>x\<in>set xs. \<forall>key. ids_capped (mo_api (snd x) key)"
    and routes: "\<And>r a b c d. routes r = Some (PlayerReq a b c d) \<Longrightarrow> prefix ''/player/'' (req_path r)"
    and run: "app_run cfg routes shown dsp xs s = (out, s')"
  shows "riot_requests d out \<le> 46 * served (map (\<lambda>(x, res, n). (x, called res)) out) (lookup_on d)"
  using ids run
proof (induction xs arbitrary: s out)
  case Nil
  then show ?case by (simp add: riot_requests_def)
next
  case (Cons x xs)
  obtain now day r mo where x: "x = ((now, day, r), mo)" by (metis surj_pair)
  obtain g st where s: "s = (g, st)" by fastforce
  obtain res g1 where m: "rate_limit_middleware cfg (\<lambda>r. fst (app_next routes shown dsp mo r st)) now day r g = (res, g1)"
    by fastforce
  obtain a st2 where n: "app_next routes shown dsp mo r st = (a, st2)" by fastforce
  let ?st1 = "if called res then st2 else st"
  let ?k = "requests (as_riot ?st1) - requests (as_riot st)"
  have sv: "serve cfg routes shown dsp x s = (res, g1, ?st1)" by (simp add: serve_def x s m n)
  obtain out1 where o: "app_run cfg routes shown dsp xs (g1, ?st1) = (out1, s')" and out: "out = (fst x, res, ?k) # out1"
    using Cons.prems(2) by (auto simp: sv [unfolded s] s split: prod.splits)
  have "\<And>key. ids_capped (mo_api mo key)" using Cons.prems(1) by (simp add: x)
  note ap = app_next_requests [OF this n]
  have "?k \<le> (if called res \<and> prefix ''/player/'' (req_path r) then 46 else 0)"
    using ap routes [of r] by (auto split: if_splits)
  moreover have "riot_requests d out1 \<le> 46 * served (map (\<lambda>(x, res, n). (x, called res)) out1) (lookup_on d)"
    using Cons.IH [OF _ o] Cons.prems(1) by simp
  ultimately show ?case
    unfolding out riot_requests_def by (auto simp: x served_Cons split: if_splits)
qed

text \<open>
  C26. The daily budget holds end to end. With the limits enabled, for any sequence of requests at
  non-decreasing times and days: if only paths below \<open>/player/\<close> are routed to the player handler
  and Riot answers a request for 20 match ids with at most 20, then the requests that the
  application makes to Riot on one day, over all clients, are at most 46 times
  \<open>RIOT_DAILY_CAP\<close>.
\<close>

theorem riot_daily_budget:
  assumes "RATE_PER_MIN cfg > 0" "PLAYER_RATE_PER_MIN cfg > 0" "RIOT_DAILY_CAP cfg > 0"
    and "sorted (map (fst \<circ> fst) xs)" "sorted (map (fst \<circ> snd \<circ> fst) xs)" "\<forall>x\<in>set xs. 0 \<le> fst (snd (fst x))"
    and "\<forall>x\<in>set xs. \<forall>key. ids_capped (mo_api (snd x) key)"
    and "\<And>r a b c d. routes r = Some (PlayerReq a b c d) \<Longrightarrow> prefix ''/player/'' (req_path r)"
  shows "int (riot_requests d (fst (app_run cfg routes shown dsp xs (new_guards cfg, st)))) \<le> 46 * RIOT_DAILY_CAP cfg"
proof -
  obtain n where n: "RATE_PER_MIN cfg = int (Suc n)" using assms(1) by (metis zero_less_imp_eq_int gr0_implies_Suc)
  obtain m where m: "PLAYER_RATE_PER_MIN cfg = int (Suc m)" using assms(2) by (metis zero_less_imp_eq_int gr0_implies_Suc)
  obtain out g' st' where run: "app_run cfg routes shown dsp xs (new_guards cfg, st) = (out, g', st')" by (metis surj_pair)
  let ?out = "map (\<lambda>(x, res, n). (x, called res)) out"
  have mw: "mw_run cfg (\<lambda>_. page sample_request) (map fst xs) (new_guards cfg) = (?out, g')"
    by (rule app_run_guards [OF run])
  define T where "T = Min (insert 0 (fst ` set (map fst xs)))"
  have T: "\<forall>x\<in>set (map fst xs). T \<le> fst x" by (simp add: T_def)
  have day: "\<forall>x\<in>set (map fst xs). cap_day (riot_daily (new_guards cfg)) \<le> fst (snd x)"
    using assms(6) by (auto simp: new_guards_def new_daily_cap_def)
  have g: "guards_tracked (Suc n) (Suc m) [] (new_guards cfg) [] [] [] T"
    using assms(3) by (simp add: guards_tracked_new)
  have sorted: "sorted (map fst (map fst xs))" "sorted (map (fst \<circ> snd) (map fst xs))"
    using assms(4,5) by (simp_all add: comp_def)
  from mw_run_tracked [OF n m assms(3) mw g sorted(1) T sorted(2) day] obtain Lg Lp ds T' where
    t: "guards_tracked (Suc n) (Suc m) [] g' Lg Lp ds T'"
    and c: "cap (riot_daily g') = cap (riot_daily (new_guards cfg))" and s: "served ?out (lookup_on d) \<le> count_list ds d" by auto
  have "int (count_list ds d) \<le> RIOT_DAILY_CAP cfg"
    using t c by (auto simp: guards_tracked_def day_tracked_def new_guards_def new_daily_cap_def)
  moreover have "riot_requests d out \<le> 46 * served ?out (lookup_on d)"
    by (rule app_run_requests [OF assms(7,8) run])
  ultimately show ?thesis using s unfolding run fst_conv by linarith
qed

section \<open>The address that is limited\<close>

lemma split_on_none: "sep \<notin> set s \<Longrightarrow> split_on sep s = [s]"
  by (induction s) auto

text \<open>
  The client chooses the address it is limited by: behind a header \<open>X-Forwarded-For\<close> with an
  address that the limiter has no recent request of, any request outside the Riot-backed paths
  reaches the application, whatever the same client has sent before.
\<close>

theorem forwarded_address_evades:
  assumes "RATE_PER_MIN cfg > 0" "\<not> is_riot (req_path r)"
    and "dict_get (req_headers r) ''x-forwarded-for'' [] = a"
    and "a \<noteq> []" "CHR '','' \<notin> set a" "strip a = a" "length a \<le> 64"
    and "dict_get (global_rl g) (''g:'' @ a) [] = []"
  shows "called (fst (rate_limit_middleware cfg f now day r g))"
proof -
  have "split_on (CHR '','') a = [a]" using assms(5) by (simp add: split_on_none)
  then have ip: "client_ip r = a" using assms(3,4,6,7) by (simp add: client_ip_def)
  have "\<not> prefix ''/player/'' (req_path r)" using assms(2) by (simp add: is_riot_def RIOT_PATHS_def)
  with assms(1,2,8) show ?thesis
    by (simp add: rate_limit_middleware_def check_limits_def ip allow_def drop_old_def Let_def called_def split: prod.split)
qed

section \<open>Witness\<close>

definition sample_moment :: moment where
  "sample_moment =
     \<lparr>mo_env = \<lparr>en_scan = (\<lambda>_ _ _. None), en_now = 0, en_now_ms = 0, en_set_order = id, en_configured_key = None\<rparr>,
      mo_api = (\<lambda>_. sample_api), mo_iso_date = show_int, mo_file_ok = True, mo_today = ''2025-01-02''\<rparr>"

definition sample_routes :: "request \<Rightarrow> api_request option" where
  "sample_routes r = (if req_path r = ''/player/x'' then Some (PlayerReq ''Some One#NA1'' ''NA'' ''k'' []) else None)"

definition sample_api_state :: api_state where
  "sample_api_state = \<lparr>as_cache = new_cache 60, as_alerts = [], as_riot = \<lparr>known_ids = [], rank_file = None, requests = 0\<rparr>\<rparr>"

definition sample_app_run :: "((arrival \<times> (response \<times> bool) option \<times> nat) list) \<times> guards \<times> api_state" where
  "sample_app_run =
     app_run \<lparr>RATE_PER_MIN = 5, PLAYER_RATE_PER_MIN = 2, RIOT_DAILY_CAP = 1\<rparr> sample_routes (\<lambda>_. page sample_request)
       \<lparr>champion_icons = [], item_icons = [], item_names = [], trait_by_norm = []\<rparr>
       [((0, 1, sample_request), sample_moment), ((1, 1, sample_request), sample_moment)]
       (new_guards \<lparr>RATE_PER_MIN = 5, PLAYER_RATE_PER_MIN = 2, RIOT_DAILY_CAP = 1\<rparr>, sample_api_state)"

theorem riot_daily_budget_witness:
  "int (riot_requests 1 (fst sample_app_run)) \<le> 46 \<and> map (\<lambda>(x, res, n). called res) (fst sample_app_run) = [True, False]"
proof -
  let ?cfg = "\<lparr>RATE_PER_MIN = 5, PLAYER_RATE_PER_MIN = 2, RIOT_DAILY_CAP = 1\<rparr>"
  let ?xs = "[((0 :: py_float, 1 :: int, sample_request), sample_moment), ((1, 1, sample_request), sample_moment)]"
  have "ids_capped sample_api" by (simp add: ids_capped_def sample_api_def)
  then have ids: "\<forall>x\<in>set ?xs. \<forall>key. ids_capped (mo_api (snd x) key)" by (simp add: sample_moment_def)
  obtain out g' st' where run: "sample_app_run = (out, g', st')" by (metis surj_pair)
  have "map snd (fst (mw_run ?cfg page (map fst ?xs) (new_guards ?cfg))) = [True, False]" by code_simp
  then have "map (\<lambda>(x, res, n). called res) out = [True, False]"
    unfolding app_run_guards [OF run [unfolded sample_app_run_def], of page] by (simp add: comp_def case_prod_unfold)
  moreover have "int (riot_requests 1 (fst sample_app_run)) \<le> 46 * RIOT_DAILY_CAP ?cfg"
    unfolding sample_app_run_def
    by (rule riot_daily_budget) (use ids in \<open>simp_all add: sample_routes_def sample_request_def prefix_code split: if_splits\<close>)
  ultimately show ?thesis by (simp add: run)
qed

end
