(* ===== verification/Spec2Isabelle.thy ===== *)
theory Spec2Isabelle
  imports Processor Anomaly Pipeline Ingestion Endpoints Set_Data Startup Catalogue Set_Render Store_Service Broker Hash_Ring Api_App
begin

text \<open>
  A verification development for the Python services of the TFT statistics system.

  \<^bold>\<open>The program.\<close> Ingestion workers fetch matches from Riot's API, or make up synthetic ones, stamp
  each with the node's sequence number and publish it to a broker. The stream processor
  subscribes to the broker's partitions, restores causal order in a reorder buffer, aggregates
  placements per champion, item, augment, champion with item, and composition, and writes the
  statistics with a vector clock to the meta store at every flush. The anomaly service scans the
  meta store and publishes alerts on win rates that leave their recent range. The REST API reads
  the meta store through a cache, lists and compares entities, forwards player lookups to Riot and
  guards itself with rate limits and parameter checks. Broker and meta store are Go programs that
  the Python code reaches through gRPC; what they store and answer decides what the services may
  rely on, so their storage and their handlers are modelled as well.

  \<^bold>\<open>The theories\<close>, from the bottom up, with the files of \<open>src/\<close> they model.

  \<^item> \<open>Prelude\<close>: dictionaries in insertion order, grouping, stable sorting, Python's \<open>round\<close> and
    \<open>max\<close>; the locales \<open>accumulator\<close> (what a loop adds to an observation) and the register of
    maxima that clock merging uses.
  \<^item> \<open>Py_Str\<close>: strings, case, \<open>strip\<close>, \<open>split\<close>, \<open>replace\<close>, decimal numbers.
  \<^item> \<open>Proto\<close>: the messages of \<open>proto/tft.proto\<close> and the topics of \<open>common/proto.py\<close>.
  \<^item> \<open>Heapq\<close>: the array heap of Python's \<open>heapq\<close>.
  \<^item> \<open>Buffer_Spec\<close>, \<open>Reorder\<close>: the contract of an event buffer as a locale, and
    \<open>processor/reorder.py\<close>, which implements it: nothing is lost or duplicated, delivery is in
    order and without gaps per node, respects causality and leaves nothing deliverable behind.
  \<^item> \<open>Tft_Data\<close>, \<open>Tft_Augments\<close>, \<open>Tft_Display\<close>, \<open>Catalogue\<close>: the tables of \<open>common/tft_data.py\<close>, and
    that the display tables are complete for the tables that carry logic.
  \<^item> \<open>Config\<close>: how the services read their environment variables.
  \<^item> \<open>Aggregator\<close>: \<open>processor/aggregator.py\<close> against reference statistics that are defined on the
    list of matches: \<open>flush\<close> emits exactly these, within their bounds.
  \<^item> \<open>Metrics\<close>: \<open>common/metrics.py\<close>.
  \<^item> \<open>Offsets\<close>, \<open>Processor\<close>: \<open>processor/main.py\<close>, the offset files with crashes in the middle of a
    write, the subscriber threads with broken subscriptions, and the main loop: every event is in
    exactly one place, and the clocks of successive flushes increase.
  \<^item> \<open>Detector\<close>, \<open>Anomaly\<close>: \<open>anomaly/detector.py\<close> and \<open>anomaly/main.py\<close>: what is flagged, what the
    history holds, what an alert says, and the counters.
  \<^item> \<open>Cache\<close>: \<open>api/cache.py\<close>, with a step relation for interleaved requests: a bound on the age of
    what is served.
  \<^item> \<open>Security\<close>: \<open>api/security.py\<close>: the sliding window and the daily cap over any sequence of
    requests, retry hints, headers and the exact language of the validators.
  \<^item> \<open>Service\<close>: \<open>api/service.py\<close>: aggregation over scopes, all read operations and the anomaly feed.
  \<^item> \<open>Riot\<close>: \<open>api/riot.py\<close>: requests and their number, rank snapshots, match parsing and the
    consistency of the numbers of a profile.
  \<^item> \<open>Endpoints\<close>: \<open>api/main.py\<close>: validation in front of every call of the service.
  \<^item> \<open>Synthetic\<close>, \<open>Ingestion\<close>: \<open>ingestion/\<close>: the generator, the token bucket, the client, the tasks
    and their order, and the interleaving of the workers as a step relation of which the
    sequential code is a run; what the workers publish goes through the reorder buffer in order.
  \<^item> \<open>Ingest_Run\<close>, \<open>Startup\<close>: \<open>main\<close> of the services, from the environment to the first round: what a run
    publishes, that it goes to topics and partitions the processor subscribes to, and which
    environments stop a service.
  \<^item> \<open>Set_Data\<close>, \<open>Set_Render\<close>: \<open>scripts/fetch_set_data.py\<close>, the selection and the text it renders,
    with a reader for Python's \<open>repr\<close>.
  \<^item> \<open>Lsm\<close>, \<open>Meta_Server\<close>: the Go meta store: vector clocks, log, memtable, tables, compaction and
    cache as a refinement of the set of logged entries; the handlers with their quorums, the current
    patch and decay.
  \<^item> \<open>Broker_Log\<close>, \<open>Broker\<close>: the Go broker: the bytes of a partition's log as a refinement of the list of
    published payloads, recovery, retention and torn writes; keys, subscriptions as a step relation
    and replicas.
  \<^item> \<open>Hash_Ring\<close>: the ring of \<open>hasher/hashring.go\<close>: the owners of a key, and how they change.
  \<^item> \<open>Clients\<close>: the gRPC clients of \<open>common/clients.py\<close>.
  \<^item> \<open>Pipeline\<close>, \<open>Store_Pipeline\<close>, \<open>Store_Service\<close>, \<open>Api_App\<close> and this theory: compositions. What the API
    serves in terms of the matches that were processed; what a scan finds after a flush and after a
    restart of the processor; and the whole REST application behind its middleware, with the
    requests it makes to Riot in a day.

  \<^bold>\<open>Modelling.\<close> Classes are records, methods are functions that return the new state; an
  exception is a value of a sum or option type. Python's floats are real numbers and \<open>round\<close>
  rounds them half to even; no theorem rests on the rounding of single float operations. Strings are
  lists of the 256 characters of Latin-1. A dictionary is an association list in insertion order,
  a set a list whose order is never used except through a parameter. Integers are unbounded as in
  Python. NumPy's mean and standard deviation, gRPC, HTTP, the clock, the random generator, MD5,
  CRC-32, FastAPI's routing and the contents of the environment are parameters; where a property
  relies on one of them, its documented behaviour is a hypothesis, and the witness of the property
  supplies an instance. Bytes on disk and hashes are machine words.
  Loops are recursive functions that terminate; the one loop that need not, the ingestion client
  waiting out 429 answers, is a partial function with an exact theorem on when it returns. No
  fuel is used. Threads and tasks that share state are step relations, with invariants by rule
  induction.

  \<^bold>\<open>Not modelled.\<close> Of the Go services the gossip protocol, the bytes of the meta store's log and table
  files, its Bloom filters, the broker's token bucket, connections to peers and the start-up; the
  dashboard and the test drivers. Of the Python services printing, sleeping, starting threads and
  servers, the blocking of a full queue and the counter \<open>subscribe_errors_total\<close> of the processor.
  The generated gRPC stubs are not in the repository.
\<close>

section \<open>Properties that span components\<close>

text \<open>
  C2. What the API serves is what the matches say. Take any batch of matches through the
  aggregator, flush it, and let the service aggregate the flushed entries of one type over all
  patches, tiers and regions: every entity that occurs on a board gets exactly one row, whose
  sample size is the number of its occurrences, whose win rate is the share of them placed
  fourth or better and whose average placement is their mean placement, both rounded to four
  digits.
\<close>

theorem served_statistics:
  assumes "mean_spec np_mean" and "pool ms eid etype \<noteq> []"
  shows "\<exists>r\<in>set (aggregate_by_entity (flushed np_mean c ms etype)).
      r_entity_id r = eid
    \<and> r_sample_size r = int (length (pool ms eid etype))
    \<and> r_win_rate r = py_round (real (top4 (pool ms eid etype)) / real (length (pool ms eid etype))) 4
    \<and> r_avg_placement r = py_round (real_of_int (sum_list (pool ms eid etype)) / real (length (pool ms eid etype))) 4
    \<and> (\<forall>r'\<in>set (aggregate_by_entity (flushed np_mean c ms etype)). r_entity_id r' = eid \<longrightarrow> r' = r)"
proof -
  let ?es = "flushed np_mean c ms etype"
  note own = own_flushed_pool [OF assms(1), of eid c ms etype]
  have "total_size (own_entries eid ?es) \<noteq> 0" using own(1) assms(2) by simp
  from aggregate_has_row [OF this] obtain r where
    r: "r \<in> set (aggregate_by_entity ?es)" and id: "r_entity_id r = eid" by blast
  note row = aggregate_row(1) [OF r, unfolded id]
  have "inj_on r_entity_id (set (aggregate_by_entity ?es))"
    using aggregate_distinct [of ?es] by (simp only: distinct_map)
  from inj_onD [OF this _ _ r] have only: "r' = r"
    if "r' \<in> set (aggregate_by_entity ?es)" "r_entity_id r' = eid" for r'
    using that id by simp
  note facts = entity_row_facts(1-3) [OF row, unfolded own]
  show ?thesis
    by (rule bexI [OF _ r]) (intro conjI ballI impI id facts only)
qed

theorem served_statistics_witness:
  "\<exists>r\<in>set (aggregate_by_entity (flushed exact_mean [] [sample_match] ''champion'')).
     r_entity_id r = ''TFT17_Bard'' \<and> r_sample_size r = 2 \<and> r_win_rate r = py_round (1/2) 4"
proof -
  have p: "pool [sample_match] ''TFT17_Bard'' ''champion'' = [1, 5]" by code_simp
  then have "pool [sample_match] ''TFT17_Bard'' ''champion'' \<noteq> []" by simp
  moreover have t: "real (top4 [1, 5]) / real (length [1, 5 :: int]) = 1/2" "int (length [1, 5 :: int]) = 2"
    by (simp_all add: top4_def)
  ultimately show ?thesis
    using served_statistics [OF exact_mean_spec, of "[sample_match]" "''TFT17_Bard''" "''champion''" "[]",
        unfolded p t, OF list.distinct(2)]
    by (elim bexE conjE, intro bexI conjI)
qed

end
